theory Spec2Isabelle
  imports Complex_Main
begin

section \<open>JavaScript strings and regular expressions\<close>

text \<open>
  A JavaScript string is a sequence of UTF-16 code units. It is modelled as a HOL
  \<open>string\<close>, one \<open>char\<close> per code unit, so the model ranges over the code
  units 0 to 255. The white space of \<open>String.prototype.trim\<close> and of the class
  \<open>\s\<close> in that range is TAB, LF, VT, FF, CR, SPACE and NBSP (160).
\<close>

definition isWhiteSpace :: "char \<Rightarrow> bool" where
  "isWhiteSpace c = (c \<in> set [CHR 0x09, CHR 0x0A, CHR 0x0B, CHR 0x0C, CHR 0x0D, CHR 0x20, CHR 0xA0])"

definition trim :: "string \<Rightarrow> string" where
  "trim s = rev (dropWhile isWhiteSpace (rev (dropWhile isWhiteSpace s)))"

definition digits :: string where
  "digits = ''0123456789''"

definition uppers :: string where
  "uppers = ''ABCDEFGHIJKLMNOPQRSTUVWXYZ''"

definition lowers :: string where
  "lowers = ''abcdefghijklmnopqrstuvwxyz''"

definition isDigit :: "char \<Rightarrow> bool" where
  "isDigit c = (c \<in> set digits)"

definition isUpper :: "char \<Rightarrow> bool" where
  "isUpper c = (c \<in> set uppers)"

definition isLower :: "char \<Rightarrow> bool" where
  "isLower c = (c \<in> set lowers)"

text \<open>
  Canonicalisation of a code unit under the flag \<open>i\<close> (without \<open>u\<close>): the upper-case
  form, except that a code unit from 128 on never canonicalises to one below 128.
  Only comparisons with ASCII pattern characters occur in this program, for which
  the ASCII letters are the only code units that change.
\<close>

definition canonicalize :: "char \<Rightarrow> char" where
  "canonicalize c = (case map_of (zip lowers uppers) c of None \<Rightarrow> c | Some u \<Rightarrow> u)"

text \<open>
  The regular expressions of the program use literals, classes, concatenation,
  alternation and repetition, always anchored by \<open>^\<close> and \<open>$\<close> (or, for \<open>/\d/\<close>,
  not anchored at all). \<open>RegExp.prototype.test\<close> is modelled by derivatives.
\<close>

datatype rx =
    Nothing
  | Blank
  | Class "char \<Rightarrow> bool"
  | Seq rx rx
  | Alt rx rx
  | Star rx

fun nullable :: "rx \<Rightarrow> bool" where
  "nullable Nothing = False"
| "nullable Blank = True"
| "nullable (Class p) = False"
| "nullable (Seq r s) = (nullable r \<and> nullable s)"
| "nullable (Alt r s) = (nullable r \<or> nullable s)"
| "nullable (Star r) = True"

fun deriv :: "char \<Rightarrow> rx \<Rightarrow> rx" where
  "deriv c Nothing = Nothing"
| "deriv c Blank = Nothing"
| "deriv c (Class p) = (if p c then Blank else Nothing)"
| "deriv c (Seq r s) =
     (if nullable r then Alt (Seq (deriv c r) s) (deriv c s) else Seq (deriv c r) s)"
| "deriv c (Alt r s) = Alt (deriv c r) (deriv c s)"
| "deriv c (Star r) = Seq (deriv c r) (Star r)"

fun test_anchored :: "rx \<Rightarrow> string \<Rightarrow> bool" where
  "test_anchored r [] = nullable r"
| "test_anchored r (c # cs) = test_anchored (deriv c r) cs"

definition anyChar :: rx where
  "anyChar = Class (\<lambda>c. True)"

definition test_search :: "rx \<Rightarrow> string \<Rightarrow> bool" where
  "test_search r s = test_anchored (Seq (Star anyChar) (Seq r (Star anyChar))) s"

fun times :: "nat \<Rightarrow> rx \<Rightarrow> rx" where
  "times 0 r = Blank"
| "times (Suc n) r = Seq r (times n r)"

fun upto :: "nat \<Rightarrow> rx \<Rightarrow> rx" where
  "upto 0 r = Blank"
| "upto (Suc n) r = Alt Blank (Seq r (upto n r))"

definition plus1 :: "rx \<Rightarrow> rx" where
  "plus1 r = Seq r (Star r)"

definition opt :: "rx \<Rightarrow> rx" where
  "opt r = Alt Blank r"

definition lit :: "char \<Rightarrow> rx" where
  "lit a = Class (\<lambda>c. c = a)"

definition lit_i :: "char \<Rightarrow> rx" where
  "lit_i a = Class (\<lambda>c. canonicalize c = canonicalize a)"

definition digit :: rx where
  "digit = Class isDigit"

text \<open>The words a regular expression accepts, to reason about \<open>test_anchored\<close>.\<close>

inductive_set reps :: "string set \<Rightarrow> string set" for L :: "string set" where
  none: "[] \<in> reps L"
| more: "u \<in> L \<Longrightarrow> v \<in> reps L \<Longrightarrow> u @ v \<in> reps L"

fun lang :: "rx \<Rightarrow> string set" where
  "lang Nothing = {}"
| "lang Blank = {[]}"
| "lang (Class p) = {[c] | c. p c}"
| "lang (Seq r s) = {u @ v | u v. u \<in> lang r \<and> v \<in> lang s}"
| "lang (Alt r s) = lang r \<union> lang s"
| "lang (Star r) = reps (lang r)"

section \<open>Validator library\<close>

text \<open>\<open>/^GHA-\d{9}-\d{2}$/i\<close>\<close>

definition ghanaCard_rx :: rx where
  "ghanaCard_rx =
     Seq (lit_i CHR ''G'') (Seq (lit_i CHR ''H'') (Seq (lit_i CHR ''A'') (Seq (lit_i CHR ''-'')
       (Seq (times 9 digit) (Seq (lit_i CHR ''-'') (times 2 digit))))))"

text \<open>\<open>const isValidGhanaCard = (card) => /^GHA-\d{9}-\d{2}$/i.test(card.trim());\<close>
  (the same text in all three applications)\<close>

definition isValidGhanaCard :: "string \<Rightarrow> bool" where
  "isValidGhanaCard s = test_anchored ghanaCard_rx (trim s)"

text \<open>\<open>/^[^\s@]+@[^\s@]+\.[^\s@]+$/\<close>\<close>

definition notSpaceAt :: rx where
  "notSpaceAt = Class (\<lambda>c. \<not> isWhiteSpace c \<and> c \<noteq> CHR ''@'')"

definition email_rx :: rx where
  "email_rx =
     Seq (plus1 notSpaceAt) (Seq (lit CHR ''@'') (Seq (plus1 notSpaceAt)
       (Seq (lit CHR ''.'') (plus1 notSpaceAt))))"

definition isValidEmail :: "string \<Rightarrow> bool" where
  "isValidEmail s = test_anchored email_rx (trim s)"

text \<open>\<open>/^[A-Za-z0-9\-]{5,}$/\<close>\<close>

definition dvlaChar :: rx where
  "dvlaChar = Class (\<lambda>c. isUpper c \<or> isLower c \<or> isDigit c \<or> c = CHR ''-'')"

definition dvla_rx :: rx where
  "dvla_rx = Seq (times 5 dvlaChar) (Star dvlaChar)"

definition isValidDVLA :: "string \<Rightarrow> bool" where
  "isValidDVLA s = test_anchored dvla_rx (trim s)"

text \<open>\<open>/^(?:0|\+?233)\d{9}$/\<close>, applied to \<open>(phone || "").toString().trim()\<close>\<close>

definition lit233 :: rx where
  "lit233 = Seq (lit CHR ''2'') (Seq (lit CHR ''3'') (lit CHR ''3''))"

definition phone_rx :: rx where
  "phone_rx = Seq (Alt (lit CHR ''0'') (Seq (opt (lit CHR ''+'')) lit233)) (times 9 digit)"

definition isValidPhone :: "string \<Rightarrow> bool" where
  "isValidPhone s = test_anchored phone_rx (trim s)"

text \<open>\<open>normalizePhone\<close>: \<open>/^0\d{9}$/\<close>, \<open>/^233\d{9}$/\<close>, \<open>/^\+233\d{9}$/\<close>;
  \<open>p.slice(1)\<close> drops the first code unit.\<close>

definition normalizePhone :: "string \<Rightarrow> string" where
  "normalizePhone s =
     (let p = trim s in
      if test_anchored (Seq (lit CHR ''0'') (times 9 digit)) p then ''+233'' @ drop 1 p
      else if test_anchored (Seq lit233 (times 9 digit)) p then ''+'' @ p
      else if test_anchored (Seq (lit CHR ''+'') (Seq lit233 (times 9 digit))) p then p
      else p)"

text \<open>\<open>/^[a-zA-Z0-9_\.\-]{3,20}$/\<close>\<close>

definition usernameChar :: rx where
  "usernameChar =
     Class (\<lambda>c. isLower c \<or> isUpper c \<or> isDigit c \<or> c = CHR ''_'' \<or> c = CHR ''.'' \<or> c = CHR ''-'')"

definition username_rx :: rx where
  "username_rx = Seq (times 3 usernameChar) (upto 17 usernameChar)"

text \<open>\<open>/\d/.test(name)\<close>\<close>

definition hasDigit :: "string \<Rightarrow> bool" where
  "hasDigit s = test_search digit s"

section \<open>The JavaScript runtime\<close>

text \<open>
  A JavaScript number is a double: not-a-number, an infinity or a rational. The
  built-ins whose results depend on Unicode tables, on the rounding of doubles, on
  the locale or on a random salt are parameters of the model: every theorem
  below holds for every such runtime.
\<close>

datatype jsnum = NaN | NegInf | Fin rat | PosInf

definition isNaN :: "jsnum \<Rightarrow> bool" where
  "isNaN x = (x = NaN)"

text \<open>\<open>x < q\<close> and \<open>x > q\<close> for a finite \<open>q\<close>; every comparison with NaN is false.\<close>

fun js_less :: "jsnum \<Rightarrow> rat \<Rightarrow> bool" where
  "js_less NaN q = False"
| "js_less NegInf q = True"
| "js_less (Fin x) q = (x < q)"
| "js_less PosInf q = False"

fun js_greater :: "jsnum \<Rightarrow> rat \<Rightarrow> bool" where
  "js_greater NaN q = False"
| "js_greater NegInf q = False"
| "js_greater (Fin x) q = (x > q)"
| "js_greater PosInf q = True"

record runtime =
  toUpperCase :: "string \<Rightarrow> string"
  parseFloat :: "string \<Rightarrow> jsnum"
  numberToString :: "jsnum \<Rightarrow> string"
  toLocaleDateString :: "nat \<Rightarrow> string"
  bcrypt_hash :: "string \<Rightarrow> string"

text \<open>\<open>x || d\<close> on a possibly missing string: the empty string is falsy too.\<close>

definition truthy :: "string option \<Rightarrow> bool" where
  "truthy x = (case x of None \<Rightarrow> False | Some s \<Rightarrow> s \<noteq> [])"

definition or_else :: "string option \<Rightarrow> string \<Rightarrow> string" where
  "or_else x d = (case x of None \<Rightarrow> d | Some s \<Rightarrow> if s = [] then d else s)"

text \<open>A value inside a template literal: a missing one prints as \<open>undefined\<close>.\<close>

definition tpl :: "string option \<Rightarrow> string" where
  "tpl x = (case x of None \<Rightarrow> ''undefined'' | Some s \<Rightarrow> s)"

section \<open>Requests, responses, dialog states and the session store\<close>

text \<open>\<open>const {sessionID, userID, newSession, msisdn, userData} = req.body;\<close>\<close>

record request =
  sessionID :: string
  userID :: string
  newSession :: bool
  msisdn :: string
  userData :: string

text \<open>\<open>{sessionID, userID, message, continueSession, msisdn}\<close>\<close>

record response =
  r_sessionID :: string
  r_userID :: string
  r_message :: string
  continueSession :: bool
  r_msisdn :: string

definition respond :: "request \<Rightarrow> string \<Rightarrow> bool \<Rightarrow> response" where
  "respond req m c =
     \<lparr>r_sessionID = sessionID req, r_userID = userID req, r_message = m,
      continueSession = c, r_msisdn = msisdn req\<rparr>"

text \<open>
  A dialog state is an object with a message and whichever of the other properties the
  step that built it has set; a property that was never set reads as \<open>undefined\<close>
  (\<open>None\<close>). \<open>st_sessionID\<close> and \<open>st_msisdn\<close> are the properties \<open>sessionID\<close>
  and \<open>msisdn\<close> of the first state of a GatePlus session.
\<close>

record dstate =
  level :: "nat option"
  message :: string
  name :: "string option"
  username :: "string option"
  phone :: "string option"
  email :: "string option"
  password :: "string option"
  dvlaNumber :: "string option"
  loggedIn :: "bool option"
  userRef :: "nat option"
  fullName :: "string option"
  st_sessionID :: "string option"
  st_msisdn :: "string option"

text \<open>\<open>{ level: l, message }\<close>\<close>

definition state :: "nat \<Rightarrow> string \<Rightarrow> dstate" where
  "state l m =
     \<lparr>level = Some l, message = m, name = None, username = None, phone = None,
      email = None, password = None, dvlaNumber = None, loggedIn = None, userRef = None,
      fullName = None, st_sessionID = None, st_msisdn = None\<rparr>"

text \<open>\<open>{ ...undefined, message }\<close>\<close>

definition only_message :: "string \<Rightarrow> dstate" where
  "only_message m =
     \<lparr>level = None, message = m, name = None, username = None, phone = None,
      email = None, password = None, dvlaNumber = None, loggedIn = None, userRef = None,
      fullName = None, st_sessionID = None, st_msisdn = None\<rparr>"

text \<open>
  A session is a JavaScript array of dialog states. The programs write to
  \<open>userSession[userSession.length - 1]\<close>; on an empty array that is the property
  \<open>-1\<close>, which is no element: the array stays empty and keeps the value under that
  name, where a later read of \<open>userSession[userSession.length - 1]\<close> finds it again.
  \<open>items\<close> are the elements and \<open>neg1\<close> is that property.
\<close>

record jsarr =
  items :: "dstate list"
  neg1 :: "dstate option"

definition arr :: "dstate list \<Rightarrow> jsarr" where
  "arr xs = \<lparr>items = xs, neg1 = None\<rparr>"

text \<open>\<open>userSession[userSession.length - 1]\<close>\<close>

definition top :: "jsarr \<Rightarrow> dstate option" where
  "top a = (if items a = [] then neg1 a else Some (last (items a)))"

text \<open>\<open>userSession[userSession.length - 1] = v\<close>\<close>

definition set_top :: "jsarr \<Rightarrow> dstate \<Rightarrow> jsarr" where
  "set_top a v =
     (if items a = [] then a\<lparr>neg1 := Some v\<rparr> else a\<lparr>items := butlast (items a) @ [v]\<rparr>)"

definition push :: "jsarr \<Rightarrow> dstate \<Rightarrow> jsarr" where
  "push a v = a\<lparr>items := items a @ [v]\<rparr>"

definition pop :: "jsarr \<Rightarrow> jsarr" where
  "pop a = a\<lparr>items := butlast (items a)\<rparr>"

text \<open>\<open>{ ...x, message }\<close> where \<open>x\<close> may be \<open>undefined\<close>\<close>

definition with_message :: "dstate option \<Rightarrow> string \<Rightarrow> dstate" where
  "with_message x m = (case x of None \<Rightarrow> only_message m | Some st \<Rightarrow> st\<lparr>message := m\<rparr>)"

text \<open>
  The session store is \<open>memory-cache\<close>: a map from session identifiers to arrays.
  An entry that has expired is absent; the time to live itself is not modelled.
  \<open>cache.get\<close> returns the stored array itself, and every step that changes an
  array in place stores it again at once, so a map to values behaves the same.
\<close>

type_synonym store = "string \<rightharpoonup> jsarr"

datatype 'a attempt = Threw | Returned 'a

section \<open>The courier repository (NCSTCS and PCRS)\<close>

text \<open>
  The \<open>User\<close> model of the two courier applications. NCSTCS has no \<open>phone\<close> in its
  schema; its documents have none. \<open>doc_id\<close> is \<open>_id\<close>.
\<close>

record courier =
  doc_id :: nat
  doc_username :: "string option"
  doc_password :: "string option"
  doc_role :: string
  doc_name :: "string option"
  doc_phone :: "string option"
  doc_email :: "string option"
  doc_dvlaNumber :: "string option"
  doc_ghanaCardNumber :: "string option"

datatype query =
    ByUsername string
  | ByPhone string
  | ByEmail string
  | ByDvlaNumber string
  | ByGhanaCardNumber string

datatype call = FindOne query | FindById "nat option" | Create courier

text \<open>
  The world of a courier application: the session store, the \<open>users\<close> collection,
  the record \<open>calls\<close> of every repository operation the handler has started, and
  \<open>faults\<close>, which says for each coming repository operation whether the database
  fails it (an operation beyond the end of the list does not fail).
\<close>

record world =
  cache :: store
  users :: "courier list"
  faults :: "bool list"
  calls :: "call list"

definition fault_next :: "bool list \<Rightarrow> bool" where
  "fault_next fs = (case fs of [] \<Rightarrow> False | b # _ \<Rightarrow> b)"

definition called :: "call \<Rightarrow> world \<Rightarrow> world" where
  "called c w = w\<lparr>faults := tl (faults w), calls := calls w @ [c]\<rparr>"

fun satisfies :: "query \<Rightarrow> courier \<Rightarrow> bool" where
  "satisfies (ByUsername v) u = (doc_username u = Some v)"
| "satisfies (ByPhone v) u = (doc_phone u = Some v)"
| "satisfies (ByEmail v) u = (doc_email u = Some v)"
| "satisfies (ByDvlaNumber v) u = (doc_dvlaNumber u = Some v)"
| "satisfies (ByGhanaCardNumber v) u = (doc_ghanaCardNumber u = Some v)"

text \<open>\<open>await User.findOne({ field: value })\<close>\<close>

definition findOne :: "query \<Rightarrow> world \<Rightarrow> courier option attempt \<times> world" where
  "findOne q w =
     (if fault_next (faults w) then Threw else Returned (find (satisfies q) (users w)),
      called (FindOne q) w)"

text \<open>\<open>await User.findById(ref)\<close>; Mongoose turns \<open>findById(undefined)\<close> into a query
  for \<open>_id: null\<close>, which finds nothing.\<close>

definition findById :: "nat option \<Rightarrow> world \<Rightarrow> courier option attempt \<times> world" where
  "findById r w =
     (if fault_next (faults w) then Threw
      else Returned (case r of None \<Rightarrow> None | Some i \<Rightarrow> find (\<lambda>u. doc_id u = i) (users w)),
      called (FindById r) w)"

text \<open>
  \<open>await User.create({...})\<close>. The schema requires \<open>username\<close> and \<open>password\<close>
  (a required string must not be empty) and declares \<open>unique: true\<close> on
  \<open>username\<close>, \<open>phone\<close>, \<open>email\<close>, \<open>dvlaNumber\<close> and \<open>ghanaCardNumber\<close>
  (sparse: documents without the field are not indexed). A document that breaks one
  of these is rejected; the others are stored under a fresh \<open>_id\<close>.
\<close>

definition clash :: "string option \<Rightarrow> string option \<Rightarrow> bool" where
  "clash a b = (a \<noteq> None \<and> a = b)"

definition duplicate :: "courier \<Rightarrow> courier \<Rightarrow> bool" where
  "duplicate d u =
     (clash (doc_username d) (doc_username u) \<or> clash (doc_phone d) (doc_phone u)
      \<or> clash (doc_email d) (doc_email u) \<or> clash (doc_dvlaNumber d) (doc_dvlaNumber u)
      \<or> clash (doc_ghanaCardNumber d) (doc_ghanaCardNumber u))"

definition acceptable :: "courier \<Rightarrow> courier list \<Rightarrow> bool" where
  "acceptable d us =
     (truthy (doc_username d) \<and> truthy (doc_password d) \<and> \<not> list_ex (duplicate d) us)"

definition fresh_id :: "courier list \<Rightarrow> nat" where
  "fresh_id us = Suc (foldr max (map doc_id us) 0)"

definition create :: "courier \<Rightarrow> world \<Rightarrow> courier attempt \<times> world" where
  "create d w =
     (if fault_next (faults w) \<or> \<not> acceptable d (users w) then (Threw, called (Create d) w)
      else (let d' = d\<lparr>doc_id := fresh_id (users w)\<rparr>
            in (Returned d', (called (Create d) w)\<lparr>users := users w @ [d']\<rparr>)))"

text \<open>\<open>saveSession\<close> followed by \<open>respond\<close>, the helper \<open>reply\<close> of the courier
  applications: it stores the array \<open>userSession\<close> names at that moment.\<close>

definition reply :: "request \<Rightarrow> jsarr \<Rightarrow> string \<Rightarrow> bool \<Rightarrow> world \<Rightarrow> response attempt \<times> world" where
  "reply req userSession m c w =
     (Returned (respond req m c), w\<lparr>cache := (cache w)(sessionID req \<mapsto> userSession)\<rparr>)"

text \<open>\<open>cache.del(sessionID)\<close> followed by \<open>respond\<close> with \<open>continueSession: false\<close>\<close>

definition finish :: "request \<Rightarrow> string \<Rightarrow> world \<Rightarrow> response attempt \<times> world" where
  "finish req m w =
     (Returned (respond req m False), w\<lparr>cache := (cache w)(sessionID req := None)\<rparr>)"

text \<open>An exception that leaves the handler unanswered gives no response.\<close>

definition answer :: "response attempt \<times> world \<Rightarrow> response option \<times> world" where
  "answer r = (case r of (Threw, w) \<Rightarrow> (None, w) | (Returned x, w) \<Rightarrow> (Some x, w))"

text \<open>The \<open>catch (err)\<close> block around the \<open>switch\<close> of the courier applications.\<close>

definition unavailable :: string where
  "unavailable = ''Service temporarily unavailable. Try later.''"

definition catch_all :: "request \<Rightarrow> response attempt \<times> world \<Rightarrow> response attempt \<times> world" where
  "catch_all req r = (case r of (Threw, w) \<Rightarrow> finish req unavailable w | (Returned x, w) \<Rightarrow> (Returned x, w))"

text \<open>\<open>userSession[userSession.length - 1] = { ...current, message }; return reply(message);\<close>\<close>

definition retry :: "request \<Rightarrow> jsarr \<Rightarrow> dstate \<Rightarrow> string \<Rightarrow> world \<Rightarrow> response attempt \<times> world" where
  "retry req userSession current m w =
     reply req (set_top userSession (current\<lparr>message := m\<rparr>)) m True w"

section \<open>The NCSTCS application\<close>

definition ncstcs_home :: string where
  "ncstcs_home = ''NCSTCS Couriers\<newline>1. Sign Up\<newline>2. Lookup Courier\<newline>3. Cancel''"

text \<open>\<open>case 0\<close>\<close>

definition ncstcs_case0 :: "request \<Rightarrow> jsarr \<Rightarrow> world \<Rightarrow> response attempt \<times> world" where
  "ncstcs_case0 req userSession w =
     (if userData req = ''1'' then
        reply req (push userSession (state 10 ''Enter Full Name:'')) ''Enter Full Name:'' True w
      else if userData req = ''2'' then
        reply req (push userSession (state 30 ''Enter DVLA or Ghana Card Number:''))
          ''Enter DVLA or Ghana Card Number:'' True w
      else finish req ''Session ended.'' w)"

text \<open>\<open>case 10\<close>: full name (the same text in NCSTCS and PCRS)\<close>

definition case_fullName :: "request \<Rightarrow> jsarr \<Rightarrow> dstate \<Rightarrow> world \<Rightarrow> response attempt \<times> world" where
  "case_fullName req userSession current w =
     (let name' = trim (userData req) in
      if name' = [] \<or> length name' < 3 \<or> hasDigit name' then
        retry req userSession current ''Invalid name. Enter Full Name:'' w
      else
        reply req (push userSession ((state 11 ''Choose a Username:'')\<lparr>name := Some name'\<rparr>))
          ''Choose a Username:'' True w)"

text \<open>\<open>case 11\<close>: username\<close>

definition ncstcs_case11 :: "request \<Rightarrow> jsarr \<Rightarrow> dstate \<Rightarrow> world \<Rightarrow> response attempt \<times> world" where
  "ncstcs_case11 req userSession current w =
     (let username' = trim (userData req) in
      if \<not> test_anchored username_rx username' then
        retry req userSession current ''Invalid username. Try again:'' w
      else
        (case findOne (ByUsername username') w of
           (Threw, w1) \<Rightarrow> (Threw, w1)
         | (Returned exists, w1) \<Rightarrow>
             if exists \<noteq> None then
               retry req userSession current ''Username taken. Enter a different Username:'' w1
             else
               reply req
                 (push userSession
                    ((state 12 ''Enter Email:'')\<lparr>name := name current, username := Some username'\<rparr>))
                 ''Enter Email:'' True w1))"

text \<open>\<open>case 12\<close>: email\<close>

definition ncstcs_case12 :: "request \<Rightarrow> jsarr \<Rightarrow> dstate \<Rightarrow> world \<Rightarrow> response attempt \<times> world" where
  "ncstcs_case12 req userSession current w =
     (let email' = trim (userData req) in
      if \<not> isValidEmail email' then
        retry req userSession current ''Invalid email. Enter Email:'' w
      else
        (case findOne (ByEmail email') w of
           (Threw, w1) \<Rightarrow> (Threw, w1)
         | (Returned exists, w1) \<Rightarrow>
             if exists \<noteq> None then
               retry req userSession current ''Email already in use. Enter a different Email:'' w1
             else
               reply req
                 (push userSession
                    ((state 13 ''Create Password:'')
                       \<lparr>name := name current, username := username current, email := Some email'\<rparr>))
                 ''Create Password:'' True w1))"

text \<open>\<open>case 13\<close>: password\<close>

definition ncstcs_case13 :: "request \<Rightarrow> jsarr \<Rightarrow> dstate \<Rightarrow> world \<Rightarrow> response attempt \<times> world" where
  "ncstcs_case13 req userSession current w =
     (let password' = trim (userData req) in
      if length password' < 6 then
        retry req userSession current ''Password too short (min 6). Create Password:'' w
      else
        reply req
          (push userSession
             (current\<lparr>level := Some 14, password := Some password', message := ''Confirm Password:''\<rparr>))
          ''Confirm Password:'' True w)"

text \<open>
  The mismatch branch of the confirm-password step:
  \<open>userSession.pop(); userSession[userSession.length - 1] =
  { ...userSession[userSession.length - 1], message }; return reply(message);\<close>
\<close>

definition passwords_differ :: "request \<Rightarrow> jsarr \<Rightarrow> world \<Rightarrow> response attempt \<times> world" where
  "passwords_differ req userSession w =
     (let popped = pop userSession;
          m = ''Passwords do not match. Create Password:''
      in reply req (set_top popped (with_message (top popped) m)) m True w)"

text \<open>\<open>case 14\<close>: confirm password\<close>

definition ncstcs_case14 :: "request \<Rightarrow> jsarr \<Rightarrow> dstate \<Rightarrow> world \<Rightarrow> response attempt \<times> world" where
  "ncstcs_case14 req userSession current w =
     (let confirm = trim (userData req) in
      if Some confirm \<noteq> password current then passwords_differ req userSession w
      else
        reply req
          (push userSession (current\<lparr>level := Some 15, message := ''Enter DVLA License Number:''\<rparr>))
          ''Enter DVLA License Number:'' True w)"

text \<open>\<open>case 15\<close>: licence number\<close>

definition ncstcs_case15 ::
  "runtime \<Rightarrow> request \<Rightarrow> jsarr \<Rightarrow> dstate \<Rightarrow> world \<Rightarrow> response attempt \<times> world" where
  "ncstcs_case15 rt req userSession current w =
     (let dvlaNumber' = toUpperCase rt (trim (userData req)) in
      if \<not> isValidDVLA dvlaNumber' then
        retry req userSession current ''Invalid DVLA number. Enter DVLA License Number:'' w
      else
        (case findOne (ByDvlaNumber dvlaNumber') w of
           (Threw, w1) \<Rightarrow> (Threw, w1)
         | (Returned exists, w1) \<Rightarrow>
             if exists \<noteq> None then
               retry req userSession current
                 ''DVLA already registered. Enter a different DVLA License Number:'' w1
             else
               reply req
                 (push userSession
                    (current\<lparr>level := Some 16, dvlaNumber := Some dvlaNumber',
                       message := ''Enter Ghana Card (e.g., GHA-123456789-01):''\<rparr>))
                 ''Enter Ghana Card (e.g., GHA-123456789-01):'' True w1))"

text \<open>
  The end of the sign-up: \<open>bcrypt.hash(password, 10)\<close>, which throws on a missing
  password, then \<open>User.create\<close> inside its own \<open>try\<close>.
\<close>

definition register :: "runtime \<Rightarrow> request \<Rightarrow> courier \<Rightarrow> string option \<Rightarrow> string \<Rightarrow> world
    \<Rightarrow> response attempt \<times> world" where
  "register rt req doc pw success w =
     (case pw of
        None \<Rightarrow> (Threw, w)
      | Some p \<Rightarrow>
          (case create (doc\<lparr>doc_password := Some (bcrypt_hash rt p)\<rparr>) w of
             (Threw, w1) \<Rightarrow> finish req ''Registration failed. Try again later.'' w1
           | (Returned d, w1) \<Rightarrow> finish req success w1))"

text \<open>\<open>case 16\<close>: Ghana card, then the creation of the user\<close>

definition ncstcs_case16 ::
  "runtime \<Rightarrow> request \<Rightarrow> jsarr \<Rightarrow> dstate \<Rightarrow> world \<Rightarrow> response attempt \<times> world" where
  "ncstcs_case16 rt req userSession current w =
     (let ghanaCardNumber = toUpperCase rt (trim (userData req)) in
      if \<not> isValidGhanaCard ghanaCardNumber then
        retry req userSession current ''Invalid format. Use GHA-XXXXXXXXX-XX:'' w
      else
        (case findOne (ByGhanaCardNumber ghanaCardNumber) w of
           (Threw, w1) \<Rightarrow> (Threw, w1)
         | (Returned exists, w1) \<Rightarrow>
             if exists \<noteq> None then
               retry req userSession current
                 ''Ghana Card already registered. Enter a different Ghana Card:'' w1
             else
               register rt req
                 \<lparr>doc_id = 0, doc_username = username current, doc_password = None,
                  doc_role = ''courier'', doc_name = name current, doc_phone = None,
                  doc_email = email current, doc_dvlaNumber = dvlaNumber current,
                  doc_ghanaCardNumber = Some ghanaCardNumber\<rparr>
                 (password current) ''Registration successful!'' w1))"

text \<open>\<open>case 30\<close>: lookup\<close>

definition ncstcs_summary :: "courier \<Rightarrow> string" where
  "ncstcs_summary user =
     ''Name: '' @ or_else (doc_name user) ''-'' @ ''\<newline>Username: '' @ tpl (doc_username user)
     @ ''\<newline>Email: '' @ or_else (doc_email user) ''-''
     @ ''\<newline>DVLA: '' @ or_else (doc_dvlaNumber user) ''-''
     @ ''\<newline>GhanaCard: '' @ or_else (doc_ghanaCardNumber user) ''-''"

definition lookup ::
  "runtime \<Rightarrow> (courier \<Rightarrow> string) \<Rightarrow> request \<Rightarrow> jsarr \<Rightarrow> dstate \<Rightarrow> world
    \<Rightarrow> response attempt \<times> world" where
  "lookup rt summary req userSession current w =
     (let query = toUpperCase rt (trim (userData req)) in
      case findOne (if isValidGhanaCard query then ByGhanaCardNumber query else ByDvlaNumber query) w of
        (Threw, w1) \<Rightarrow> (Threw, w1)
      | (Returned None, w1) \<Rightarrow> retry req userSession current ''Courier not found. 9.Back 0.Home'' w1
      | (Returned (Some user), w1) \<Rightarrow> finish req (summary user) w1)"

text \<open>\<open>default\<close>\<close>

definition ncstcs_default :: "request \<Rightarrow> world \<Rightarrow> response attempt \<times> world" where
  "ncstcs_default req w = reply req (arr [state 0 ncstcs_home]) ncstcs_home True w"

text \<open>The \<open>switch (current.level)\<close>; reading \<open>level\<close> of a missing \<open>current\<close> throws.\<close>

definition ncstcs_switch ::
  "runtime \<Rightarrow> request \<Rightarrow> jsarr \<Rightarrow> world \<Rightarrow> response attempt \<times> world" where
  "ncstcs_switch rt req userSession w =
     (case top userSession of
        None \<Rightarrow> (Threw, w)
      | Some current \<Rightarrow>
          if level current = Some 0 then ncstcs_case0 req userSession w
          else if level current = Some 10 then case_fullName req userSession current w
          else if level current = Some 11 then ncstcs_case11 req userSession current w
          else if level current = Some 12 then ncstcs_case12 req userSession current w
          else if level current = Some 13 then ncstcs_case13 req userSession current w
          else if level current = Some 14 then ncstcs_case14 req userSession current w
          else if level current = Some 15 then ncstcs_case15 rt req userSession current w
          else if level current = Some 16 then ncstcs_case16 rt req userSession current w
          else if level current = Some 30 then lookup rt ncstcs_summary req userSession current w
          else ncstcs_default req w)"

text \<open>\<open>if (userData === "9")\<close>: Back. \<open>prev.message\<close> of a missing \<open>prev\<close> throws outside
  the \<open>try\<close>.\<close>

definition go_back :: "request \<Rightarrow> jsarr \<Rightarrow> world \<Rightarrow> response attempt \<times> world" where
  "go_back req userSession w =
     (let userSession' = (if length (items userSession) > 1 then pop userSession else userSession)
      in case top userSession' of
           None \<Rightarrow> (Threw, w)
         | Some prev \<Rightarrow> reply req userSession' (message prev) True w)"

text \<open>\<open>app.post('/ussd', ...)\<close> of NCSTCS\<close>

definition ncstcs_ussd :: "runtime \<Rightarrow> request \<Rightarrow> world \<Rightarrow> response option \<times> world" where
  "ncstcs_ussd rt req w =
     answer
      (case cache w (sessionID req) of
         None \<Rightarrow> reply req (arr [state 0 ncstcs_home]) ncstcs_home True w
       | Some userSession \<Rightarrow>
           if newSession req then reply req (arr [state 0 ncstcs_home]) ncstcs_home True w
           else if userData req = ''0'' then reply req (arr [state 0 ncstcs_home]) ncstcs_home True w
           else if userData req = ''9'' then go_back req userSession w
           else catch_all req (ncstcs_switch rt req userSession w))"

section \<open>The PCRS application\<close>

text \<open>
  Two prompts of PCRS contain the bullet U+2022 and the page emoji U+1F4C4, which lie
  outside the code units of the model; they stand here as their UTF-8 bytes.
\<close>

definition bullet :: string where
  "bullet = [CHR 0xE2, CHR 0x80, CHR 0xA2]"

definition page_emoji :: string where
  "page_emoji = [CHR 0xF0, CHR 0x9F, CHR 0x93, CHR 0x84]"

definition pcrs_home :: string where
  "pcrs_home = ''PCRS Couriers\<newline>1. Sign Up\<newline>2. Lookup Courier\<newline>3. Cancel''"

definition pcrs_menu :: "string \<Rightarrow> string" where
  "pcrs_menu displayName =
     ''Hi '' @ displayName @ ''\<newline>1. View My Details\<newline>2. Lookup Courier\<newline>3. Cancel''"

text \<open>\<open>me?.name || me?.username || me?.phone || "Courier"\<close>\<close>

definition displayName :: "courier option \<Rightarrow> string" where
  "displayName me =
     (case me of
        None \<Rightarrow> ''Courier''
      | Some u \<Rightarrow> or_else (doc_name u) (or_else (doc_username u) (or_else (doc_phone u) ''Courier'')))"

text \<open>\<open>{ level: 0, message, loggedIn: true, userRef }\<close>\<close>

definition logged_in :: "string \<Rightarrow> nat option \<Rightarrow> dstate" where
  "logged_in m r = (state 0 m)\<lparr>loggedIn := Some True, userRef := r\<rparr>"

text \<open>\<open>{ level: 0, message, loggedIn: false }\<close> with the plain menu\<close>

definition logged_out :: dstate where
  "logged_out = (state 0 pcrs_home)\<lparr>loggedIn := Some False\<rparr>"

text \<open>The branch \<open>if (newSession || !userSession)\<close>: the subscriber is looked up by phone;
  an exception of the lookup is caught and gives the plain menu.\<close>

definition pcrs_start :: "request \<Rightarrow> world \<Rightarrow> response attempt \<times> world" where
  "pcrs_start req w =
     (let phone' = normalizePhone (msisdn req) in
      case (if phone' \<noteq> [] then findOne (ByPhone phone') w else (Returned None, w)) of
        (Threw, w1) \<Rightarrow> reply req (arr [logged_out]) pcrs_home True w1
      | (Returned None, w1) \<Rightarrow> reply req (arr [logged_out]) pcrs_home True w1
      | (Returned (Some existing), w1) \<Rightarrow>
          reply req (arr [logged_in (pcrs_menu (displayName (Some existing))) (Some (doc_id existing))])
            (pcrs_menu (displayName (Some existing))) True w1)"

text \<open>\<open>userSession[0]\<close>\<close>

definition first_state :: "jsarr \<Rightarrow> dstate option" where
  "first_state a = (case items a of [] \<Rightarrow> None | x # _ \<Rightarrow> Some x)"

text \<open>\<open>userSession[0]?.userRef\<close>\<close>

definition session_userRef :: "jsarr \<Rightarrow> nat option" where
  "session_userRef a = (case first_state a of None \<Rightarrow> None | Some x \<Rightarrow> userRef x)"

text \<open>\<open>if (userData === "0")\<close>: Home\<close>

definition pcrs_go_home :: "request \<Rightarrow> jsarr \<Rightarrow> world \<Rightarrow> response attempt \<times> world" where
  "pcrs_go_home req userSession w =
     (if (case first_state userSession of None \<Rightarrow> None | Some x \<Rightarrow> loggedIn x) = Some True then
        (case findById (session_userRef userSession) w of
           (Threw, w1) \<Rightarrow>
             reply req (arr [logged_in (pcrs_menu ''Courier'') (session_userRef userSession)])
               (pcrs_menu ''Courier'') True w1
         | (Returned me, w1) \<Rightarrow>
             reply req (arr [logged_in (pcrs_menu (displayName me)) (session_userRef userSession)])
               (pcrs_menu (displayName me)) True w1)
      else reply req (arr [logged_out]) pcrs_home True w)"

definition pcrs_summary :: "courier \<Rightarrow> string" where
  "pcrs_summary user =
     ''Name: '' @ or_else (doc_name user) ''-'' @ ''\<newline>Username: '' @ tpl (doc_username user)
     @ ''\<newline>Phone: '' @ or_else (doc_phone user) ''-''
     @ ''\<newline>Email: '' @ or_else (doc_email user) ''-''
     @ ''\<newline>DVLA: '' @ or_else (doc_dvlaNumber user) ''-''
     @ ''\<newline>GhanaCard: '' @ or_else (doc_ghanaCardNumber user) ''-''"

definition signup_info :: string where
  "signup_info =
     page_emoji @ '' To register, you'' @ [CHR 0x27] @ ''ll need:\<newline>\<newline>''
     @ bullet @ '' DVLA License Number\<newline>''
     @ bullet @ '' Ghana Card (e.g., GHA-123456789-01)\<newline>\<newline>We'' @ [CHR 0x27]
     @ ''ll also collect:\<newline>'' @ bullet @ '' Full Name\<newline>'' @ bullet @ '' Username\<newline>''
     @ bullet @ '' Phone\<newline>'' @ bullet @ '' Email\<newline>'' @ bullet
     @ '' Password\<newline>\<newline>Press 1 to continue''"

text \<open>\<open>case 0\<close>\<close>

definition pcrs_case0 :: "request \<Rightarrow> jsarr \<Rightarrow> dstate \<Rightarrow> world \<Rightarrow> response attempt \<times> world" where
  "pcrs_case0 req userSession current w =
     (if loggedIn current = Some True then
        (if userData req = ''1'' then
           (case findById (session_userRef userSession) w of
              (Threw, w1) \<Rightarrow> finish req ''Unable to fetch details at the moment.'' w1
            | (Returned None, w1) \<Rightarrow> finish req ''Account not found.'' w1
            | (Returned (Some me), w1) \<Rightarrow> finish req (pcrs_summary me) w1)
         else if userData req = ''2'' then
           reply req (push userSession (state 30 ''Enter DVLA or Ghana Card Number:''))
             ''Enter DVLA or Ghana Card Number:'' True w
         else finish req ''Session ended.'' w)
      else
        (if userData req = ''1'' then
           reply req (push userSession (state 5 signup_info)) signup_info True w
         else if userData req = ''2'' then
           reply req (push userSession (state 30 ''Enter DVLA or Ghana Card Number:''))
             ''Enter DVLA or Ghana Card Number:'' True w
         else finish req ''Session ended.'' w))"

text \<open>\<open>case 5\<close>: the information screen, left with any input\<close>

definition pcrs_case5 :: "request \<Rightarrow> jsarr \<Rightarrow> world \<Rightarrow> response attempt \<times> world" where
  "pcrs_case5 req userSession w =
     reply req (push userSession (state 10 ''Enter Full Name:'')) ''Enter Full Name:'' True w"

text \<open>\<open>case 11\<close>: username\<close>

definition pcrs_case11 :: "request \<Rightarrow> jsarr \<Rightarrow> dstate \<Rightarrow> world \<Rightarrow> response attempt \<times> world" where
  "pcrs_case11 req userSession current w =
     (let username' = trim (userData req) in
      if \<not> test_anchored username_rx username' then
        retry req userSession current ''Invalid username. Try again:'' w
      else
        (case findOne (ByUsername username') w of
           (Threw, w1) \<Rightarrow> (Threw, w1)
         | (Returned exists, w1) \<Rightarrow>
             if exists \<noteq> None then
               retry req userSession current ''Username taken. Enter a different Username:'' w1
             else
               reply req
                 (push userSession
                    ((state 12 ''Enter Phone Number (e.g., 024XXXXXXX):'')
                       \<lparr>name := name current, username := Some username'\<rparr>))
                 ''Enter Phone Number (e.g., 024XXXXXXX):'' True w1))"

text \<open>\<open>case 12\<close>: phone\<close>

definition pcrs_case12 :: "request \<Rightarrow> jsarr \<Rightarrow> dstate \<Rightarrow> world \<Rightarrow> response attempt \<times> world" where
  "pcrs_case12 req userSession current w =
     (let rawPhone = trim (userData req) in
      if \<not> isValidPhone rawPhone then
        retry req userSession current ''Invalid phone. Enter Phone Number (e.g., 024XXXXXXX):'' w
      else
        (case findOne (ByPhone (normalizePhone rawPhone)) w of
           (Threw, w1) \<Rightarrow> (Threw, w1)
         | (Returned exists, w1) \<Rightarrow>
             if exists \<noteq> None then
               retry req userSession current
                 ''Phone already registered. Enter a different Phone Number:'' w1
             else
               reply req
                 (push userSession
                    ((state 13 ''Enter Email:'')
                       \<lparr>name := name current, username := username current,
                        phone := Some (normalizePhone rawPhone)\<rparr>))
                 ''Enter Email:'' True w1))"

text \<open>\<open>case 13\<close>: email\<close>

definition pcrs_case13 :: "request \<Rightarrow> jsarr \<Rightarrow> dstate \<Rightarrow> world \<Rightarrow> response attempt \<times> world" where
  "pcrs_case13 req userSession current w =
     (let email' = trim (userData req) in
      if \<not> isValidEmail email' then
        retry req userSession current ''Invalid email. Enter Email:'' w
      else
        (case findOne (ByEmail email') w of
           (Threw, w1) \<Rightarrow> (Threw, w1)
         | (Returned exists, w1) \<Rightarrow>
             if exists \<noteq> None then
               retry req userSession current ''Email already in use. Enter a different Email:'' w1
             else
               reply req
                 (push userSession
                    ((state 14 ''Create Password:'')
                       \<lparr>name := name current, username := username current,
                        phone := phone current, email := Some email'\<rparr>))
                 ''Create Password:'' True w1))"

text \<open>\<open>case 14\<close>: password\<close>

definition pcrs_case14 :: "request \<Rightarrow> jsarr \<Rightarrow> dstate \<Rightarrow> world \<Rightarrow> response attempt \<times> world" where
  "pcrs_case14 req userSession current w =
     (let password' = trim (userData req) in
      if length password' < 6 then
        retry req userSession current ''Password too short (min 6). Create Password:'' w
      else
        reply req
          (push userSession
             (current\<lparr>level := Some 15, password := Some password', message := ''Confirm Password:''\<rparr>))
          ''Confirm Password:'' True w)"

text \<open>\<open>case 15\<close>: confirm password\<close>

definition pcrs_case15 :: "request \<Rightarrow> jsarr \<Rightarrow> dstate \<Rightarrow> world \<Rightarrow> response attempt \<times> world" where
  "pcrs_case15 req userSession current w =
     (let confirm = trim (userData req) in
      if Some confirm \<noteq> password current then passwords_differ req userSession w
      else
        reply req
          (push userSession (current\<lparr>level := Some 16, message := ''Enter DVLA License Number:''\<rparr>))
          ''Enter DVLA License Number:'' True w)"

text \<open>\<open>case 16\<close>: licence number\<close>

definition pcrs_case16 ::
  "runtime \<Rightarrow> request \<Rightarrow> jsarr \<Rightarrow> dstate \<Rightarrow> world \<Rightarrow> response attempt \<times> world" where
  "pcrs_case16 rt req userSession current w =
     (let dvlaNumber' = toUpperCase rt (trim (userData req)) in
      if \<not> isValidDVLA dvlaNumber' then
        retry req userSession current ''Invalid DVLA number. Enter DVLA License Number:'' w
      else
        (case findOne (ByDvlaNumber dvlaNumber') w of
           (Threw, w1) \<Rightarrow> (Threw, w1)
         | (Returned exists, w1) \<Rightarrow>
             if exists \<noteq> None then
               retry req userSession current
                 ''DVLA already registered. Enter a different DVLA License Number:'' w1
             else
               reply req
                 (push userSession
                    (current\<lparr>level := Some 17, dvlaNumber := Some dvlaNumber',
                       message := ''Enter Ghana Card (e.g., GHA-123456789-01):''\<rparr>))
                 ''Enter Ghana Card (e.g., GHA-123456789-01):'' True w1))"

definition pcrs_registered :: string where
  "pcrs_registered =
     ''Registration successful!\<newline>\<newline>An SMS will be sent to your phone shortly. ''
     @ ''Please follow the link in the SMS to upload your:\<newline>'' @ bullet
     @ '' DVLA License\<newline>'' @ bullet @ '' Ghana Card''"

text \<open>\<open>case 17\<close>: Ghana card, then the creation of the user\<close>

definition pcrs_case17 ::
  "runtime \<Rightarrow> request \<Rightarrow> jsarr \<Rightarrow> dstate \<Rightarrow> world \<Rightarrow> response attempt \<times> world" where
  "pcrs_case17 rt req userSession current w =
     (let ghanaCardNumber = toUpperCase rt (trim (userData req)) in
      if \<not> isValidGhanaCard ghanaCardNumber then
        retry req userSession current ''Invalid format. Use GHA-XXXXXXXXX-XX:'' w
      else
        (case findOne (ByGhanaCardNumber ghanaCardNumber) w of
           (Threw, w1) \<Rightarrow> (Threw, w1)
         | (Returned exists, w1) \<Rightarrow>
             if exists \<noteq> None then
               retry req userSession current
                 ''Ghana Card already registered. Enter a different Ghana Card:'' w1
             else
               register rt req
                 \<lparr>doc_id = 0, doc_username = username current, doc_password = None,
                  doc_role = ''courier'', doc_name = name current, doc_phone = phone current,
                  doc_email = email current, doc_dvlaNumber = dvlaNumber current,
                  doc_ghanaCardNumber = Some ghanaCardNumber\<rparr>
                 (password current) pcrs_registered w1))"

text \<open>\<open>default\<close>\<close>

definition pcrs_default :: "request \<Rightarrow> world \<Rightarrow> response attempt \<times> world" where
  "pcrs_default req w = reply req (arr [state 0 pcrs_home]) pcrs_home True w"

definition pcrs_switch ::
  "runtime \<Rightarrow> request \<Rightarrow> jsarr \<Rightarrow> world \<Rightarrow> response attempt \<times> world" where
  "pcrs_switch rt req userSession w =
     (case top userSession of
        None \<Rightarrow> (Threw, w)
      | Some current \<Rightarrow>
          if level current = Some 0 then pcrs_case0 req userSession current w
          else if level current = Some 5 then pcrs_case5 req userSession w
          else if level current = Some 10 then case_fullName req userSession current w
          else if level current = Some 11 then pcrs_case11 req userSession current w
          else if level current = Some 12 then pcrs_case12 req userSession current w
          else if level current = Some 13 then pcrs_case13 req userSession current w
          else if level current = Some 14 then pcrs_case14 req userSession current w
          else if level current = Some 15 then pcrs_case15 req userSession current w
          else if level current = Some 16 then pcrs_case16 rt req userSession current w
          else if level current = Some 17 then pcrs_case17 rt req userSession current w
          else if level current = Some 30 then lookup rt pcrs_summary req userSession current w
          else pcrs_default req w)"

text \<open>\<open>app.post('/ussd', ...)\<close> of PCRS\<close>

definition pcrs_ussd :: "runtime \<Rightarrow> request \<Rightarrow> world \<Rightarrow> response option \<times> world" where
  "pcrs_ussd rt req w =
     answer
      (case cache w (sessionID req) of
         None \<Rightarrow> pcrs_start req w
       | Some userSession \<Rightarrow>
           if newSession req then pcrs_start req w
           else if userData req = ''0'' then pcrs_go_home req userSession w
           else if userData req = ''9'' then go_back req userSession w
           else catch_all req (pcrs_switch rt req userSession w))"

section \<open>The GatePlus application\<close>

text \<open>The \<open>User\<close>, \<open>Loan\<close> and \<open>ActivityLog\<close> models; dates are instants of a clock.
  \<open>verifiedAt\<close>, which only the administrative route sets, is left out.\<close>

record guser =
  gu_id :: nat
  gu_fullName :: string
  gu_ghanaCard :: string
  gu_msisdn :: string
  gu_status :: string
  gu_createdAt :: nat

record loan =
  loan_id :: nat
  loan_userId :: nat
  loan_msisdn :: string
  amount :: jsnum
  loan_status :: string
  requestedAt :: nat

datatype details =
    SessionStart bool
  | Menu "nat option" string
  | Register string string
  | LoanRequest jsnum nat

record activity =
  act_msisdn :: string
  act_action :: string
  act_details :: details
  act_timestamp :: nat

datatype gcall =
    FindUser string
  | SaveUser guser
  | FindLatestLoan string
  | SaveLoan loan
  | LogActivity string string details

text \<open>
  The world of GatePlus: the session store, the three collections, the clock that
  \<open>Date.now\<close> reads, and \<open>g_faults\<close> and \<open>g_calls\<close> as for the courier
  applications.
\<close>

record gworld =
  g_cache :: store
  g_users :: "guser list"
  loans :: "loan list"
  logs :: "activity list"
  now :: nat
  g_faults :: "bool list"
  g_calls :: "gcall list"

definition g_called :: "gcall \<Rightarrow> gworld \<Rightarrow> gworld" where
  "g_called c w = w\<lparr>g_faults := tl (g_faults w), g_calls := g_calls w @ [c]\<rparr>"

text \<open>\<open>await User.findOne({msisdn})\<close>\<close>

definition findUser :: "string \<Rightarrow> gworld \<Rightarrow> guser option attempt \<times> gworld" where
  "findUser m w =
     (if fault_next (g_faults w) then Threw
      else Returned (find (\<lambda>u. gu_msisdn u = m) (g_users w)),
      g_called (FindUser m) w)"

text \<open>
  \<open>await newUser.save()\<close>. The schema requires \<open>fullName\<close>, \<open>ghanaCard\<close> and
  \<open>msisdn\<close>, matches \<open>ghanaCard\<close> against \<open>/^GHA-\d{9}-\d{2}$/i\<close> and declares
  \<open>msisdn\<close> unique; the status is one of the enumeration.
\<close>

definition user_acceptable :: "guser \<Rightarrow> guser list \<Rightarrow> bool" where
  "user_acceptable u us =
     (gu_fullName u \<noteq> [] \<and> gu_ghanaCard u \<noteq> [] \<and> test_anchored ghanaCard_rx (gu_ghanaCard u)
      \<and> gu_msisdn u \<noteq> []
      \<and> gu_status u \<in> set [''pending_verification'', ''verified'', ''suspended'']
      \<and> \<not> list_ex (\<lambda>v. gu_msisdn v = gu_msisdn u) us)"

definition saveUser :: "guser \<Rightarrow> gworld \<Rightarrow> guser attempt \<times> gworld" where
  "saveUser u w =
     (if fault_next (g_faults w) \<or> \<not> user_acceptable u (g_users w) then
        (Threw, g_called (SaveUser u) w)
      else
        (let u' = u\<lparr>gu_id := Suc (foldr max (map gu_id (g_users w)) 0)\<rparr>
         in (Returned u', (g_called (SaveUser u) w)\<lparr>g_users := g_users w @ [u']\<rparr>)))"

text \<open>\<open>await Loan.findOne({msisdn}).sort({requestedAt: -1})\<close>: the loan of the subscriber
  requested last (of several requested at the same instant, the first stored).\<close>

fun latest :: "loan list \<Rightarrow> loan option" where
  "latest [] = None"
| "latest (x # xs) =
     (case latest xs of
        None \<Rightarrow> Some x
      | Some y \<Rightarrow> if requestedAt y > requestedAt x then Some y else Some x)"

definition findLatestLoan :: "string \<Rightarrow> gworld \<Rightarrow> loan option attempt \<times> gworld" where
  "findLatestLoan m w =
     (if fault_next (g_faults w) then Threw
      else Returned (latest (filter (\<lambda>l. loan_msisdn l = m) (loans w))),
      g_called (FindLatestLoan m) w)"

text \<open>
  \<open>await loan.save()\<close>. The schema requires \<open>userId\<close>, \<open>msisdn\<close> and \<open>amount\<close>,
  bounds \<open>amount\<close> by \<open>min: 10, max: 1000\<close> and enumerates the status.
\<close>

definition loan_acceptable :: "loan \<Rightarrow> bool" where
  "loan_acceptable l =
     (loan_msisdn l \<noteq> [] \<and> \<not> isNaN (amount l) \<and> \<not> js_less (amount l) 10
      \<and> \<not> js_greater (amount l) 1000
      \<and> loan_status l \<in> set [''loan_pending'', ''disbursed'', ''rejected''])"

definition saveLoan :: "loan \<Rightarrow> gworld \<Rightarrow> loan attempt \<times> gworld" where
  "saveLoan l w =
     (if fault_next (g_faults w) \<or> \<not> loan_acceptable l then (Threw, g_called (SaveLoan l) w)
      else
        (let l' = l\<lparr>loan_id := Suc (foldr max (map loan_id (loans w)) 0)\<rparr>
         in (Returned l', (g_called (SaveLoan l) w)\<lparr>loans := loans w @ [l']\<rparr>)))"

text \<open>\<open>logActivity\<close>: \<open>await ActivityLog.create({msisdn, action, details})\<close>; the schema
  requires \<open>msisdn\<close> and \<open>action\<close>.\<close>

definition logActivity :: "string \<Rightarrow> string \<Rightarrow> details \<Rightarrow> gworld \<Rightarrow> unit attempt \<times> gworld" where
  "logActivity m action d w =
     (if fault_next (g_faults w) \<or> m = [] \<or> action = [] then
        (Threw, g_called (LogActivity m action d) w)
      else
        (Returned (),
         (g_called (LogActivity m action d) w)
           \<lparr>logs := logs w @
              [\<lparr>act_msisdn = m, act_action = action, act_details = d, act_timestamp = now w\<rparr>]\<rparr>))"

definition g_save :: "request \<Rightarrow> jsarr \<Rightarrow> gworld \<Rightarrow> gworld" where
  "g_save req userSession w = w\<lparr>g_cache := (g_cache w)(sessionID req \<mapsto> userSession)\<rparr>"

definition g_del :: "request \<Rightarrow> gworld \<Rightarrow> gworld" where
  "g_del req w = w\<lparr>g_cache := (g_cache w)(sessionID req := None)\<rparr>"

text \<open>The branch \<open>if (newSession)\<close>, which is outside the \<open>try\<close>.\<close>

definition gp_welcome :: string where
  "gp_welcome =
     ''Welcome to GatePlus!\<newline>Register for verification to access loans.\<newline>Enter your Full Name:''"

definition gp_menu :: string where
  "gp_menu = ''Hi there!\<newline>1. Apply for Loan\<newline>2. Check Status\<newline>3. Support''"

definition gp_start :: "request \<Rightarrow> gworld \<Rightarrow> response attempt \<times> gworld" where
  "gp_start req w =
     (case findUser (msisdn req) w of
        (Threw, w1) \<Rightarrow> (Threw, w1)
      | (Returned userRecord, w1) \<Rightarrow>
          (let message' = (if userRecord = None then gp_welcome else gp_menu);
               newState = (state (if userRecord \<noteq> None then 1 else 10) message')
                            \<lparr>st_sessionID := Some (sessionID req), st_msisdn := Some (msisdn req)\<rparr>
           in case logActivity (msisdn req) ''session_start'' (SessionStart (userRecord = None))
                     (g_save req (arr [newState]) w1) of
                (Threw, w2) \<Rightarrow> (Threw, w2)
              | (Returned u, w2) \<Rightarrow> (Returned (respond req message' True), w2)))"

text \<open>\<open>case 10\<close> of the registration flow; an invalid name answers without touching
  the session.\<close>

definition gp_case10 :: "request \<Rightarrow> jsarr \<Rightarrow> gworld \<Rightarrow> response attempt \<times> gworld" where
  "gp_case10 req userSession w =
     (let fullName' = trim (userData req) in
      if length fullName' < 2 \<or> hasDigit fullName' then
        (Returned (respond req ''Please enter a valid name (no numbers).'' True), w)
      else
        (Returned (respond req ''Enter Ghana Card (e.g., GHA-123456789-01):'' True),
         g_save req
           (push userSession
              ((state 11 ''Enter Ghana Card (e.g., GHA-123456789-01):'')\<lparr>fullName := Some fullName'\<rparr>))
           w))"

text \<open>\<open>userSession[userSession.length - 1] = {...currentState, message}; saveSession(...);
  return respond(...)\<close>\<close>

definition gp_retry ::
  "request \<Rightarrow> jsarr \<Rightarrow> dstate \<Rightarrow> string \<Rightarrow> gworld \<Rightarrow> response attempt \<times> gworld" where
  "gp_retry req userSession currentState m w =
     (Returned (respond req m True),
      g_save req (set_top userSession (currentState\<lparr>message := m\<rparr>)) w)"

text \<open>\<open>case 11\<close>: Ghana card, then the creation of the user.
  \<open>userSession.find(s => s.level === 10)?.fullName || "Unknown"\<close>\<close>

definition gp_case11 ::
  "runtime \<Rightarrow> request \<Rightarrow> jsarr \<Rightarrow> dstate \<Rightarrow> gworld \<Rightarrow> response attempt \<times> gworld" where
  "gp_case11 rt req userSession currentState w =
     (let ghanaCard = toUpperCase rt (trim (userData req)) in
      if \<not> isValidGhanaCard ghanaCard then
        gp_retry req userSession currentState ''Invalid format. Use GHA-XXXXXXXXX-XX:'' w
      else
        (let fullName' =
               or_else (case find (\<lambda>s. level s = Some 10) (items userSession) of
                          None \<Rightarrow> None | Some previousState \<Rightarrow> fullName previousState)
                 ''Unknown''
         in case findUser (msisdn req) w of
              (Threw, w1) \<Rightarrow> (Threw, w1)
            | (Returned (Some existingUser), w1) \<Rightarrow>
                (Returned (respond req ''You are already registered.'' False), g_del req w1)
            | (Returned None, w1) \<Rightarrow>
                (case saveUser
                        \<lparr>gu_id = 0, gu_fullName = fullName', gu_ghanaCard = ghanaCard,
                         gu_msisdn = msisdn req, gu_status = ''pending_verification'',
                         gu_createdAt = now w1\<rparr> w1 of
                   (Threw, w2) \<Rightarrow> (Threw, w2)
                 | (Returned newUser, w2) \<Rightarrow>
                     (case logActivity (msisdn req) ''register'' (Register fullName' ghanaCard) w2 of
                        (Threw, w3) \<Rightarrow> (Threw, w3)
                      | (Returned u, w3) \<Rightarrow>
                          (Returned
                             (respond req
                                (''Thank you, '' @ gu_fullName newUser
                                 @ ''!\<newline>Verification pending. You'' @ [CHR 0x27]
                                 @ ''ll be notified.'') False),
                           g_del req w3)))))"

text \<open>The registration flow: \<open>if (currentState.level >= 10 && currentState.level < 20)\<close>;
  a level the inner \<open>switch\<close> does not list answers the empty message.\<close>

definition gp_registration ::
  "runtime \<Rightarrow> request \<Rightarrow> jsarr \<Rightarrow> dstate \<Rightarrow> gworld \<Rightarrow> response attempt \<times> gworld" where
  "gp_registration rt req userSession currentState w =
     (if level currentState = Some 10 then gp_case10 req userSession w
      else if level currentState = Some 11 then gp_case11 rt req userSession currentState w
      else (Returned (respond req [] True), w))"

text \<open>\<open>case 1\<close>: the menu of a registered subscriber\<close>

definition gp_case1 ::
  "runtime \<Rightarrow> request \<Rightarrow> jsarr \<Rightarrow> guser \<Rightarrow> gworld \<Rightarrow> response attempt \<times> gworld" where
  "gp_case1 rt req userSession userRecord w =
     (if userData req = ''1'' then
        (if gu_status userRecord \<noteq> ''verified'' then
           (Returned (respond req ''Account under review. Please wait for approval.'' False), w)
         else
           (Returned (respond req ''Enter loan amount (GHS 10 - 1000):'' True),
            g_save req (push userSession (state 2 ''Enter loan amount (GHS 10 - 1000):'')) w))
      else if userData req = ''2'' then
        (case findLatestLoan (msisdn req) w of
           (Threw, w1) \<Rightarrow> (Threw, w1)
         | (Returned None, w1) \<Rightarrow> (Returned (respond req ''No loan history.'' False), w1)
         | (Returned (Some latestLoan), w1) \<Rightarrow>
             (Returned
                (respond req
                   (''Status: '' @ toUpperCase rt (loan_status latestLoan)
                    @ ''\<newline>Amount: GHS '' @ numberToString rt (amount latestLoan)
                    @ ''\<newline>Applied: '' @ toLocaleDateString rt (requestedAt latestLoan)) False),
              w1))
      else if userData req = ''3'' then
        (Returned (respond req ''Support: Call 0800-GATEPLUS or WhatsApp +233 123 456 789'' False), w)
      else (Returned (respond req ''Invalid option. Choose 1, 2, or 3.'' False), w))"

text \<open>\<open>case 2\<close>: the loan amount\<close>

definition gp_case2 ::
  "runtime \<Rightarrow> request \<Rightarrow> jsarr \<Rightarrow> dstate \<Rightarrow> guser \<Rightarrow> gworld \<Rightarrow> response attempt \<times> gworld" where
  "gp_case2 rt req userSession currentState userRecord w =
     (let amount' = parseFloat rt (userData req) in
      if isNaN amount' \<or> js_less amount' 10 \<or> js_greater amount' 1000 then
        gp_retry req userSession currentState ''Enter amount between GHS 10 and 1000:'' w
      else
        (case saveLoan
                \<lparr>loan_id = 0, loan_userId = gu_id userRecord, loan_msisdn = msisdn req,
                 amount = amount', loan_status = ''loan_pending'', requestedAt = now w\<rparr> w of
           (Threw, w1) \<Rightarrow> (Threw, w1)
         | (Returned loan', w1) \<Rightarrow>
             (case logActivity (msisdn req) ''loan_request'' (LoanRequest amount' (loan_id loan')) w1 of
                (Threw, w2) \<Rightarrow> (Threw, w2)
              | (Returned u, w2) \<Rightarrow>
                  (Returned
                     (respond req
                        (''Loan request for GHS '' @ numberToString rt amount'
                         @ '' received!\<newline>Processing... Funds will be sent shortly.'') False),
                   g_del req w2))))"

text \<open>The flow of a registered subscriber, from \<open>const userRecord = await
  User.findOne({msisdn})\<close> to the end of the second \<open>switch\<close>.\<close>

definition gp_existing ::
  "runtime \<Rightarrow> request \<Rightarrow> jsarr \<Rightarrow> dstate \<Rightarrow> gworld \<Rightarrow> response attempt \<times> gworld" where
  "gp_existing rt req userSession currentState w =
     (case findUser (msisdn req) w of
        (Threw, w1) \<Rightarrow> (Threw, w1)
      | (Returned None, w1) \<Rightarrow> (Returned (respond req ''User not found. Please restart.'' False), w1)
      | (Returned (Some userRecord), w1) \<Rightarrow>
          (case logActivity (msisdn req) ''menu'' (Menu (level currentState) (userData req)) w1 of
             (Threw, w2) \<Rightarrow> (Threw, w2)
           | (Returned u, w2) \<Rightarrow>
               if level currentState = Some 1 then gp_case1 rt req userSession userRecord w2
               else if level currentState = Some 2 then
                 gp_case2 rt req userSession currentState userRecord w2
               else (Returned (respond req ''An error occurred.'' False), w2)))"

text \<open>The body of the \<open>try\<close>\<close>

definition gp_try ::
  "runtime \<Rightarrow> request \<Rightarrow> jsarr \<Rightarrow> dstate \<Rightarrow> gworld \<Rightarrow> response attempt \<times> gworld" where
  "gp_try rt req userSession currentState w =
     (if (case level currentState of None \<Rightarrow> False | Some l \<Rightarrow> 10 \<le> l \<and> l < 20) then
        gp_registration rt req userSession currentState w
      else gp_existing rt req userSession currentState w)"

text \<open>The \<open>catch (err)\<close> block\<close>

definition gp_catch :: "request \<Rightarrow> response attempt \<times> gworld \<Rightarrow> response attempt \<times> gworld" where
  "gp_catch req r =
     (case r of
        (Threw, w) \<Rightarrow> (Returned (respond req unavailable False), g_del req w)
      | (Returned x, w) \<Rightarrow> (Returned x, w))"

definition g_answer :: "response attempt \<times> gworld \<Rightarrow> response option \<times> gworld" where
  "g_answer r = (case r of (Threw, w) \<Rightarrow> (None, w) | (Returned x, w) \<Rightarrow> (Some x, w))"

text \<open>\<open>app.post('/ussd', ...)\<close> of GatePlus\<close>

definition gateplus_ussd :: "runtime \<Rightarrow> request \<Rightarrow> gworld \<Rightarrow> response option \<times> gworld" where
  "gateplus_ussd rt req w =
     g_answer
      (if newSession req then gp_start req w
       else
         (case g_cache w (sessionID req) of
            None \<Rightarrow> (Returned (respond req ''Session expired. Please restart.'' False), w)
          | Some userSession \<Rightarrow>
              if items userSession = [] then
                (Returned (respond req ''Session expired. Please restart.'' False), w)
              else gp_catch req (gp_try rt req userSession (last (items userSession)) w)))"

section \<open>Notions used in the statements\<close>

text \<open>
  A uniqueness check that turns the input down: the query succeeds and finds a stored
  user with the value.
\<close>

definition taken :: "query \<Rightarrow> world \<Rightarrow> bool" where
  "taken q w = (\<not> fault_next (faults w) \<and> find (satisfies q) (users w) \<noteq> None)"

text \<open>
  The inputs that fail the validator or the uniqueness check of the field-capture step
  at level \<open>l\<close>, for each application. (GatePlus checks no input for uniqueness.)
\<close>

definition ncstcs_rejects :: "runtime \<Rightarrow> nat \<Rightarrow> string \<Rightarrow> world \<Rightarrow> bool" where
  "ncstcs_rejects rt l input w =
     (let v = trim input in
      if l = 10 then v = [] \<or> length v < 3 \<or> hasDigit v
      else if l = 11 then \<not> test_anchored username_rx v \<or> taken (ByUsername v) w
      else if l = 12 then \<not> isValidEmail v \<or> taken (ByEmail v) w
      else if l = 13 then length v < 6
      else if l = 15 then
        \<not> isValidDVLA (toUpperCase rt v) \<or> taken (ByDvlaNumber (toUpperCase rt v)) w
      else if l = 16 then
        \<not> isValidGhanaCard (toUpperCase rt v) \<or> taken (ByGhanaCardNumber (toUpperCase rt v)) w
      else False)"

definition pcrs_rejects :: "runtime \<Rightarrow> nat \<Rightarrow> string \<Rightarrow> world \<Rightarrow> bool" where
  "pcrs_rejects rt l input w =
     (let v = trim input in
      if l = 10 then v = [] \<or> length v < 3 \<or> hasDigit v
      else if l = 11 then \<not> test_anchored username_rx v \<or> taken (ByUsername v) w
      else if l = 12 then \<not> isValidPhone v \<or> taken (ByPhone (normalizePhone v)) w
      else if l = 13 then \<not> isValidEmail v \<or> taken (ByEmail v) w
      else if l = 14 then length v < 6
      else if l = 16 then
        \<not> isValidDVLA (toUpperCase rt v) \<or> taken (ByDvlaNumber (toUpperCase rt v)) w
      else if l = 17 then
        \<not> isValidGhanaCard (toUpperCase rt v) \<or> taken (ByGhanaCardNumber (toUpperCase rt v)) w
      else False)"

definition gateplus_rejects :: "runtime \<Rightarrow> nat \<Rightarrow> string \<Rightarrow> bool" where
  "gateplus_rejects rt l input =
     (let v = trim input in
      if l = 10 then length v < 2 \<or> hasDigit v
      else if l = 11 then \<not> isValidGhanaCard (toUpperCase rt v)
      else False)"

text \<open>Retry-in-place of a courier step: some message is answered and written into the
  top entry, nothing else of the session changes, and the users stay as they are.\<close>

definition retried :: "response attempt \<times> world \<Rightarrow> request \<Rightarrow> jsarr \<Rightarrow> dstate \<Rightarrow> world \<Rightarrow> bool" where
  "retried r req us cur w =
     (\<exists>m. fst r = Returned (respond req m True)
        \<and> cache (snd r) = (cache w)(sessionID req \<mapsto> set_top us (cur\<lparr>message := m\<rparr>))
        \<and> users (snd r) = users w)"

text \<open>A courier step either threw at a \<open>findOne\<close>, its only repository operation, with
  the world otherwise as it was, or did not start with a \<open>findOne\<close>.\<close>

definition threw_or_silent :: "response attempt \<times> world \<Rightarrow> world \<Rightarrow> bool" where
  "threw_or_silent r w =
     ((\<exists>q. r = (Threw, called (FindOne q) w))
      \<or> (\<forall>q cs. calls (snd r) \<noteq> calls w @ FindOne q # cs))"

text \<open>
  A repository operation of GatePlus: it is one more call, uses up one entry of
  \<open>g_faults\<close>, leaves the sessions alone and throws when the database fails it.
\<close>

definition db_op :: "'a attempt \<times> gworld \<Rightarrow> gworld \<Rightarrow> bool" where
  "db_op p w =
     (length (g_calls (snd p)) = Suc (length (g_calls w))
      \<and> g_faults (snd p) = tl (g_faults w)
      \<and> g_cache (snd p) = g_cache w
      \<and> (fault_next (g_faults w) \<longrightarrow> fst p = Threw))"

text \<open>
  A piece of the GatePlus handler run from \<open>w\<close>: it has called \<open>k\<close> operations, the
  database failed none before the last of them, and if it failed one the piece threw
  with the sessions as they were.
\<close>

definition aborts_on_fault :: "response attempt \<times> gworld \<Rightarrow> gworld \<Rightarrow> bool" where
  "aborts_on_fault r w =
     (\<exists>k. length (g_calls (snd r)) = length (g_calls w) + k
        \<and> g_faults (snd r) = drop k (g_faults w)
        \<and> True \<notin> set (take (k - 1) (g_faults w))
        \<and> (True \<in> set (take k (g_faults w)) \<longrightarrow> fst r = Threw \<and> g_cache (snd r) = g_cache w))"

text \<open>The document the last step of a sign-up hands to \<open>User.create\<close>.\<close>

definition created :: "runtime \<Rightarrow> dstate \<Rightarrow> string \<Rightarrow> string option \<Rightarrow> string \<Rightarrow> courier" where
  "created rt cur pw ph g =
     \<lparr>doc_id = 0, doc_username = username cur, doc_password = Some (bcrypt_hash rt pw),
      doc_role = ''courier'', doc_name = name cur, doc_phone = ph, doc_email = email cur,
      doc_dvlaNumber = dvlaNumber cur, doc_ghanaCardNumber = Some g\<rparr>"

text \<open>
  What the last step of a sign-up does once the card \<open>g\<close> is well-formed and not yet
  stored: it has asked the repository for the card only and then issued the create;
  the session is gone; and the create decides the rest. If the database fails it, or
  the document lacks a required field or shares a unique value with a stored user,
  nothing is stored and the answer is the failure message. Otherwise the document is
  stored, and from then on the repository turns down every document that shares a
  unique value with it.
\<close>

definition registration_outcome ::
  "response option \<times> world \<Rightarrow> request \<Rightarrow> world \<Rightarrow> string \<Rightarrow> courier \<Rightarrow> string \<Rightarrow> bool" where
  "registration_outcome r req w g doc ok =
     (calls (snd r) = calls w @ [FindOne (ByGhanaCardNumber g), Create doc]
      \<and> cache (snd r) = (cache w)(sessionID req := None)
      \<and> (if fault_next (tl (faults w)) \<or> \<not> acceptable doc (users w)
         then fst r = Some (respond req ''Registration failed. Try again later.'' False)
            \<and> users (snd r) = users w
         else fst r = Some (respond req ok False)
            \<and> users (snd r) = users w @ [doc\<lparr>doc_id := fresh_id (users w)\<rparr>]
            \<and> (\<forall>d. duplicate d doc \<longrightarrow> \<not> acceptable d (users (snd r)))))"

subsection \<open>Well-formed session stacks\<close>

text \<open>
  The entries of a stack from the top down: an entry of the confirm level (one above the
  password level \<open>c\<close>) has an entry of the password level right below it, and the
  bottom entry is not of the confirm level.
\<close>

fun confirm_on_password :: "nat \<Rightarrow> dstate list \<Rightarrow> bool" where
  "confirm_on_password c [] = True"
| "confirm_on_password c [x] = (level x \<noteq> Some (Suc c))"
| "confirm_on_password c (x # y # r) =
     ((level x = Some (Suc c) \<longrightarrow> level y = Some c) \<and> confirm_on_password c (y # r))"

text \<open>A stored array: no property \<open>-1\<close>, at least one entry, confirm entries on password entries.\<close>

definition stack_ok :: "nat \<Rightarrow> jsarr \<Rightarrow> bool" where
  "stack_ok c a = (neg1 a = None \<and> items a \<noteq> [] \<and> confirm_on_password c (rev (items a)))"

text \<open>Every stored array is such a stack.\<close>

definition store_ok :: "nat \<Rightarrow> store \<Rightarrow> bool" where
  "store_ok c m = (\<forall>k a. m k = Some a \<longrightarrow> stack_ok c a)"

text \<open>What a step leaves in the store: the sessions as they were, but for the one of the
  request, which is as it was, deleted, or replaced by an array with the property.\<close>

definition stores :: "response attempt \<times> world \<Rightarrow> request \<Rightarrow> world \<Rightarrow> (jsarr \<Rightarrow> bool) \<Rightarrow> bool" where
  "stores r req w P =
     (cache (snd r) = cache w \<or> cache (snd r) = (cache w)(sessionID req := None)
      \<or> (\<exists>a. cache (snd r) = (cache w)(sessionID req \<mapsto> a) \<and> P a))"

section \<open>Concrete sessions\<close>

text \<open>A runtime for the examples: upper-casing of ASCII letters, \<open>parseFloat\<close> and the
  printing of numbers on the two amounts the examples enter.\<close>

definition ascii_runtime :: runtime where
  "ascii_runtime =
     \<lparr>toUpperCase = map canonicalize,
      parseFloat = (\<lambda>s. if s = ''5'' then Fin 5 else if s = ''250'' then Fin 250 else NaN),
      numberToString = (\<lambda>x. if x = Fin 250 then ''250'' else if x = Fin 5 then ''5'' else ''NaN''),
      toLocaleDateString = (\<lambda>t. ''1/1/2025''),
      bcrypt_hash = (\<lambda>p. ''$2b$10$'' @ p)\<rparr>"

definition ask :: "string \<Rightarrow> request" where
  "ask input =
     \<lparr>sessionID = ''s1'', userID = ''u1'', newSession = False, msisdn = ''0551234567'',
      userData = input\<rparr>"

definition courier_world :: "dstate list \<Rightarrow> courier list \<Rightarrow> bool list \<Rightarrow> world" where
  "courier_world xs us fs = \<lparr>cache = [''s1'' \<mapsto> arr xs], users = us, faults = fs, calls = []\<rparr>"

definition no_sessions :: world where
  "no_sessions = \<lparr>cache = Map.empty, users = [], faults = [], calls = []\<rparr>"

definition gateplus_world :: "dstate list \<Rightarrow> guser list \<Rightarrow> bool list \<Rightarrow> gworld" where
  "gateplus_world xs us fs =
     \<lparr>g_cache = [''s1'' \<mapsto> arr xs], g_users = us, loans = [], logs = [], now = 1000,
      g_faults = fs, g_calls = []\<rparr>"

definition no_gateplus_sessions :: gworld where
  "no_gateplus_sessions =
     \<lparr>g_cache = Map.empty, g_users = [], loans = [], logs = [], now = 1000,
      g_faults = [], g_calls = []\<rparr>"

text \<open>The states of a sign-up of Kwame Mensah, whose password step is at level \<open>l\<close>.\<close>

definition home_state :: dstate where
  "home_state = state 0 ncstcs_home"

definition name_state :: dstate where
  "name_state = state 10 ''Enter Full Name:''"

definition password_state :: "nat \<Rightarrow> dstate" where
  "password_state l =
     (state l ''Create Password:'')
       \<lparr>name := Some ''Kwame Mensah'', username := Some ''kwame'',
        email := Some ''kwame@example.com''\<rparr>"

definition confirm_state :: "nat \<Rightarrow> dstate" where
  "confirm_state l =
     (password_state l)\<lparr>level := Some (Suc l), password := Some ''secret1'',
        message := ''Confirm Password:''\<rparr>"

definition card_state :: "nat \<Rightarrow> dstate" where
  "card_state l =
     (confirm_state l)\<lparr>level := Some (l + 3), dvlaNumber := Some ''DVLA-12345'',
        message := ''Enter Ghana Card (e.g., GHA-123456789-01):''\<rparr>"

text \<open>A stored courier who holds the username \<open>kwame\<close>.\<close>

definition stored_kwame :: courier where
  "stored_kwame =
     \<lparr>doc_id = 1, doc_username = Some ''kwame'', doc_password = Some ''$2b$10$other'',
      doc_role = ''courier'', doc_name = Some ''Kwame Boateng'', doc_phone = Some ''+233551234567'',
      doc_email = Some ''boateng@example.com'', doc_dvlaNumber = Some ''DVLA-99999'',
      doc_ghanaCardNumber = Some ''GHA-987654321-09''\<rparr>"

text \<open>A PCRS session of that courier, two levels deep.\<close>

definition kwame_session :: "dstate list" where
  "kwame_session =
     [logged_in (pcrs_menu ''Kwame Boateng'') (Some 1),
      state 30 ''Enter DVLA or Ghana Card Number:'']"

text \<open>A verified GatePlus subscriber.\<close>

definition ama :: guser where
  "ama =
     \<lparr>gu_id = 1, gu_fullName = ''Ama Owusu'', gu_ghanaCard = ''GHA-123456789-01'',
      gu_msisdn = ''0551234567'', gu_status = ''verified'', gu_createdAt = 10\<rparr>"

text \<open>The username step and the loan-amount step.\<close>

definition username_state :: dstate where
  "username_state = (state 11 ''Choose a Username:'')\<lparr>name := Some ''Kwame Mensah''\<rparr>"

definition amount_state :: dstate where
  "amount_state = state 2 ''Enter loan amount (GHS 10 - 1000):''"

section \<open>Regular expressions: derivatives and accepted words\<close>

lemma nullable_lang: "nullable r \<longleftrightarrow> [] \<in> lang r"
  by (induction r) (auto intro: reps.none)

lemma reps_cons:
  "c # w \<in> reps L \<longleftrightarrow> (\<exists>u v. w = u @ v \<and> c # u \<in> L \<and> v \<in> reps L)"
proof
  assume "c # w \<in> reps L"
  then show "\<exists>u v. w = u @ v \<and> c # u \<in> L \<and> v \<in> reps L"
  proof (induction "c # w" rule: reps.induct)
    case (more u v)
    then show ?case
      by (cases u) auto
  qed
next
  assume "\<exists>u v. w = u @ v \<and> c # u \<in> L \<and> v \<in> reps L"
  then obtain u v where "w = u @ v" "c # u \<in> L" "v \<in> reps L" by blast
  then show "c # w \<in> reps L"
    using reps.more [of "c # u" L v] by simp
qed

lemma deriv_lang: "w \<in> lang (deriv c r) \<longleftrightarrow> c # w \<in> lang r"
proof (induction r arbitrary: w)
  case (Seq r s)
  then show ?case
    by (auto simp: nullable_lang Cons_eq_append_conv)
next
  case (Star r)
  then show ?case
    by (auto simp: reps_cons)
qed auto

lemma test_anchored_lang: "test_anchored r w \<longleftrightarrow> w \<in> lang r"
  by (induction w arbitrary: r) (auto simp: nullable_lang deriv_lang)

lemma lang_Class_Seq:
  "v \<in> lang (Seq (Class p) r) \<longleftrightarrow> (\<exists>c t. v = c # t \<and> p c \<and> t \<in> lang r)"
proof
  assume "v \<in> lang (Seq (Class p) r)"
  then obtain u t where "v = u @ t" "u \<in> lang (Class p)" "t \<in> lang r" by auto
  then show "\<exists>c t. v = c # t \<and> p c \<and> t \<in> lang r" by auto
next
  assume "\<exists>c t. v = c # t \<and> p c \<and> t \<in> lang r"
  then obtain c t where "v = c # t" "p c" "t \<in> lang r" by blast
  then have "v = [c] @ t \<and> [c] \<in> lang (Class p) \<and> t \<in> lang r" by simp
  then show "v \<in> lang (Seq (Class p) r)" unfolding lang.simps(4) by blast
qed

lemma lang_times_Class: "lang (times n (Class p)) = {w. length w = n \<and> list_all p w}"
proof (induction n)
  case 0
  then show ?case by auto
next
  case (Suc n)
  show ?case
  proof (rule set_eqI)
    fix w
    show "w \<in> lang (times (Suc n) (Class p)) \<longleftrightarrow> w \<in> {w. length w = Suc n \<and> list_all p w}"
      unfolding times.simps lang_Class_Seq Suc by (cases w) auto
  qed
qed

lemma lang_times_Seq:
  "v \<in> lang (Seq (times k (Class p)) r) \<longleftrightarrow>
      (\<exists>u t. v = u @ t \<and> length u = k \<and> list_all p u \<and> t \<in> lang r)"
proof -
  have "v \<in> lang (Seq (times k (Class p)) r) \<longleftrightarrow>
      (\<exists>u t. v = u @ t \<and> u \<in> lang (times k (Class p)) \<and> t \<in> lang r)"
    unfolding lang.simps(4) by blast
  then show ?thesis
    by (simp add: lang_times_Class)
qed

lemma canonicalize_G:
  "canonicalize c = canonicalize CHR ''G'' \<longleftrightarrow> c = CHR ''G'' \<or> c = CHR ''g''"
  by (simp add: canonicalize_def lowers_def uppers_def)

lemma canonicalize_H:
  "canonicalize c = canonicalize CHR ''H'' \<longleftrightarrow> c = CHR ''H'' \<or> c = CHR ''h''"
  by (simp add: canonicalize_def lowers_def uppers_def)

lemma canonicalize_A:
  "canonicalize c = canonicalize CHR ''A'' \<longleftrightarrow> c = CHR ''A'' \<or> c = CHR ''a''"
  by (simp add: canonicalize_def lowers_def uppers_def)

lemma canonicalize_dash: "canonicalize c = canonicalize CHR ''-'' \<longleftrightarrow> c = CHR ''-''"
  by (simp add: canonicalize_def lowers_def uppers_def)

lemma lang_ghanaCard_unfolded:
  "w \<in> lang ghanaCard_rx \<longleftrightarrow>
     (\<exists>g t1. w = g # t1 \<and> (g = CHR ''G'' \<or> g = CHR ''g'') \<and>
     (\<exists>h t2. t1 = h # t2 \<and> (h = CHR ''H'' \<or> h = CHR ''h'') \<and>
     (\<exists>a t3. t2 = a # t3 \<and> (a = CHR ''A'' \<or> a = CHR ''a'') \<and>
     (\<exists>m t4. t3 = m # t4 \<and> m = CHR ''-'' \<and>
     (\<exists>ds t5. t4 = ds @ t5 \<and> length ds = 9 \<and> list_all isDigit ds \<and>
     (\<exists>m' es. t5 = m' # es \<and> m' = CHR ''-'' \<and> es \<in> {w. length w = 2 \<and> list_all isDigit w}))))))"
    unfolding ghanaCard_rx_def lit_i_def digit_def lang_Class_Seq lang_times_Seq lang_times_Class
      canonicalize_G canonicalize_H canonicalize_A canonicalize_dash ..

lemma lang_ghanaCard_rx:
  "w \<in> lang ghanaCard_rx \<longleftrightarrow>
     (\<exists>g h a ds es. w = g # h # a # CHR ''-'' # ds @ CHR ''-'' # es
        \<and> g \<in> {CHR ''G'', CHR ''g''} \<and> h \<in> {CHR ''H'', CHR ''h''} \<and> a \<in> {CHR ''A'', CHR ''a''}
        \<and> length ds = 9 \<and> list_all isDigit ds \<and> length es = 2 \<and> list_all isDigit es)"
proof
  assume "w \<in> lang ghanaCard_rx"
  then obtain g h a ds es where "w = g # h # a # CHR ''-'' # ds @ CHR ''-'' # es"
    "g = CHR ''G'' \<or> g = CHR ''g''" "h = CHR ''H'' \<or> h = CHR ''h''"
    "a = CHR ''A'' \<or> a = CHR ''a''" "length ds = 9" "list_all isDigit ds"
    "length es = 2" "list_all isDigit es"
    unfolding lang_ghanaCard_unfolded mem_Collect_eq by (elim exE conjE) simp
  then show "\<exists>g h a ds es. w = g # h # a # CHR ''-'' # ds @ CHR ''-'' # es
        \<and> g \<in> {CHR ''G'', CHR ''g''} \<and> h \<in> {CHR ''H'', CHR ''h''} \<and> a \<in> {CHR ''A'', CHR ''a''}
        \<and> length ds = 9 \<and> list_all isDigit ds \<and> length es = 2 \<and> list_all isDigit es"
    by (intro exI [of _ g] exI [of _ h] exI [of _ a] exI [of _ ds] exI [of _ es]) simp
next
  assume "\<exists>g h a ds es. w = g # h # a # CHR ''-'' # ds @ CHR ''-'' # es
        \<and> g \<in> {CHR ''G'', CHR ''g''} \<and> h \<in> {CHR ''H'', CHR ''h''} \<and> a \<in> {CHR ''A'', CHR ''a''}
        \<and> length ds = 9 \<and> list_all isDigit ds \<and> length es = 2 \<and> list_all isDigit es"
  then obtain g h a ds es where w: "w = g # h # a # CHR ''-'' # ds @ CHR ''-'' # es"
    and l: "g = CHR ''G'' \<or> g = CHR ''g''" "h = CHR ''H'' \<or> h = CHR ''h''"
    "a = CHR ''A'' \<or> a = CHR ''a''" and d: "length ds = 9" "list_all isDigit ds"
    "length es = 2" "list_all isDigit es"
    by (elim exE conjE) simp
  have "\<exists>ds' t5. ds @ CHR ''-'' # es = ds' @ t5 \<and> length ds' = 9 \<and> list_all isDigit ds' \<and>
     (\<exists>m' es'. t5 = m' # es' \<and> m' = CHR ''-'' \<and> es' \<in> {w. length w = 2 \<and> list_all isDigit w})"
    using d by (intro exI [of _ ds] exI [of _ "CHR ''-'' # es"]) simp
  with l show "w \<in> lang ghanaCard_rx"
    unfolding lang_ghanaCard_unfolded w by simp
qed

section \<open>The Ghana card validator\<close>

text \<open>
  Claim C8, as the program has it: \<open>isValidGhanaCard\<close> accepts exactly the strings
  that, once trimmed, are the letters G, H, A in either case, a dash, nine digits, a
  dash and two digits. The three letters are fixed; other letters are turned down.
\<close>

theorem ghanaCard_shape:
  "isValidGhanaCard s \<longleftrightarrow>
     (\<exists>g h a ds es. trim s = g # h # a # CHR ''-'' # ds @ CHR ''-'' # es
        \<and> g \<in> {CHR ''G'', CHR ''g''} \<and> h \<in> {CHR ''H'', CHR ''h''} \<and> a \<in> {CHR ''A'', CHR ''a''}
        \<and> length ds = 9 \<and> list_all isDigit ds \<and> length es = 2 \<and> list_all isDigit es)"
  by (simp only: isValidGhanaCard_def test_anchored_lang lang_ghanaCard_rx)

text \<open>Three letters, a dash, nine digits, a dash and two digits, and yet turned down.\<close>

theorem ghanaCard_other_letters_counterexample:
  "\<not> isValidGhanaCard ''ABC-123456789-01''"
  by code_simp

section \<open>Back and Home\<close>

lemma go_back_deep:
  assumes "length (items us) > 1"
  shows "go_back req us w =
    (Returned (respond req (message (last (butlast (items us)))) True),
     w\<lparr>cache := (cache w)(sessionID req \<mapsto> pop us)\<rparr>)"
proof -
  from assms have "butlast (items us) \<noteq> []"
    by (cases "items us" rule: rev_cases) auto
  with assms show ?thesis
    by (simp add: go_back_def top_def pop_def reply_def)
qed

lemma go_back_single:
  assumes "items us = [x]" and "cache w (sessionID req) = Some us"
  shows "go_back req us w = (Returned (respond req (message x) True), w)"
proof -
  have "(cache w)(sessionID req \<mapsto> us) = cache w"
    using assms(2) by (simp add: map_upd_triv)
  with assms(1) show ?thesis
    by (simp add: go_back_def top_def reply_def)
qed

lemma ncstcs_back:
  assumes "\<not> newSession req" "cache w (sessionID req) = Some us" "userData req = ''9''"
  shows "ncstcs_ussd rt req w = answer (go_back req us w)"
  using assms by (simp add: ncstcs_ussd_def)

lemma pcrs_back:
  assumes "\<not> newSession req" "cache w (sessionID req) = Some us" "userData req = ''9''"
  shows "pcrs_ussd rt req w = answer (go_back req us w)"
  using assms by (simp add: pcrs_ussd_def)

text \<open>
  Claim C4 (NCSTCS and PCRS): on an existing session the input \<open>9\<close> pops exactly one
  entry of a stack deeper than one and answers the stored message of the entry below,
  the session continuing; on a stack of depth one it changes nothing at all, however
  often it is applied, and answers the message of the single entry each time.
\<close>

theorem back_navigation:
  assumes "\<not> newSession req" and "cache w (sessionID req) = Some us" and "userData req = ''9''"
  shows "(length (items us) > 1 \<longrightarrow>
            ncstcs_ussd rt req w =
              (Some (respond req (message (last (butlast (items us)))) True),
               w\<lparr>cache := (cache w)(sessionID req \<mapsto> us\<lparr>items := butlast (items us)\<rparr>)\<rparr>)
          \<and> pcrs_ussd rt req w =
              (Some (respond req (message (last (butlast (items us)))) True),
               w\<lparr>cache := (cache w)(sessionID req \<mapsto> us\<lparr>items := butlast (items us)\<rparr>)\<rparr>))
       \<and> (length (items us) = 1 \<longrightarrow>
            ((\<lambda>v. snd (ncstcs_ussd rt req v)) ^^ n) w = w
          \<and> fst (ncstcs_ussd rt req (((\<lambda>v. snd (ncstcs_ussd rt req v)) ^^ n) w))
              = Some (respond req (message (last (items us))) True)
          \<and> ((\<lambda>v. snd (pcrs_ussd rt req v)) ^^ n) w = w
          \<and> fst (pcrs_ussd rt req (((\<lambda>v. snd (pcrs_ussd rt req v)) ^^ n) w))
              = Some (respond req (message (last (items us))) True))"
proof (intro conjI impI)
  assume deep: "length (items us) > 1"
  show "ncstcs_ussd rt req w =
      (Some (respond req (message (last (butlast (items us)))) True),
       w\<lparr>cache := (cache w)(sessionID req \<mapsto> us\<lparr>items := butlast (items us)\<rparr>)\<rparr>)"
    by (simp add: ncstcs_back [OF assms] go_back_deep [OF deep] answer_def pop_def)
  show "pcrs_ussd rt req w =
      (Some (respond req (message (last (butlast (items us)))) True),
       w\<lparr>cache := (cache w)(sessionID req \<mapsto> us\<lparr>items := butlast (items us)\<rparr>)\<rparr>)"
    by (simp add: pcrs_back [OF assms] go_back_deep [OF deep] answer_def pop_def)
next
  assume "length (items us) = 1"
  then obtain x where x: "items us = [x]"
    by (cases "items us") auto
  have n1: "ncstcs_ussd rt req w = (Some (respond req (message x) True), w)"
    by (simp add: ncstcs_back [OF assms] go_back_single [OF x assms(2)] answer_def)
  have p1: "pcrs_ussd rt req w = (Some (respond req (message x) True), w)"
    by (simp add: pcrs_back [OF assms] go_back_single [OF x assms(2)] answer_def)
  have nn: "((\<lambda>v. snd (ncstcs_ussd rt req v)) ^^ n) w = w"
    by (induction n) (simp_all add: n1)
  have pn: "((\<lambda>v. snd (pcrs_ussd rt req v)) ^^ n) w = w"
    by (induction n) (simp_all add: p1)
  show "((\<lambda>v. snd (ncstcs_ussd rt req v)) ^^ n) w = w" by (rule nn)
  show "fst (ncstcs_ussd rt req (((\<lambda>v. snd (ncstcs_ussd rt req v)) ^^ n) w))
      = Some (respond req (message (last (items us))) True)"
    by (simp add: nn n1 x)
  show "((\<lambda>v. snd (pcrs_ussd rt req v)) ^^ n) w = w" by (rule pn)
  show "fst (pcrs_ussd rt req (((\<lambda>v. snd (pcrs_ussd rt req v)) ^^ n) w))
      = Some (respond req (message (last (items us))) True)"
    by (simp add: pn p1 x)
qed

lemma length_set_top: "length (items (set_top a v)) = length (items a)"
  by (cases "items a" rule: rev_cases) (simp_all add: set_top_def)

lemma top_set_top: "top (set_top a v) = Some v"
  by (simp add: set_top_def top_def)

lemma pcrs_go_home_shape:
  "\<exists>st. fst (pcrs_go_home req us w) = Returned (respond req (message st) True)
      \<and> cache (snd (pcrs_go_home req us w)) = (cache w)(sessionID req \<mapsto> arr [st])
      \<and> level st = Some 0
      \<and> users (snd (pcrs_go_home req us w)) = users w
      \<and> (if (case first_state us of None \<Rightarrow> None | Some x \<Rightarrow> loggedIn x) = Some True
          then loggedIn st = Some True \<and> userRef st = session_userRef us
             \<and> calls (snd (pcrs_go_home req us w)) = calls w @ [FindById (session_userRef us)]
             \<and> message st =
                 (if fault_next (faults w) then pcrs_menu ''Courier''
                  else pcrs_menu (displayName
                         (case session_userRef us of None \<Rightarrow> None
                          | Some i \<Rightarrow> find (\<lambda>u. doc_id u = i) (users w))))
          else st = logged_out \<and> message st = pcrs_home
             \<and> calls (snd (pcrs_go_home req us w)) = calls w)"
proof (cases "(case first_state us of None \<Rightarrow> None | Some x \<Rightarrow> loggedIn x) = Some True")
  case False
  then show ?thesis
    by (intro exI [of _ logged_out])
      (simp add: pcrs_go_home_def reply_def logged_out_def state_def)
next
  case True
  show ?thesis
  proof (cases "fault_next (faults w)")
    case f: True
    with True show ?thesis
      by (intro exI [of _ "logged_in (pcrs_menu ''Courier'') (session_userRef us)"])
        (simp add: pcrs_go_home_def findById_def reply_def called_def logged_in_def state_def)
  next
    case f: False
    with True show ?thesis
      by (intro exI [of _ "logged_in (pcrs_menu (displayName
            (case session_userRef us of None \<Rightarrow> None
             | Some i \<Rightarrow> find (\<lambda>u. doc_id u = i) (users w)))) (session_userRef us)"])
        (simp add: pcrs_go_home_def findById_def reply_def called_def logged_in_def state_def)
  qed
qed

text \<open>
  Claim C3 (NCSTCS and PCRS): on an existing session, whatever its stack, the input
  \<open>0\<close> replaces the stack by a single entry at level 0 and the session continues.
  In PCRS a session whose first entry is logged in asks the repository for its user
  again and greets it by name (a failed lookup greets \<open>Courier\<close>); any other session
  gets the plain menu without a repository call.
\<close>

theorem home_navigation:
  assumes "\<not> newSession req" and "cache w (sessionID req) = Some us" and "userData req = ''0''"
  shows "ncstcs_ussd rt req w =
           (Some (respond req ncstcs_home True),
            w\<lparr>cache := (cache w)(sessionID req \<mapsto> arr [state 0 ncstcs_home])\<rparr>)
       \<and> (\<exists>st. fst (pcrs_ussd rt req w) = Some (respond req (message st) True)
            \<and> cache (snd (pcrs_ussd rt req w)) = (cache w)(sessionID req \<mapsto> arr [st])
            \<and> level st = Some 0
            \<and> users (snd (pcrs_ussd rt req w)) = users w
            \<and> (if (case first_state us of None \<Rightarrow> None | Some x \<Rightarrow> loggedIn x) = Some True
                then loggedIn st = Some True \<and> userRef st = session_userRef us
                   \<and> calls (snd (pcrs_ussd rt req w)) = calls w @ [FindById (session_userRef us)]
                   \<and> message st =
                       (if fault_next (faults w) then pcrs_menu ''Courier''
                        else pcrs_menu (displayName
                               (case session_userRef us of None \<Rightarrow> None
                                | Some i \<Rightarrow> find (\<lambda>u. doc_id u = i) (users w))))
                else st = logged_out \<and> message st = pcrs_home
                   \<and> calls (snd (pcrs_ussd rt req w)) = calls w))"
proof
  show "ncstcs_ussd rt req w =
      (Some (respond req ncstcs_home True),
       w\<lparr>cache := (cache w)(sessionID req \<mapsto> arr [state 0 ncstcs_home])\<rparr>)"
    using assms by (simp add: ncstcs_ussd_def reply_def answer_def)
next
  have p: "pcrs_ussd rt req w = answer (pcrs_go_home req us w)"
    using assms by (simp add: pcrs_ussd_def)
  obtain st where st: "fst (pcrs_go_home req us w) = Returned (respond req (message st) True)"
    "cache (snd (pcrs_go_home req us w)) = (cache w)(sessionID req \<mapsto> arr [st])"
    "level st = Some 0"
    "users (snd (pcrs_go_home req us w)) = users w"
    "(if (case first_state us of None \<Rightarrow> None | Some x \<Rightarrow> loggedIn x) = Some True
          then loggedIn st = Some True \<and> userRef st = session_userRef us
             \<and> calls (snd (pcrs_go_home req us w)) = calls w @ [FindById (session_userRef us)]
             \<and> message st =
                 (if fault_next (faults w) then pcrs_menu ''Courier''
                  else pcrs_menu (displayName
                         (case session_userRef us of None \<Rightarrow> None
                          | Some i \<Rightarrow> find (\<lambda>u. doc_id u = i) (users w))))
          else st = logged_out \<and> message st = pcrs_home
             \<and> calls (snd (pcrs_go_home req us w)) = calls w)"
    using pcrs_go_home_shape [of req us w] by blast
  have a: "answer (pcrs_go_home req us w)
      = (Some (respond req (message st) True), snd (pcrs_go_home req us w))"
    using st(1) by (cases "pcrs_go_home req us w") (simp add: answer_def)
  show "\<exists>st. fst (pcrs_ussd rt req w) = Some (respond req (message st) True)
            \<and> cache (snd (pcrs_ussd rt req w)) = (cache w)(sessionID req \<mapsto> arr [st])
            \<and> level st = Some 0
            \<and> users (snd (pcrs_ussd rt req w)) = users w
            \<and> (if (case first_state us of None \<Rightarrow> None | Some x \<Rightarrow> loggedIn x) = Some True
                then loggedIn st = Some True \<and> userRef st = session_userRef us
                   \<and> calls (snd (pcrs_ussd rt req w)) = calls w @ [FindById (session_userRef us)]
                   \<and> message st =
                       (if fault_next (faults w) then pcrs_menu ''Courier''
                        else pcrs_menu (displayName
                               (case session_userRef us of None \<Rightarrow> None
                                | Some i \<Rightarrow> find (\<lambda>u. doc_id u = i) (users w))))
                else st = logged_out \<and> message st = pcrs_home
                   \<and> calls (snd (pcrs_ussd rt req w)) = calls w)"
    unfolding p a fst_conv snd_conv using st(2-5) by (intro exI [of _ st]) simp
qed

section \<open>Session stacks stay well formed\<close>

lemma levels:
  "level (state l m) = Some l" "level (logged_in m r) = Some 0" "level logged_out = Some 0"
  by (simp_all add: state_def logged_in_def logged_out_def)

lemma cop_tl: "confirm_on_password c (x # r) \<Longrightarrow> r \<noteq> [] \<Longrightarrow> confirm_on_password c r"
  by (cases r) auto

lemma cop_message:
  "confirm_on_password c (x # r) \<Longrightarrow> confirm_on_password c (x\<lparr>message := m\<rparr> # r)"
  by (cases r) auto

lemma cop_push:
  "confirm_on_password c (x # r) \<Longrightarrow> level v = Some (Suc c) \<longrightarrow> level x = Some c \<Longrightarrow>
     confirm_on_password c (v # x # r)"
  by simp

lemma stack_ok_single: "level x \<noteq> Some (Suc c) \<Longrightarrow> stack_ok c (arr [x])"
  by (simp add: stack_ok_def arr_def)

lemma stack_ok_top: "stack_ok c a \<Longrightarrow> top a = Some (last (items a))"
  by (simp add: stack_ok_def top_def)

lemma stack_ok_push:
  assumes "stack_ok c a" and "level v = Some (Suc c) \<longrightarrow> level (last (items a)) = Some c"
  shows "stack_ok c (push a v)"
proof -
  from assms(1) obtain x r where r: "rev (items a) = x # r"
    by (cases "rev (items a)") (auto simp: stack_ok_def)
  then have "last (items a) = x"
    by (metis last_rev list.sel(1) rev_rev_ident hd_rev)
  with assms r show ?thesis
    by (simp add: stack_ok_def push_def)
qed

lemma stack_ok_set_top:
  assumes "stack_ok c a" and "top a = Some cur"
  shows "stack_ok c (set_top a (cur\<lparr>message := m\<rparr>))"
proof -
  from assms(1) obtain x r where r: "rev (items a) = x # r"
    by (cases "rev (items a)") (auto simp: stack_ok_def)
  then have i: "items a = rev r @ [x]"
    by (metis rev_rev_ident rev.simps(2))
  with assms have "cur = x"
    by (simp add: top_def)
  with assms(1) r i show ?thesis
    by (simp add: stack_ok_def set_top_def cop_message)
qed

lemma stack_ok_pop:
  assumes "stack_ok c a" and "length (items a) > 1"
  shows "stack_ok c (pop a)"
proof -
  from assms(1) obtain x r where r: "rev (items a) = x # r"
    by (cases "rev (items a)") (auto simp: stack_ok_def)
  then have i: "items a = rev r @ [x]"
    by (metis rev_rev_ident rev.simps(2))
  with assms(2) have "r \<noteq> []"
    by auto
  moreover from assms(1) r have "confirm_on_password c (x # r)"
    by (simp add: stack_ok_def)
  ultimately have "confirm_on_password c r"
    by (simp add: cop_tl)
  with assms(1) i \<open>r \<noteq> []\<close> show ?thesis
    by (simp add: stack_ok_def pop_def)
qed

lemma confirm_entry_sits_on_password_entry:
  assumes "stack_ok c a" and "top a = Some cur" and "level cur = Some (Suc c)"
  shows "\<exists>xs p. items a = xs @ [p, cur] \<and> level p = Some c"
proof -
  from assms(1) obtain x r where r: "rev (items a) = x # r"
    by (cases "rev (items a)") (auto simp: stack_ok_def)
  then have i: "items a = rev r @ [x]"
    by (metis rev_rev_ident rev.simps(2))
  with assms(2) have x: "cur = x"
    by (simp add: top_def)
  from assms(1,3) r x obtain p r' where p: "r = p # r'" "level p = Some c"
    by (cases r) (auto simp: stack_ok_def)
  with i x show ?thesis
    by (intro exI [of _ "rev r'"] exI [of _ p]) simp
qed

lemma stores_reply: "P a \<Longrightarrow> stores (reply req a m c w) req w P"
  by (auto simp: stores_def reply_def)

lemma stores_finish: "stores (finish req m w) req w P"
  by (simp add: stores_def finish_def)

lemma stores_threw: "stores (Threw, w) req w P"
  by (simp add: stores_def)

lemma stores_called: "stores r req (called c w) P \<Longrightarrow> stores r req w P"
  by (simp add: stores_def called_def)

lemma stores_retry:
  "stack_ok c us \<Longrightarrow> top us = Some cur \<Longrightarrow> stores (retry req us cur m w) req w (stack_ok c)"
  by (simp add: retry_def stores_reply stack_ok_set_top)

lemma stores_differ:
  assumes "stack_ok c us" and "top us = Some cur" and "level cur = Some (Suc c)"
  shows "stores (passwords_differ req us w) req w (stack_ok c)"
proof -
  from confirm_entry_sits_on_password_entry [OF assms]
  obtain xs p where i: "items us = xs @ [p, cur]"
    by blast
  then have l: "length (items us) > 1"
    by simp
  have p: "stack_ok c (pop us)"
    using assms(1) l by (rule stack_ok_pop)
  have t: "top (pop us) = Some p"
    using i by (simp add: top_def pop_def butlast_append)
  show ?thesis
    unfolding passwords_differ_def Let_def t with_message_def option.case
    by (rule stores_reply) (rule stack_ok_set_top [OF p t])
qed

lemma stores_findOne:
  assumes "\<And>found. stores (f found (called (FindOne q) w)) req (called (FindOne q) w) P"
  shows "stores (case findOne q w of (Threw, w1) \<Rightarrow> (Threw, w1) | (Returned x, w1) \<Rightarrow> f x w1) req w P"
  by (rule stores_called [where c = "FindOne q"])
    (simp add: findOne_def assms stores_threw)

lemma stores_register: "stores (register rt req doc pw ok w) req w P"
  by (cases pw)
    (simp_all add: register_def create_def stores_def finish_def called_def Let_def)

lemma top_last: "stack_ok c us \<Longrightarrow> top us = Some cur \<Longrightarrow> last (items us) = cur"
  by (simp add: stack_ok_def top_def)

lemma ncstcs_steps_stores:
  assumes "stack_ok 13 us" and "top us = Some cur"
  shows "stores (ncstcs_case0 req us w) req w (stack_ok 13)"
    "stores (case_fullName req us cur w) req w (stack_ok 13)"
    "stores (ncstcs_case11 req us cur w) req w (stack_ok 13)"
    "stores (ncstcs_case12 req us cur w) req w (stack_ok 13)"
    "level cur = Some 13 \<Longrightarrow> stores (ncstcs_case13 req us cur w) req w (stack_ok 13)"
    "level cur = Some 14 \<Longrightarrow> stores (ncstcs_case14 req us cur w) req w (stack_ok 13)"
    "stores (ncstcs_case15 rt req us cur w) req w (stack_ok 13)"
    "stores (ncstcs_case16 rt req us cur w) req w (stack_ok 13)"
    "stores (lookup rt summ req us cur w) req w (stack_ok 13)"
    "stores (ncstcs_default req w) req w (stack_ok 13)"
proof -
  note intros = stores_reply stores_retry [OF assms] stores_finish stores_findOne
    stack_ok_push [OF assms(1)] stores_register stack_ok_single
  show "stores (ncstcs_case0 req us w) req w (stack_ok 13)"
    by (auto simp: levels ncstcs_case0_def intro!: intros)
  show "stores (case_fullName req us cur w) req w (stack_ok 13)"
    by (auto simp: levels case_fullName_def Let_def intro!: intros)
  show "stores (ncstcs_case11 req us cur w) req w (stack_ok 13)"
    by (auto simp: levels ncstcs_case11_def Let_def intro!: intros)
  show "stores (ncstcs_case12 req us cur w) req w (stack_ok 13)"
    by (auto simp: levels ncstcs_case12_def Let_def intro!: intros)
  show "level cur = Some 13 \<Longrightarrow> stores (ncstcs_case13 req us cur w) req w (stack_ok 13)"
    by (auto simp: levels ncstcs_case13_def Let_def top_last [OF assms] intro!: intros)
  show "level cur = Some 14 \<Longrightarrow> stores (ncstcs_case14 req us cur w) req w (stack_ok 13)"
    using stores_differ [OF assms, of req w]
    by (auto simp: levels ncstcs_case14_def Let_def intro!: intros)
  show "stores (ncstcs_case15 rt req us cur w) req w (stack_ok 13)"
    by (auto simp: levels ncstcs_case15_def Let_def intro!: intros)
  show "stores (ncstcs_case16 rt req us cur w) req w (stack_ok 13)"
    by (auto simp: levels ncstcs_case16_def Let_def intro!: intros)
  show "stores (lookup rt summ req us cur w) req w (stack_ok 13)"
    by (auto simp: levels lookup_def Let_def intro!: intros split: option.splits)
  show "stores (ncstcs_default req w) req w (stack_ok 13)"
    by (auto simp: levels ncstcs_default_def intro!: intros)
qed

lemma ncstcs_switch_stores:
  assumes "stack_ok 13 us"
  shows "stores (ncstcs_switch rt req us w) req w (stack_ok 13)"
proof -
  from assms have t: "top us = Some (last (items us))"
    by (rule stack_ok_top)
  show ?thesis
    unfolding ncstcs_switch_def t option.case
    by (simp add: ncstcs_steps_stores [OF assms t])
qed

lemma stores_store_ok:
  assumes "stores r req w (stack_ok c)" and "store_ok c (cache w)"
  shows "store_ok c (cache (snd r))"
  using assms unfolding stores_def store_ok_def by (auto split: if_splits)

lemma go_back_stores:
  assumes "stack_ok c us"
  shows "stores (go_back req us w) req w (stack_ok c)"
proof (cases "length (items us) > 1")
  case True
  then have "stack_ok c (pop us)"
    using assms by (simp add: stack_ok_pop)
  then show ?thesis
    using True by (auto simp: go_back_def stack_ok_top Let_def intro!: stores_reply)
next
  case False
  then show ?thesis
    using assms by (auto simp: go_back_def stack_ok_top Let_def intro!: stores_reply)
qed

lemma stores_catch_all:
  "stores r req w P \<Longrightarrow> stores (catch_all req r) req w P"
  by (cases r; cases "fst r") (auto simp: stores_def catch_all_def finish_def)

lemma answer_cache: "cache (snd (answer r)) = cache (snd r)"
  by (cases r; cases "fst r") (simp_all add: answer_def)

text \<open>Every request to NCSTCS leaves a well-formed store well formed.\<close>

theorem ncstcs_keeps_stacks_well_formed:
  assumes "store_ok 13 (cache w)"
  shows "store_ok 13 (cache (snd (ncstcs_ussd rt req w)))"
proof -
  have h: "stack_ok 13 (arr [state 0 ncstcs_home])"
    by (simp add: levels stack_ok_single)
  have "stores
      (case cache w (sessionID req) of
         None \<Rightarrow> reply req (arr [state 0 ncstcs_home]) ncstcs_home True w
       | Some userSession \<Rightarrow>
           if newSession req then reply req (arr [state 0 ncstcs_home]) ncstcs_home True w
           else if userData req = ''0'' then reply req (arr [state 0 ncstcs_home]) ncstcs_home True w
           else if userData req = ''9'' then go_back req userSession w
           else catch_all req (ncstcs_switch rt req userSession w)) req w (stack_ok 13)"
  proof (cases "cache w (sessionID req)")
    case None
    then show ?thesis
      by (simp add: stores_reply h)
  next
    case (Some us)
    with assms have "stack_ok 13 us"
      by (auto simp: store_ok_def)
    with Some show ?thesis
      by (simp add: stores_reply h go_back_stores stores_catch_all ncstcs_switch_stores)
  qed
  then show ?thesis
    unfolding ncstcs_ussd_def answer_cache using assms by (rule stores_store_ok)
qed

lemma pcrs_steps_stores:
  assumes "stack_ok 14 us" and "top us = Some cur"
  shows "stores (pcrs_case0 req us cur w) req w (stack_ok 14)"
    "stores (pcrs_case5 req us w) req w (stack_ok 14)"
    "stores (case_fullName req us cur w) req w (stack_ok 14)"
    "stores (pcrs_case11 req us cur w) req w (stack_ok 14)"
    "stores (pcrs_case12 req us cur w) req w (stack_ok 14)"
    "stores (pcrs_case13 req us cur w) req w (stack_ok 14)"
    "level cur = Some 14 \<Longrightarrow> stores (pcrs_case14 req us cur w) req w (stack_ok 14)"
    "level cur = Some 15 \<Longrightarrow> stores (pcrs_case15 req us cur w) req w (stack_ok 14)"
    "stores (pcrs_case16 rt req us cur w) req w (stack_ok 14)"
    "stores (pcrs_case17 rt req us cur w) req w (stack_ok 14)"
    "stores (lookup rt summ req us cur w) req w (stack_ok 14)"
    "stores (pcrs_default req w) req w (stack_ok 14)"
proof -
  note intros = stores_reply stores_retry [OF assms] stores_finish stores_findOne
    stack_ok_push [OF assms(1)] stores_register stack_ok_single
  show "stores (pcrs_case0 req us cur w) req w (stack_ok 14)"
  proof (cases "loggedIn cur = Some True \<and> userData req = ''1''")
    case True
    have "stores (pcrs_case0 req us cur w) req (called (FindById (session_userRef us)) w)
        (stack_ok 14)"
      using True
      by (auto simp: levels pcrs_case0_def findById_def intro!: stores_finish split: option.splits)
    then show ?thesis
      by (rule stores_called)
  next
    case False
    then show ?thesis
      by (auto simp: levels pcrs_case0_def intro!: intros)
  qed
  show "stores (pcrs_case5 req us w) req w (stack_ok 14)"
    by (auto simp: levels pcrs_case5_def intro!: intros)
  show "stores (case_fullName req us cur w) req w (stack_ok 14)"
    by (auto simp: levels case_fullName_def Let_def intro!: intros)
  show "stores (pcrs_case11 req us cur w) req w (stack_ok 14)"
    by (auto simp: levels pcrs_case11_def Let_def intro!: intros)
  show "stores (pcrs_case12 req us cur w) req w (stack_ok 14)"
    by (auto simp: levels pcrs_case12_def Let_def intro!: intros)
  show "stores (pcrs_case13 req us cur w) req w (stack_ok 14)"
    by (auto simp: levels pcrs_case13_def Let_def intro!: intros)
  show "level cur = Some 14 \<Longrightarrow> stores (pcrs_case14 req us cur w) req w (stack_ok 14)"
    by (auto simp: levels pcrs_case14_def Let_def top_last [OF assms] intro!: intros)
  show "level cur = Some 15 \<Longrightarrow> stores (pcrs_case15 req us cur w) req w (stack_ok 14)"
    using stores_differ [OF assms, of req w]
    by (auto simp: levels pcrs_case15_def Let_def intro!: intros)
  show "stores (pcrs_case16 rt req us cur w) req w (stack_ok 14)"
    by (auto simp: levels pcrs_case16_def Let_def intro!: intros)
  show "stores (pcrs_case17 rt req us cur w) req w (stack_ok 14)"
    by (auto simp: levels pcrs_case17_def Let_def intro!: intros)
  show "stores (lookup rt summ req us cur w) req w (stack_ok 14)"
    by (auto simp: levels lookup_def Let_def intro!: intros split: option.splits)
  show "stores (pcrs_default req w) req w (stack_ok 14)"
    by (auto simp: levels pcrs_default_def intro!: intros)
qed

lemma pcrs_switch_stores:
  assumes "stack_ok 14 us"
  shows "stores (pcrs_switch rt req us w) req w (stack_ok 14)"
proof -
  from assms have t: "top us = Some (last (items us))"
    by (rule stack_ok_top)
  show ?thesis
    unfolding pcrs_switch_def t option.case
    by (simp add: pcrs_steps_stores [OF assms t])
qed

lemma pcrs_start_stores: "stores (pcrs_start req w) req w (stack_ok 14)"
proof (cases "normalizePhone (msisdn req) = []")
  case True
  then show ?thesis
    by (simp add: levels pcrs_start_def stores_reply stack_ok_single)
next
  case False
  have "stores (pcrs_start req w) req (called (FindOne (ByPhone (normalizePhone (msisdn req)))) w)
      (stack_ok 14)"
    using False
    by (auto simp: levels pcrs_start_def Let_def findOne_def stack_ok_single intro!: stores_reply
        split: option.splits)
  then show ?thesis
    by (rule stores_called)
qed

lemma pcrs_go_home_stores: "stores (pcrs_go_home req us w) req w (stack_ok 14)"
proof (cases "(case first_state us of None \<Rightarrow> None | Some x \<Rightarrow> loggedIn x) = Some True")
  case True
  have "stores (pcrs_go_home req us w) req (called (FindById (session_userRef us)) w)
      (stack_ok 14)"
    using True
    by (auto simp: levels pcrs_go_home_def findById_def stack_ok_single intro!: stores_reply)
  then show ?thesis
    by (rule stores_called)
next
  case False
  then show ?thesis
    by (simp add: levels pcrs_go_home_def stores_reply stack_ok_single)
qed

text \<open>And so does every request to PCRS, where the password level is 14.\<close>

theorem pcrs_keeps_stacks_well_formed:
  assumes "store_ok 14 (cache w)"
  shows "store_ok 14 (cache (snd (pcrs_ussd rt req w)))"
proof -
  have "stores
      (case cache w (sessionID req) of
         None \<Rightarrow> pcrs_start req w
       | Some userSession \<Rightarrow>
           if newSession req then pcrs_start req w
           else if userData req = ''0'' then pcrs_go_home req userSession w
           else if userData req = ''9'' then go_back req userSession w
           else catch_all req (pcrs_switch rt req userSession w)) req w (stack_ok 14)"
  proof (cases "cache w (sessionID req)")
    case None
    then show ?thesis
      by (simp add: pcrs_start_stores)
  next
    case (Some us)
    with assms have "stack_ok 14 us"
      by (auto simp: store_ok_def)
    with Some show ?thesis
      by (simp add: pcrs_start_stores pcrs_go_home_stores go_back_stores stores_catch_all
          pcrs_switch_stores)
  qed
  then show ?thesis
    unfolding pcrs_ussd_def answer_cache using assms by (rule stores_store_ok)
qed

text \<open>The store of a server that has just started is well formed.\<close>

lemma no_sessions_store_ok: "store_ok c (cache no_sessions)"
  by (simp add: store_ok_def no_sessions_def)

section \<open>Level-specific steps\<close>

lemma passwords_differ_deep:
  assumes "items us = xs @ [p, cur]"
  shows "passwords_differ req us w =
    (Returned (respond req ''Passwords do not match. Create Password:'' True),
     w\<lparr>cache := (cache w)(sessionID req \<mapsto>
          us\<lparr>items := xs @ [p\<lparr>message := ''Passwords do not match. Create Password:''\<rparr>]\<rparr>)\<rparr>)"
  using assms
  by (simp add: passwords_differ_def pop_def top_def set_top_def with_message_def reply_def
      butlast_append Let_def)

text \<open>
  Claim C10: at the confirm-password step (level 14 in NCSTCS, 15 in PCRS), an input
  whose trimmed form is not the stored password removes the confirm entry, writes the
  mismatch prompt into the entry below, answers that prompt and continues; the world
  changes in the session store only, so no repository operation is called. In a store
  of well-formed stacks, which is what the two applications keep, the entry below is
  the one of the password level.
\<close>

theorem confirm_password_mismatch:
  assumes "\<not> newSession req" and "cache w (sessionID req) = Some us"
    and "userData req \<noteq> ''0''" and "userData req \<noteq> ''9''"
    and "items us = xs @ [p, cur]"
    and "Some (trim (userData req)) \<noteq> password cur"
  shows "(level cur = Some 14 \<longrightarrow>
           ncstcs_ussd rt req w =
            (Some (respond req ''Passwords do not match. Create Password:'' True),
             w\<lparr>cache := (cache w)(sessionID req \<mapsto>
                us\<lparr>items := xs @ [p\<lparr>message := ''Passwords do not match. Create Password:''\<rparr>]\<rparr>)\<rparr>)
           \<and> (store_ok 13 (cache w) \<longrightarrow> level p = Some 13))
       \<and> (level cur = Some 15 \<longrightarrow>
           pcrs_ussd rt req w =
            (Some (respond req ''Passwords do not match. Create Password:'' True),
             w\<lparr>cache := (cache w)(sessionID req \<mapsto>
                us\<lparr>items := xs @ [p\<lparr>message := ''Passwords do not match. Create Password:''\<rparr>]\<rparr>)\<rparr>)
           \<and> (store_ok 14 (cache w) \<longrightarrow> level p = Some 14))"
proof -
  have t: "top us = Some cur"
    using assms(5) by (simp add: top_def)
  have below: "level p = Some c" if "store_ok c (cache w)" and "level cur = Some (Suc c)" for c
  proof -
    from that(1) assms(2) have "stack_ok c us"
      by (auto simp: store_ok_def)
    from confirm_entry_sits_on_password_entry [OF this t that(2)]
    obtain ys q where "items us = ys @ [q, cur]" and "level q = Some c"
      by blast
    with assms(5) show ?thesis
      by simp
  qed
  have steps: "level cur = Some 14 \<longrightarrow>
      ncstcs_ussd rt req w =
        (Some (respond req ''Passwords do not match. Create Password:'' True),
         w\<lparr>cache := (cache w)(sessionID req \<mapsto>
            us\<lparr>items := xs @ [p\<lparr>message := ''Passwords do not match. Create Password:''\<rparr>]\<rparr>)\<rparr>)"
    "level cur = Some 15 \<longrightarrow>
      pcrs_ussd rt req w =
        (Some (respond req ''Passwords do not match. Create Password:'' True),
         w\<lparr>cache := (cache w)(sessionID req \<mapsto>
            us\<lparr>items := xs @ [p\<lparr>message := ''Passwords do not match. Create Password:''\<rparr>]\<rparr>)\<rparr>)"
    using assms(1-4,6) t
    by (simp_all add: ncstcs_ussd_def pcrs_ussd_def ncstcs_switch_def pcrs_switch_def
        ncstcs_case14_def pcrs_case15_def passwords_differ_deep [OF assms(5)]
        catch_all_def answer_def)
  show ?thesis
    using steps below [of 13] below [of 14] by simp
qed

lemma retry_retried: "retried (retry req us cur m w) req us cur w"
  by (auto simp: retried_def retry_def reply_def)

lemma retry_retried_called: "retried (retry req us cur m (called c w)) req us cur w"
  by (auto simp: retried_def retry_def reply_def called_def)

lemma findOne_taken:
  "taken q w \<Longrightarrow> findOne q w = (Returned (find (satisfies q) (users w)), called (FindOne q) w)"
  by (simp add: taken_def findOne_def)

lemma ncstcs_switch_retried:
  assumes "top us = Some cur" and "level cur = Some l" and "ncstcs_rejects rt l (userData req) w"
  shows "retried (ncstcs_switch rt req us w) req us cur w"
proof -
  consider "l = 10" | "l = 11" | "l = 12" | "l = 13" | "l = 15" | "l = 16"
    using assms(3) by (auto simp: ncstcs_rejects_def Let_def split: if_splits)
  then show ?thesis
  proof cases
    case 1
    with assms show ?thesis
      by (auto simp: ncstcs_switch_def case_fullName_def ncstcs_rejects_def Let_def retry_retried)
  next
    case 2
    with assms show ?thesis
      by (auto simp: ncstcs_switch_def ncstcs_case11_def ncstcs_rejects_def Let_def retry_retried
          retry_retried_called findOne_taken taken_def)
  next
    case 3
    with assms show ?thesis
      by (auto simp: ncstcs_switch_def ncstcs_case12_def ncstcs_rejects_def Let_def retry_retried
          retry_retried_called findOne_taken taken_def)
  next
    case 4
    with assms show ?thesis
      by (auto simp: ncstcs_switch_def ncstcs_case13_def ncstcs_rejects_def Let_def retry_retried)
  next
    case 5
    with assms show ?thesis
      by (auto simp: ncstcs_switch_def ncstcs_case15_def ncstcs_rejects_def Let_def retry_retried
          retry_retried_called findOne_taken taken_def)
  next
    case 6
    with assms show ?thesis
      by (auto simp: ncstcs_switch_def ncstcs_case16_def ncstcs_rejects_def Let_def retry_retried
          retry_retried_called findOne_taken taken_def)
  qed
qed

lemma pcrs_switch_retried:
  assumes "top us = Some cur" and "level cur = Some l" and "pcrs_rejects rt l (userData req) w"
  shows "retried (pcrs_switch rt req us w) req us cur w"
proof -
  consider "l = 10" | "l = 11" | "l = 12" | "l = 13" | "l = 14" | "l = 16" | "l = 17"
    using assms(3) by (auto simp: pcrs_rejects_def Let_def split: if_splits)
  then show ?thesis
  proof cases
    case 1
    with assms show ?thesis
      by (auto simp: pcrs_switch_def case_fullName_def pcrs_rejects_def Let_def retry_retried)
  next
    case 2
    with assms show ?thesis
      by (auto simp: pcrs_switch_def pcrs_case11_def pcrs_rejects_def Let_def retry_retried
          retry_retried_called findOne_taken taken_def)
  next
    case 3
    with assms show ?thesis
      by (auto simp: pcrs_switch_def pcrs_case12_def pcrs_rejects_def Let_def retry_retried
          retry_retried_called findOne_taken taken_def)
  next
    case 4
    with assms show ?thesis
      by (auto simp: pcrs_switch_def pcrs_case13_def pcrs_rejects_def Let_def retry_retried
          retry_retried_called findOne_taken taken_def)
  next
    case 5
    with assms show ?thesis
      by (auto simp: pcrs_switch_def pcrs_case14_def pcrs_rejects_def Let_def retry_retried)
  next
    case 6
    with assms show ?thesis
      by (auto simp: pcrs_switch_def pcrs_case16_def pcrs_rejects_def Let_def retry_retried
          retry_retried_called findOne_taken taken_def)
  next
    case 7
    with assms show ?thesis
      by (auto simp: pcrs_switch_def pcrs_case17_def pcrs_rejects_def Let_def retry_retried
          retry_retried_called findOne_taken taken_def)
  qed
qed

lemma retried_answer:
  assumes "retried r req us cur w"
  shows "\<exists>m. fst (answer (catch_all req r)) = Some (respond req m True)
      \<and> cache (snd (answer (catch_all req r))) = (cache w)(sessionID req \<mapsto> set_top us (cur\<lparr>message := m\<rparr>))
      \<and> users (snd (answer (catch_all req r))) = users w"
proof -
  from assms obtain m where "fst r = Returned (respond req m True)"
    "cache (snd r) = (cache w)(sessionID req \<mapsto> set_top us (cur\<lparr>message := m\<rparr>))"
    "users (snd r) = users w"
    unfolding retried_def by blast
  then show ?thesis
    by (cases r) (auto simp: answer_def catch_all_def)
qed

lemma gateplus_retried:
  assumes "\<not> newSession req" and "g_cache gw (sessionID req) = Some us" and "items us \<noteq> []"
    and "level (last (items us)) = Some l" and "gateplus_rejects rt l (userData req)"
  shows "\<exists>m. gateplus_ussd rt req gw =
      (Some (respond req m True),
       if l = 10 then gw
       else gw\<lparr>g_cache := (g_cache gw)(sessionID req \<mapsto>
              set_top us ((last (items us))\<lparr>message := m\<rparr>))\<rparr>)"
proof -
  consider "l = 10" | "l = 11"
    using assms(5) by (auto simp: gateplus_rejects_def Let_def split: if_splits)
  then show ?thesis
  proof cases
    case 1
    with assms show ?thesis
      by (auto simp: gateplus_ussd_def gp_try_def gp_registration_def gp_case10_def
          gateplus_rejects_def gp_catch_def g_answer_def Let_def)
  next
    case 2
    with assms show ?thesis
      by (auto simp: gateplus_ussd_def gp_try_def gp_registration_def gp_case11_def gp_retry_def
          g_save_def gateplus_rejects_def gp_catch_def g_answer_def Let_def)
  qed
qed

text \<open>
  Claim C5: an input that fails the validator or the uniqueness check of a field-capture
  step is answered with a prompt and the session continuing; in NCSTCS and PCRS the
  prompt replaces the message of the top entry and nothing else of the stack changes,
  so its depth is the same; GatePlus does the same at the card step and leaves the
  whole session untouched at the name step. No user is created or changed.
\<close>

theorem retry_in_place:
  assumes "\<not> newSession req"
  shows "(userData req \<noteq> ''0'' \<and> userData req \<noteq> ''9'' \<and> cache w (sessionID req) = Some us
            \<and> top us = Some cur \<and> level cur = Some l
            \<and> ncstcs_rejects rt l (userData req) w \<longrightarrow>
           (\<exists>m. fst (ncstcs_ussd rt req w) = Some (respond req m True)
              \<and> cache (snd (ncstcs_ussd rt req w))
                  = (cache w)(sessionID req \<mapsto> set_top us (cur\<lparr>message := m\<rparr>))
              \<and> length (items (set_top us (cur\<lparr>message := m\<rparr>))) = length (items us)
              \<and> users (snd (ncstcs_ussd rt req w)) = users w))
       \<and> (userData req \<noteq> ''0'' \<and> userData req \<noteq> ''9'' \<and> cache w (sessionID req) = Some us
            \<and> top us = Some cur \<and> level cur = Some l
            \<and> pcrs_rejects rt l (userData req) w \<longrightarrow>
           (\<exists>m. fst (pcrs_ussd rt req w) = Some (respond req m True)
              \<and> cache (snd (pcrs_ussd rt req w))
                  = (cache w)(sessionID req \<mapsto> set_top us (cur\<lparr>message := m\<rparr>))
              \<and> length (items (set_top us (cur\<lparr>message := m\<rparr>))) = length (items us)
              \<and> users (snd (pcrs_ussd rt req w)) = users w))
       \<and> (g_cache gw (sessionID req) = Some gs \<and> items gs \<noteq> []
            \<and> level (last (items gs)) = Some l \<and> gateplus_rejects rt l (userData req) \<longrightarrow>
           (\<exists>m. gateplus_ussd rt req gw =
              (Some (respond req m True),
               if l = 10 then gw
               else gw\<lparr>g_cache := (g_cache gw)(sessionID req \<mapsto>
                      set_top gs ((last (items gs))\<lparr>message := m\<rparr>))\<rparr>)))"
proof (intro conjI impI)
  assume a: "userData req \<noteq> ''0'' \<and> userData req \<noteq> ''9'' \<and> cache w (sessionID req) = Some us
            \<and> top us = Some cur \<and> level cur = Some l
            \<and> ncstcs_rejects rt l (userData req) w"
  then have "retried (ncstcs_switch rt req us w) req us cur w"
    by (simp add: ncstcs_switch_retried)
  moreover have "ncstcs_ussd rt req w = answer (catch_all req (ncstcs_switch rt req us w))"
    using a assms by (simp add: ncstcs_ussd_def)
  ultimately show "\<exists>m. fst (ncstcs_ussd rt req w) = Some (respond req m True)
              \<and> cache (snd (ncstcs_ussd rt req w))
                  = (cache w)(sessionID req \<mapsto> set_top us (cur\<lparr>message := m\<rparr>))
              \<and> length (items (set_top us (cur\<lparr>message := m\<rparr>))) = length (items us)
              \<and> users (snd (ncstcs_ussd rt req w)) = users w"
    using retried_answer [of "ncstcs_switch rt req us w" req us cur w]
    by (simp add: length_set_top)
next
  assume a: "userData req \<noteq> ''0'' \<and> userData req \<noteq> ''9'' \<and> cache w (sessionID req) = Some us
            \<and> top us = Some cur \<and> level cur = Some l
            \<and> pcrs_rejects rt l (userData req) w"
  then have "retried (pcrs_switch rt req us w) req us cur w"
    by (simp add: pcrs_switch_retried)
  moreover have "pcrs_ussd rt req w = answer (catch_all req (pcrs_switch rt req us w))"
    using a assms by (simp add: pcrs_ussd_def)
  ultimately show "\<exists>m. fst (pcrs_ussd rt req w) = Some (respond req m True)
              \<and> cache (snd (pcrs_ussd rt req w))
                  = (cache w)(sessionID req \<mapsto> set_top us (cur\<lparr>message := m\<rparr>))
              \<and> length (items (set_top us (cur\<lparr>message := m\<rparr>))) = length (items us)
              \<and> users (snd (pcrs_ussd rt req w)) = users w"
    using retried_answer [of "pcrs_switch rt req us w" req us cur w]
    by (simp add: length_set_top)
next
  assume "g_cache gw (sessionID req) = Some gs \<and> items gs \<noteq> []
            \<and> level (last (items gs)) = Some l \<and> gateplus_rejects rt l (userData req)"
  with assms show "\<exists>m. gateplus_ussd rt req gw =
              (Some (respond req m True),
               if l = 10 then gw
               else gw\<lparr>g_cache := (g_cache gw)(sessionID req \<mapsto>
                      set_top gs ((last (items gs))\<lparr>message := m\<rparr>))\<rparr>)"
    by (simp add: gateplus_retried)
qed

lemma no_fault_next: "True \<notin> set fs \<Longrightarrow> \<not> fault_next fs"
  by (cases fs) (auto simp: fault_next_def)

lemma no_fault_tl: "True \<notin> set fs \<Longrightarrow> True \<notin> set (tl fs)"
  by (cases fs) auto

lemma findUser_quiet:
  "\<not> fault_next (g_faults w) \<Longrightarrow>
     findUser m w = (Returned (find (\<lambda>u. gu_msisdn u = m) (g_users w)), g_called (FindUser m) w)"
  by (simp add: findUser_def)

lemma logActivity_quiet:
  "\<not> fault_next (g_faults w) \<Longrightarrow> m \<noteq> [] \<Longrightarrow> a \<noteq> [] \<Longrightarrow>
     logActivity m a d w =
       (Returned (),
        (g_called (LogActivity m a d) w)
          \<lparr>logs := logs w @
             [\<lparr>act_msisdn = m, act_action = a, act_details = d, act_timestamp = now w\<rparr>]\<rparr>)"
  by (simp add: logActivity_def)

lemma g_called_frame:
  "now (g_called c w) = now w" "logs (g_called c w) = logs w" "loans (g_called c w) = loans w"
  "g_users (g_called c w) = g_users w" "g_cache (g_called c w) = g_cache w"
  by (simp_all add: g_called_def)

lemma gp_existing_quiet:
  assumes "True \<notin> set (g_faults w)" and "msisdn req \<noteq> []"
    and "find (\<lambda>u. gu_msisdn u = msisdn req) (g_users w) = Some u"
  shows "gp_existing rt req us cur w =
     (let w2 = (g_called (LogActivity (msisdn req) ''menu'' (Menu (level cur) (userData req)))
                 (g_called (FindUser (msisdn req)) w))
                \<lparr>logs := logs w @
                   [\<lparr>act_msisdn = msisdn req, act_action = ''menu'',
                     act_details = Menu (level cur) (userData req), act_timestamp = now w\<rparr>]\<rparr>
      in if level cur = Some 1 then gp_case1 rt req us u w2
         else if level cur = Some 2 then gp_case2 rt req us cur u w2
         else (Returned (respond req ''An error occurred.'' False), w2))"
proof -
  have f1: "\<not> fault_next (g_faults w)"
    using assms(1) by (rule no_fault_next)
  have f2: "\<not> fault_next (g_faults (g_called (FindUser (msisdn req)) w))"
    using assms(1) by (simp add: g_called_def no_fault_next no_fault_tl)
  show ?thesis
    unfolding gp_existing_def findUser_quiet [OF f1] assms(3)
    by (simp add: logActivity_quiet [OF f2 assms(2)] g_called_frame Let_def)
qed

text \<open>
  Claim C6, as the program has it: when the level of the top entry is none the
  \<open>switch\<close> lists and the input is no navigation key, NCSTCS and PCRS replace the
  session by a single entry at level 0 with the plain menu, answer that menu and
  continue. GatePlus, for a known subscriber and a level outside its two flows,
  answers \<open>An error occurred.\<close>, ends the dialog and leaves the stored session as it
  is.
\<close>

theorem unknown_level:
  assumes "\<not> newSession req"
  shows "(userData req \<noteq> ''0'' \<and> userData req \<noteq> ''9'' \<and> cache w (sessionID req) = Some us
            \<and> top us = Some cur \<and> level cur \<notin> Some ` {0, 10, 11, 12, 13, 14, 15, 16, 30} \<longrightarrow>
          ncstcs_ussd rt req w =
            (Some (respond req ncstcs_home True),
             w\<lparr>cache := (cache w)(sessionID req \<mapsto> arr [state 0 ncstcs_home])\<rparr>))
       \<and> (userData req \<noteq> ''0'' \<and> userData req \<noteq> ''9'' \<and> cache w (sessionID req) = Some us
            \<and> top us = Some cur \<and> level cur \<notin> Some ` {0, 5, 10, 11, 12, 13, 14, 15, 16, 17, 30} \<longrightarrow>
          pcrs_ussd rt req w =
            (Some (respond req pcrs_home True),
             w\<lparr>cache := (cache w)(sessionID req \<mapsto> arr [state 0 pcrs_home])\<rparr>))
       \<and> (g_cache gw (sessionID req) = Some gs \<and> items gs \<noteq> []
            \<and> level (last (items gs)) \<notin> Some ` ({1, 2} \<union> {10..<20})
            \<and> find (\<lambda>u. gu_msisdn u = msisdn req) (g_users gw) = Some u
            \<and> msisdn req \<noteq> [] \<and> True \<notin> set (g_faults gw) \<longrightarrow>
          fst (gateplus_ussd rt req gw) = Some (respond req ''An error occurred.'' False)
            \<and> g_cache (snd (gateplus_ussd rt req gw)) = g_cache gw
            \<and> g_users (snd (gateplus_ussd rt req gw)) = g_users gw
            \<and> loans (snd (gateplus_ussd rt req gw)) = loans gw)"
proof (intro conjI impI)
  assume a: "userData req \<noteq> ''0'' \<and> userData req \<noteq> ''9'' \<and> cache w (sessionID req) = Some us
            \<and> top us = Some cur \<and> level cur \<notin> Some ` {0, 10, 11, 12, 13, 14, 15, 16, 30}"
  then have "ncstcs_switch rt req us w = ncstcs_default req w"
    by (simp add: ncstcs_switch_def)
  with a assms show "ncstcs_ussd rt req w =
            (Some (respond req ncstcs_home True),
             w\<lparr>cache := (cache w)(sessionID req \<mapsto> arr [state 0 ncstcs_home])\<rparr>)"
    by (simp add: ncstcs_ussd_def ncstcs_default_def reply_def catch_all_def answer_def)
next
  assume a: "userData req \<noteq> ''0'' \<and> userData req \<noteq> ''9'' \<and> cache w (sessionID req) = Some us
            \<and> top us = Some cur \<and> level cur \<notin> Some ` {0, 5, 10, 11, 12, 13, 14, 15, 16, 17, 30}"
  then have "pcrs_switch rt req us w = pcrs_default req w"
    by (simp add: pcrs_switch_def)
  with a assms show "pcrs_ussd rt req w =
            (Some (respond req pcrs_home True),
             w\<lparr>cache := (cache w)(sessionID req \<mapsto> arr [state 0 pcrs_home])\<rparr>)"
    by (simp add: pcrs_ussd_def pcrs_default_def reply_def catch_all_def answer_def)
next
  assume a: "g_cache gw (sessionID req) = Some gs \<and> items gs \<noteq> []
            \<and> level (last (items gs)) \<notin> Some ` ({1, 2} \<union> {10..<20})
            \<and> find (\<lambda>u. gu_msisdn u = msisdn req) (g_users gw) = Some u
            \<and> msisdn req \<noteq> [] \<and> True \<notin> set (g_faults gw)"
  then have r: "\<not> (case level (last (items gs)) of None \<Rightarrow> False | Some l \<Rightarrow> 10 \<le> l \<and> l < 20)"
    by (auto split: option.splits)
  from a have l: "level (last (items gs)) \<noteq> Some 1" "level (last (items gs)) \<noteq> Some 2"
    by auto
  have e: "gp_existing rt req gs (last (items gs)) gw =
      (Returned (respond req ''An error occurred.'' False),
       (g_called (LogActivity (msisdn req) ''menu'' (Menu (level (last (items gs))) (userData req)))
                 (g_called (FindUser (msisdn req)) gw))
                \<lparr>logs := logs gw @
                   [\<lparr>act_msisdn = msisdn req, act_action = ''menu'',
                     act_details = Menu (level (last (items gs))) (userData req),
                     act_timestamp = now gw\<rparr>]\<rparr>)"
    using a l by (simp add: gp_existing_quiet [where u = u] Let_def)
  have g: "gateplus_ussd rt req gw = g_answer (gp_catch req (gp_existing rt req gs (last (items gs)) gw))"
    using a r assms by (simp add: gateplus_ussd_def gp_try_def)
  show "fst (gateplus_ussd rt req gw) = Some (respond req ''An error occurred.'' False)"
    "g_cache (snd (gateplus_ussd rt req gw)) = g_cache gw"
    "g_users (snd (gateplus_ussd rt req gw)) = g_users gw"
    "loans (snd (gateplus_ussd rt req gw)) = loans gw"
    unfolding g e by (simp_all add: gp_catch_def g_answer_def g_called_def)
qed

text \<open>
  Claim C9: at the loan-amount step of GatePlus (top entry at level 2, the subscriber
  known, the repository without faults), an amount that parses to not-a-number or
  lies outside 10 to 1000 is answered with the range prompt, written into the top
  entry, the session continuing and no loan stored; any other amount stores one loan
  with status \<open>loan_pending\<close>, deletes the session and ends the dialog.
\<close>

theorem loan_amount_step:
  assumes "\<not> newSession req" and "g_cache gw (sessionID req) = Some us" and "items us \<noteq> []"
    and "level (last (items us)) = Some 2"
    and "find (\<lambda>u. gu_msisdn u = msisdn req) (g_users gw) = Some u" and "msisdn req \<noteq> []"
    and "True \<notin> set (g_faults gw)"
  shows "(isNaN (parseFloat rt (userData req)) \<or> js_less (parseFloat rt (userData req)) 10
            \<or> js_greater (parseFloat rt (userData req)) 1000 \<longrightarrow>
          fst (gateplus_ussd rt req gw)
            = Some (respond req ''Enter amount between GHS 10 and 1000:'' True)
          \<and> g_cache (snd (gateplus_ussd rt req gw))
              = (g_cache gw)(sessionID req \<mapsto>
                  us\<lparr>items := butlast (items us)
                     @ [(last (items us))\<lparr>message := ''Enter amount between GHS 10 and 1000:''\<rparr>]\<rparr>)
          \<and> loans (snd (gateplus_ussd rt req gw)) = loans gw)
       \<and> (\<not> isNaN (parseFloat rt (userData req)) \<and> \<not> js_less (parseFloat rt (userData req)) 10
            \<and> \<not> js_greater (parseFloat rt (userData req)) 1000 \<longrightarrow>
          fst (gateplus_ussd rt req gw)
            = Some (respond req
                (''Loan request for GHS '' @ numberToString rt (parseFloat rt (userData req))
                 @ '' received!\<newline>Processing... Funds will be sent shortly.'') False)
          \<and> g_cache (snd (gateplus_ussd rt req gw)) = (g_cache gw)(sessionID req := None)
          \<and> loans (snd (gateplus_ussd rt req gw))
              = loans gw @
                [\<lparr>loan_id = Suc (foldr max (map loan_id (loans gw)) 0), loan_userId = gu_id u,
                  loan_msisdn = msisdn req, amount = parseFloat rt (userData req),
                  loan_status = ''loan_pending'', requestedAt = now gw\<rparr>])"
proof -
  have f3: "\<not> fault_next (tl (tl (g_faults gw)))" "\<not> fault_next (tl (tl (tl (g_faults gw))))"
    using assms(7) by (simp_all add: no_fault_next no_fault_tl)
  have g: "gateplus_ussd rt req gw = g_answer (gp_catch req (gp_existing rt req us (last (items us)) gw))"
    using assms(1-4) by (simp add: gateplus_ussd_def gp_try_def)
  show ?thesis
    unfolding g gp_existing_quiet [OF assms(7,6,5)]
    using assms(4,6) f3
    by (simp add: Let_def gp_case2_def gp_retry_def g_save_def g_del_def set_top_def assms(3)
        saveLoan_def loan_acceptable_def logActivity_def g_called_def gp_catch_def g_answer_def)
qed

section \<open>Failures of the repository\<close>

lemma findOne_fault:
  "fault_next (faults w) \<Longrightarrow> findOne q w = (Threw, called (FindOne q) w)"
  by (simp add: findOne_def)

lemma findOne_quiet:
  "\<not> fault_next (faults w) \<Longrightarrow>
     findOne q w = (Returned (find (satisfies q) (users w)), called (FindOne q) w)"
  by (simp add: findOne_def)

lemma register_result:
  "register rt req doc (Some p) ok w =
     (if fault_next (faults w) \<or> \<not> acceptable (doc\<lparr>doc_password := Some (bcrypt_hash rt p)\<rparr>) (users w)
      then finish req ''Registration failed. Try again later.''
             (called (Create (doc\<lparr>doc_password := Some (bcrypt_hash rt p)\<rparr>)) w)
      else finish req ok
             ((called (Create (doc\<lparr>doc_password := Some (bcrypt_hash rt p)\<rparr>)) w)
                \<lparr>users := users w
                   @ [doc\<lparr>doc_password := Some (bcrypt_hash rt p), doc_id := fresh_id (users w)\<rparr>]\<rparr>))"
  by (simp add: register_def create_def Let_def)

lemma silent_reply: "threw_or_silent (reply req us m c w) w"
  by (simp add: threw_or_silent_def reply_def)

lemma silent_retry: "threw_or_silent (retry req us cur m w) w"
  by (simp add: threw_or_silent_def retry_def reply_def)

lemma silent_finish: "threw_or_silent (finish req m w) w"
  by (simp add: threw_or_silent_def finish_def)

lemma silent_finish_byId: "threw_or_silent (finish req m (called (FindById r) w)) w"
  by (simp add: threw_or_silent_def finish_def called_def)

lemma silent_threw: "threw_or_silent (Threw, called (FindOne q) w) w"
  unfolding threw_or_silent_def by (intro disjI1 exI [of _ q]) simp

lemmas silent = silent_reply silent_retry silent_finish silent_threw

lemma silent_case0: "threw_or_silent (ncstcs_case0 req us w) w"
  by (simp add: ncstcs_case0_def silent)

lemma silent_pcrs_case0: "threw_or_silent (pcrs_case0 req us cur w) w"
  by (simp add: pcrs_case0_def findById_def silent silent_finish_byId split: option.splits)

lemma silent_fullName: "threw_or_silent (case_fullName req us cur w) w"
  by (simp add: case_fullName_def Let_def silent)

lemma silent_differ: "threw_or_silent (passwords_differ req us w) w"
  by (simp add: passwords_differ_def Let_def silent)

lemma silent_default: "threw_or_silent (ncstcs_default req w) w" "threw_or_silent (pcrs_default req w) w"
  by (simp_all add: ncstcs_default_def pcrs_default_def silent)

lemma silent_ncstcs_steps:
  assumes "fault_next (faults w)"
  shows "threw_or_silent (ncstcs_case11 req us cur w) w"
    "threw_or_silent (ncstcs_case12 req us cur w) w"
    "threw_or_silent (ncstcs_case13 req us cur w) w"
    "threw_or_silent (ncstcs_case14 req us cur w) w"
    "threw_or_silent (ncstcs_case15 rt req us cur w) w"
    "threw_or_silent (ncstcs_case16 rt req us cur w) w"
    "threw_or_silent (lookup rt summ req us cur w) w"
  by (simp_all add: ncstcs_case11_def ncstcs_case12_def ncstcs_case13_def ncstcs_case14_def
      ncstcs_case15_def ncstcs_case16_def lookup_def Let_def findOne_fault [OF assms] silent
      silent_differ)

lemma silent_pcrs_steps:
  assumes "fault_next (faults w)"
  shows "threw_or_silent (pcrs_case5 req us w) w"
    "threw_or_silent (pcrs_case11 req us cur w) w"
    "threw_or_silent (pcrs_case12 req us cur w) w"
    "threw_or_silent (pcrs_case13 req us cur w) w"
    "threw_or_silent (pcrs_case14 req us cur w) w"
    "threw_or_silent (pcrs_case15 req us cur w) w"
    "threw_or_silent (pcrs_case16 rt req us cur w) w"
    "threw_or_silent (pcrs_case17 rt req us cur w) w"
  by (simp_all add: pcrs_case5_def pcrs_case11_def pcrs_case12_def pcrs_case13_def pcrs_case14_def
      pcrs_case15_def pcrs_case16_def pcrs_case17_def Let_def findOne_fault [OF assms] silent
      silent_differ)

lemma ncstcs_switch_fault:
  assumes "fault_next (faults w)"
  shows "threw_or_silent (ncstcs_switch rt req us w) w"
proof (cases "top us")
  case None
  then show ?thesis
    by (simp add: ncstcs_switch_def threw_or_silent_def)
next
  case (Some cur)
  then show ?thesis
    by (simp add: ncstcs_switch_def silent_case0 silent_fullName silent_default
        silent_ncstcs_steps [OF assms])
qed

lemma pcrs_switch_fault:
  assumes "fault_next (faults w)"
  shows "threw_or_silent (pcrs_switch rt req us w) w"
proof (cases "top us")
  case None
  then show ?thesis
    by (simp add: pcrs_switch_def threw_or_silent_def)
next
  case (Some cur)
  then show ?thesis
    by (simp add: pcrs_switch_def silent_fullName silent_default silent_pcrs_case0
        silent_pcrs_steps [OF assms] silent_ncstcs_steps(7) [OF assms])
qed

lemma catch_all_frame:
  "calls (snd (answer (catch_all req r))) = calls (snd r)"
  "users (snd (answer (catch_all req r))) = users (snd r)"
  by (cases r; cases "fst r"; simp add: answer_def catch_all_def finish_def)+

lemma catch_all_Threw:
  "fst r = Threw \<Longrightarrow>
     fst (answer (catch_all req r)) = Some (respond req unavailable False)
   \<and> cache (snd (answer (catch_all req r))) = (cache (snd r))(sessionID req := None)"
  by (cases r) (simp add: answer_def catch_all_def finish_def)

lemma gp_catch_frame:
  "g_calls (snd (g_answer (gp_catch req r))) = g_calls (snd r)"
  by (cases r; cases "fst r"; simp add: g_answer_def gp_catch_def g_del_def)

lemma gp_catch_Threw:
  "fst r = Threw \<Longrightarrow>
     fst (g_answer (gp_catch req r)) = Some (respond req unavailable False)
   \<and> g_cache (snd (g_answer (gp_catch req r))) = (g_cache (snd r))(sessionID req := None)"
  by (cases r) (simp add: g_answer_def gp_catch_def g_del_def)

lemma db_ops:
  "db_op (findUser m w) w" "db_op (logActivity m a d w) w" "db_op (saveUser u w) w"
  "db_op (saveLoan l w) w" "db_op (findLatestLoan m w) w"
  by (simp_all add: db_op_def findUser_def logActivity_def saveUser_def saveLoan_def
      findLatestLoan_def g_called_def Let_def)

lemma aof_return:
  "length (g_calls w') = length (g_calls w) \<Longrightarrow> g_faults w' = g_faults w \<Longrightarrow> aborts_on_fault (x, w') w"
  unfolding aborts_on_fault_def by (intro exI [of _ 0]) simp

lemma aof_leaves:
  "aborts_on_fault (x, w) w" "aborts_on_fault (x, g_del req w) w"
  "aborts_on_fault (x, g_save req us w) w"
  by (simp_all add: aof_return g_del_def g_save_def)

text \<open>An awaited operation followed by the rest of the handler.\<close>

lemma aof_await:
  assumes "db_op p w"
    and "\<And>v. fst p = Returned v \<Longrightarrow> aborts_on_fault (f v (snd p)) (snd p)"
  shows "aborts_on_fault (case p of (Threw, w') \<Rightarrow> (Threw, w') | (Returned x, w') \<Rightarrow> f x w') w"
proof (cases "fst p")
  case Threw
  then have "(case p of (Threw, w') \<Rightarrow> (Threw, w') | (Returned x, w') \<Rightarrow> f x w') = (Threw, snd p)"
    by (cases p) simp
  then show ?thesis
    using assms(1) unfolding aborts_on_fault_def db_op_def
    by (intro exI [of _ 1]) (simp add: drop_Suc)
next
  case (Returned v)
  then have e: "(case p of (Threw, w') \<Rightarrow> (Threw, w') | (Returned x, w') \<Rightarrow> f x w') = f v (snd p)"
    by (cases p) simp
  from Returned assms(1) have nf: "\<not> fault_next (g_faults w)"
    by (auto simp: db_op_def)
  obtain k where k: "length (g_calls (snd (f v (snd p)))) = length (g_calls (snd p)) + k"
    "g_faults (snd (f v (snd p))) = drop k (g_faults (snd p))"
    "True \<notin> set (take (k - 1) (g_faults (snd p)))"
    "True \<in> set (take k (g_faults (snd p))) \<longrightarrow>
       fst (f v (snd p)) = Threw \<and> g_cache (snd (f v (snd p))) = g_cache (snd p)"
    using assms(2) [OF Returned] unfolding aborts_on_fault_def by blast
  have t: "True \<in> set (take (Suc n) (g_faults w)) \<longleftrightarrow> True \<in> set (take n (tl (g_faults w)))" for n
    using nf by (cases "g_faults w") (auto simp: fault_next_def)
  have b: "True \<notin> set (take k (g_faults w))"
  proof (cases k)
    case 0
    then show ?thesis
      by simp
  next
    case (Suc m)
    with k(3) assms(1) show ?thesis
      by (simp add: t db_op_def)
  qed
  show ?thesis
    unfolding e aborts_on_fault_def
    using k(1,2,4) b t [of k] assms(1) by (intro exI [of _ "Suc k"]) (simp add: db_op_def drop_Suc)
qed

lemma aof_case10: "aborts_on_fault (gp_case10 req us w) w"
  by (simp add: gp_case10_def Let_def aof_leaves)

lemma aof_retry: "aborts_on_fault (gp_retry req us cur m w) w"
  by (simp add: gp_retry_def aof_leaves)

lemma aof_case11: "aborts_on_fault (gp_case11 rt req us cur w) w"
  unfolding gp_case11_def Let_def
  by (auto intro!: aof_await db_ops aof_retry aof_leaves split: option.splits)

lemma aof_case1: "aborts_on_fault (gp_case1 rt req us u w) w"
  unfolding gp_case1_def
  by (auto intro!: aof_await db_ops aof_leaves split: option.splits)

lemma aof_case2: "aborts_on_fault (gp_case2 rt req us cur u w) w"
  unfolding gp_case2_def Let_def
  by (auto intro!: aof_await db_ops aof_retry aof_leaves split: option.splits)

lemma aof_existing: "aborts_on_fault (gp_existing rt req us cur w) w"
  unfolding gp_existing_def
  by (auto intro!: aof_await db_ops aof_case1 aof_case2 aof_leaves split: option.splits)

lemma aof_try: "aborts_on_fault (gp_try rt req us cur w) w"
  by (simp add: gp_try_def gp_registration_def aof_case10 aof_case11 aof_existing aof_leaves)

lemma aof_Threw:
  assumes "aborts_on_fault r w"
    and "True \<in> set (take (length (g_calls (snd r)) - length (g_calls w)) (g_faults w))"
  shows "fst r = Threw \<and> g_cache (snd r) = g_cache w
    \<and> True \<notin> set (take (length (g_calls (snd r)) - length (g_calls w) - 1) (g_faults w))"
proof -
  from assms(1) obtain k where k: "length (g_calls (snd r)) = length (g_calls w) + k"
    "True \<notin> set (take (k - 1) (g_faults w))"
    "True \<in> set (take k (g_faults w)) \<longrightarrow> fst r = Threw \<and> g_cache (snd r) = g_cache w"
    unfolding aborts_on_fault_def by blast
  from k(1) have "length (g_calls (snd r)) - length (g_calls w) = k"
    by simp
  with assms(2) k(2,3) show ?thesis
    by simp
qed

text \<open>Verdicts of which one is a failure, but none before the last: the last one is it.\<close>

lemma first_fault_last:
  assumes "True \<in> set (take n fs)" and "True \<notin> set (take (n - 1) fs)"
  shows "take n fs = replicate (n - 1) False @ [True]"
proof (cases n)
  case 0
  with assms(1) show ?thesis
    by simp
next
  case (Suc m)
  have l: "m < length fs"
  proof (rule ccontr)
    assume "\<not> m < length fs"
    then have "take (Suc m) fs = take m fs"
      by simp
    with assms Suc show False
      by simp
  qed
  then have e: "take (Suc m) fs = take m fs @ [fs ! m]"
    by (rule take_Suc_conv_app_nth)
  from assms Suc e have "fs ! m"
    by auto
  moreover have "take m fs = replicate m False"
  proof -
    have "\<forall>y \<in> set (take m fs). y = False"
      using assms(2) Suc by auto
    then have "replicate (length (take m fs)) False = take m fs"
      by (rule replicate_length_same)
    with l show ?thesis
      by simp
  qed
  ultimately show ?thesis
    using e Suc by simp
qed

text \<open>
  Claim C7, as the program has it. In NCSTCS and PCRS, when the repository fails the
  \<open>findOne\<close> a level-specific transition starts with, the session is deleted and the
  answer is the temporarily-unavailable message with the dialog ended; the failed
  query is the only repository operation of the transition and nothing else of the
  world changes. In GatePlus the same answer and the deletion of the session follow
  from the failure of any repository operation of a transition on an existing
  session, and the operation that fails is the last one called. The failures the
  courier applications catch next to the call are answered differently. A create that
  fails at the end of a sign-up, because the database fails it or turns the document
  down, answers the registration-failed message, with the session deleted, the dialog
  ended and nothing stored. In PCRS a failed lookup of Home on a logged-in session
  answers the menu that greets \<open>Courier\<close>, and a failed lookup by phone at the start
  of a session answers the plain menu, both with the dialog continuing and a single
  home entry stored; a failed \<open>View My Details\<close> answers that the details cannot be
  fetched, with the session deleted and the dialog ended.
\<close>

theorem repository_failure_terminates:
  "(\<not> newSession req \<and> userData req \<noteq> ''0'' \<and> userData req \<noteq> ''9''
      \<and> cache w (sessionID req) = Some us \<and> fault_next (faults w)
      \<and> (\<exists>q cs. calls (snd (ncstcs_ussd rt req w)) = calls w @ FindOne q # cs) \<longrightarrow>
    (\<exists>q. ncstcs_ussd rt req w
       = (Some (respond req unavailable False),
          (called (FindOne q) w)\<lparr>cache := (cache w)(sessionID req := None)\<rparr>)))
 \<and> (\<not> newSession req \<and> userData req \<noteq> ''0'' \<and> userData req \<noteq> ''9''
      \<and> cache w (sessionID req) = Some us \<and> fault_next (faults w)
      \<and> (\<exists>q cs. calls (snd (pcrs_ussd rt req w)) = calls w @ FindOne q # cs) \<longrightarrow>
    (\<exists>q. pcrs_ussd rt req w
       = (Some (respond req unavailable False),
          (called (FindOne q) w)\<lparr>cache := (cache w)(sessionID req := None)\<rparr>)))
 \<and> (\<not> newSession req \<and> g_cache gw (sessionID req) = Some gs \<and> items gs \<noteq> []
      \<and> True \<in> set (take (length (g_calls (snd (gateplus_ussd rt req gw))) - length (g_calls gw))
                     (g_faults gw)) \<longrightarrow>
    fst (gateplus_ussd rt req gw) = Some (respond req unavailable False)
      \<and> g_cache (snd (gateplus_ussd rt req gw)) = (g_cache gw)(sessionID req := None)
      \<and> take (length (g_calls (snd (gateplus_ussd rt req gw))) - length (g_calls gw)) (g_faults gw)
          = replicate (length (g_calls (snd (gateplus_ussd rt req gw))) - length (g_calls gw) - 1) False
            @ [True])
 \<and> (\<not> newSession req \<and> userData req \<noteq> ''0'' \<and> userData req \<noteq> ''9''
      \<and> cache w (sessionID req) = Some us \<and> top us = Some cur \<and> password cur = Some pw
      \<and> isValidGhanaCard (toUpperCase rt (trim (userData req)))
      \<and> \<not> fault_next (faults w)
      \<and> find (satisfies (ByGhanaCardNumber (toUpperCase rt (trim (userData req))))) (users w) = None \<longrightarrow>
    (level cur = Some 16
       \<and> (fault_next (tl (faults w))
          \<or> \<not> acceptable (created rt cur pw None (toUpperCase rt (trim (userData req)))) (users w)) \<longrightarrow>
     ncstcs_ussd rt req w
       = (Some (respond req ''Registration failed. Try again later.'' False),
          (called (Create (created rt cur pw None (toUpperCase rt (trim (userData req)))))
             (called (FindOne (ByGhanaCardNumber (toUpperCase rt (trim (userData req))))) w))
            \<lparr>cache := (cache w)(sessionID req := None)\<rparr>))
    \<and> (level cur = Some 17
       \<and> (fault_next (tl (faults w))
          \<or> \<not> acceptable (created rt cur pw (phone cur) (toUpperCase rt (trim (userData req))))
               (users w)) \<longrightarrow>
     pcrs_ussd rt req w
       = (Some (respond req ''Registration failed. Try again later.'' False),
          (called (Create (created rt cur pw (phone cur) (toUpperCase rt (trim (userData req)))))
             (called (FindOne (ByGhanaCardNumber (toUpperCase rt (trim (userData req))))) w))
            \<lparr>cache := (cache w)(sessionID req := None)\<rparr>)))
 \<and> (\<not> newSession req \<and> userData req = ''0'' \<and> cache w (sessionID req) = Some us
      \<and> first_state us = Some st0 \<and> loggedIn st0 = Some True \<and> fault_next (faults w) \<longrightarrow>
    pcrs_ussd rt req w
      = (Some (respond req (pcrs_menu ''Courier'') True),
         (called (FindById (userRef st0)) w)
           \<lparr>cache := (cache w)(sessionID req \<mapsto>
              arr [logged_in (pcrs_menu ''Courier'') (userRef st0)])\<rparr>))
 \<and> ((newSession req \<or> cache w (sessionID req) = None) \<and> normalizePhone (msisdn req) \<noteq> []
      \<and> fault_next (faults w) \<longrightarrow>
    pcrs_ussd rt req w
      = (Some (respond req pcrs_home True),
         (called (FindOne (ByPhone (normalizePhone (msisdn req)))) w)
           \<lparr>cache := (cache w)(sessionID req \<mapsto> arr [logged_out])\<rparr>))
 \<and> (\<not> newSession req \<and> userData req = ''1'' \<and> cache w (sessionID req) = Some us
      \<and> top us = Some cur \<and> level cur = Some 0 \<and> loggedIn cur = Some True
      \<and> fault_next (faults w) \<longrightarrow>
    pcrs_ussd rt req w
      = (Some (respond req ''Unable to fetch details at the moment.'' False),
         (called (FindById (session_userRef us)) w)
           \<lparr>cache := (cache w)(sessionID req := None)\<rparr>))"
proof (intro conjI impI)
  assume a: "\<not> newSession req \<and> userData req \<noteq> ''0'' \<and> userData req \<noteq> ''9''
      \<and> cache w (sessionID req) = Some us \<and> fault_next (faults w)
      \<and> (\<exists>q cs. calls (snd (ncstcs_ussd rt req w)) = calls w @ FindOne q # cs)"
  have n: "ncstcs_ussd rt req w = answer (catch_all req (ncstcs_switch rt req us w))"
    using a by (simp add: ncstcs_ussd_def)
  from a have "\<exists>q cs. calls (snd (ncstcs_switch rt req us w)) = calls w @ FindOne q # cs"
    by (simp add: n catch_all_frame)
  then obtain q where t: "ncstcs_switch rt req us w = (Threw, called (FindOne q) w)"
    using ncstcs_switch_fault [of w rt req us] a by (auto simp: threw_or_silent_def)
  show "\<exists>q. ncstcs_ussd rt req w
       = (Some (respond req unavailable False),
          (called (FindOne q) w)\<lparr>cache := (cache w)(sessionID req := None)\<rparr>)"
    unfolding n t
    by (intro exI [of _ q]) (simp add: catch_all_def finish_def answer_def called_def)
next
  assume a: "\<not> newSession req \<and> userData req \<noteq> ''0'' \<and> userData req \<noteq> ''9''
      \<and> cache w (sessionID req) = Some us \<and> fault_next (faults w)
      \<and> (\<exists>q cs. calls (snd (pcrs_ussd rt req w)) = calls w @ FindOne q # cs)"
  have n: "pcrs_ussd rt req w = answer (catch_all req (pcrs_switch rt req us w))"
    using a by (simp add: pcrs_ussd_def)
  from a have "\<exists>q cs. calls (snd (pcrs_switch rt req us w)) = calls w @ FindOne q # cs"
    by (simp add: n catch_all_frame)
  then obtain q where t: "pcrs_switch rt req us w = (Threw, called (FindOne q) w)"
    using pcrs_switch_fault [of w rt req us] a by (auto simp: threw_or_silent_def)
  show "\<exists>q. pcrs_ussd rt req w
       = (Some (respond req unavailable False),
          (called (FindOne q) w)\<lparr>cache := (cache w)(sessionID req := None)\<rparr>)"
    unfolding n t
    by (intro exI [of _ q]) (simp add: catch_all_def finish_def answer_def called_def)
next
  assume a: "\<not> newSession req \<and> g_cache gw (sessionID req) = Some gs \<and> items gs \<noteq> []
      \<and> True \<in> set (take (length (g_calls (snd (gateplus_ussd rt req gw))) - length (g_calls gw))
                     (g_faults gw))"
  have n: "gateplus_ussd rt req gw = g_answer (gp_catch req (gp_try rt req gs (last (items gs)) gw))"
    using a by (simp add: gateplus_ussd_def)
  have c: "length (g_calls (snd (gateplus_ussd rt req gw)))
      = length (g_calls (snd (gp_try rt req gs (last (items gs)) gw)))"
    by (simp add: n gp_catch_frame)
  from a have f: "True \<in> set (take (length (g_calls (snd (gp_try rt req gs (last (items gs)) gw)))
      - length (g_calls gw)) (g_faults gw))"
    by (simp add: c)
  then have t: "fst (gp_try rt req gs (last (items gs)) gw) = Threw"
    "g_cache (snd (gp_try rt req gs (last (items gs)) gw)) = g_cache gw"
    "True \<notin> set (take (length (g_calls (snd (gp_try rt req gs (last (items gs)) gw)))
      - length (g_calls gw) - 1) (g_faults gw))"
    using aof_Threw [OF aof_try] by blast+
  show "fst (gateplus_ussd rt req gw) = Some (respond req unavailable False)"
    "g_cache (snd (gateplus_ussd rt req gw)) = (g_cache gw)(sessionID req := None)"
    unfolding n using gp_catch_Threw [OF t(1), of req] t(2)
    by simp_all
  show "take (length (g_calls (snd (gateplus_ussd rt req gw))) - length (g_calls gw)) (g_faults gw)
      = replicate (length (g_calls (snd (gateplus_ussd rt req gw))) - length (g_calls gw) - 1) False
        @ [True]"
    unfolding c using f t(3) by (rule first_fault_last)
next
  assume a: "\<not> newSession req \<and> userData req \<noteq> ''0'' \<and> userData req \<noteq> ''9''
      \<and> cache w (sessionID req) = Some us \<and> top us = Some cur \<and> password cur = Some pw
      \<and> isValidGhanaCard (toUpperCase rt (trim (userData req)))
      \<and> \<not> fault_next (faults w)
      \<and> find (satisfies (ByGhanaCardNumber (toUpperCase rt (trim (userData req))))) (users w) = None"
    and b: "level cur = Some 16
       \<and> (fault_next (tl (faults w))
          \<or> \<not> acceptable (created rt cur pw None (toUpperCase rt (trim (userData req)))) (users w))"
  have q: "\<not> fault_next (faults w)"
    using a by simp
  have "ncstcs_ussd rt req w = answer (catch_all req (ncstcs_case16 rt req us cur w))"
    using a b by (simp add: ncstcs_ussd_def ncstcs_switch_def)
  then show "ncstcs_ussd rt req w
       = (Some (respond req ''Registration failed. Try again later.'' False),
          (called (Create (created rt cur pw None (toUpperCase rt (trim (userData req)))))
             (called (FindOne (ByGhanaCardNumber (toUpperCase rt (trim (userData req))))) w))
            \<lparr>cache := (cache w)(sessionID req := None)\<rparr>)"
    using a b
    by (auto simp: ncstcs_case16_def Let_def findOne_quiet [OF q] register_result
        created_def finish_def called_def catch_all_def answer_def)
next
  assume a: "\<not> newSession req \<and> userData req \<noteq> ''0'' \<and> userData req \<noteq> ''9''
      \<and> cache w (sessionID req) = Some us \<and> top us = Some cur \<and> password cur = Some pw
      \<and> isValidGhanaCard (toUpperCase rt (trim (userData req)))
      \<and> \<not> fault_next (faults w)
      \<and> find (satisfies (ByGhanaCardNumber (toUpperCase rt (trim (userData req))))) (users w) = None"
    and b: "level cur = Some 17
       \<and> (fault_next (tl (faults w))
          \<or> \<not> acceptable (created rt cur pw (phone cur) (toUpperCase rt (trim (userData req))))
               (users w))"
  have q: "\<not> fault_next (faults w)"
    using a by simp
  have "pcrs_ussd rt req w = answer (catch_all req (pcrs_case17 rt req us cur w))"
    using a b by (simp add: pcrs_ussd_def pcrs_switch_def)
  then show "pcrs_ussd rt req w
       = (Some (respond req ''Registration failed. Try again later.'' False),
          (called (Create (created rt cur pw (phone cur) (toUpperCase rt (trim (userData req)))))
             (called (FindOne (ByGhanaCardNumber (toUpperCase rt (trim (userData req))))) w))
            \<lparr>cache := (cache w)(sessionID req := None)\<rparr>)"
    using a b
    by (auto simp: pcrs_case17_def Let_def findOne_quiet [OF q] register_result
        created_def finish_def called_def catch_all_def answer_def)
next
  assume "\<not> newSession req \<and> userData req = ''0'' \<and> cache w (sessionID req) = Some us
      \<and> first_state us = Some st0 \<and> loggedIn st0 = Some True \<and> fault_next (faults w)"
  then show "pcrs_ussd rt req w
      = (Some (respond req (pcrs_menu ''Courier'') True),
         (called (FindById (userRef st0)) w)
           \<lparr>cache := (cache w)(sessionID req \<mapsto>
              arr [logged_in (pcrs_menu ''Courier'') (userRef st0)])\<rparr>)"
    by (simp add: pcrs_ussd_def pcrs_go_home_def session_userRef_def findById_def reply_def
        answer_def called_def)
next
  assume a: "(newSession req \<or> cache w (sessionID req) = None) \<and> normalizePhone (msisdn req) \<noteq> []
      \<and> fault_next (faults w)"
  then have "pcrs_ussd rt req w = answer (pcrs_start req w)"
    by (auto simp: pcrs_ussd_def split: option.splits)
  then show "pcrs_ussd rt req w
      = (Some (respond req pcrs_home True),
         (called (FindOne (ByPhone (normalizePhone (msisdn req)))) w)
           \<lparr>cache := (cache w)(sessionID req \<mapsto> arr [logged_out])\<rparr>)"
    using a by (simp add: pcrs_start_def Let_def findOne_fault reply_def answer_def called_def)
next
  assume "\<not> newSession req \<and> userData req = ''1'' \<and> cache w (sessionID req) = Some us
      \<and> top us = Some cur \<and> level cur = Some 0 \<and> loggedIn cur = Some True
      \<and> fault_next (faults w)"
  then show "pcrs_ussd rt req w
      = (Some (respond req ''Unable to fetch details at the moment.'' False),
         (called (FindById (session_userRef us)) w)
           \<lparr>cache := (cache w)(sessionID req := None)\<rparr>)"
    by (simp add: pcrs_ussd_def pcrs_switch_def pcrs_case0_def findById_def finish_def
        catch_all_def answer_def called_def)
qed

section \<open>The end of a sign-up, and absent sessions\<close>

lemma duplicate_doc_id: "duplicate d (u\<lparr>doc_id := i\<rparr>) = duplicate d u"
  by (simp add: duplicate_def)

text \<open>
  Claim C1, as the program has it: with a well-formed card that no stored user has,
  the last step of a sign-up (level 16 in NCSTCS, 17 in PCRS) asks the repository for
  the card only and then issues the create; username, email, phone and licence number
  are not asked for again. A value that a stored user holds by then is caught by the
  repository alone, which turns the create down: the answer is the failure message
  and nothing is stored. A stored document, in turn, makes the repository turn down
  every later document that shares a unique value with it.
\<close>

theorem final_step_checks_card_only:
  assumes "\<not> newSession req" and "userData req \<noteq> ''0''" and "userData req \<noteq> ''9''"
    and "cache w (sessionID req) = Some us" and "top us = Some cur"
    and "password cur = Some pw"
    and "isValidGhanaCard (toUpperCase rt (trim (userData req)))"
    and "\<not> fault_next (faults w)"
    and "find (satisfies (ByGhanaCardNumber (toUpperCase rt (trim (userData req))))) (users w) = None"
  shows "(level cur = Some 16 \<longrightarrow>
           registration_outcome (ncstcs_ussd rt req w) req w (toUpperCase rt (trim (userData req)))
             (created rt cur pw None (toUpperCase rt (trim (userData req))))
             ''Registration successful!'')
       \<and> (level cur = Some 17 \<longrightarrow>
           registration_outcome (pcrs_ussd rt req w) req w (toUpperCase rt (trim (userData req)))
             (created rt cur pw (phone cur) (toUpperCase rt (trim (userData req))))
             pcrs_registered)"
proof (intro conjI impI)
  assume l: "level cur = Some 16"
  have "ncstcs_ussd rt req w = answer (catch_all req (ncstcs_case16 rt req us cur w))"
    using assms(1-5) l by (simp add: ncstcs_ussd_def ncstcs_switch_def)
  then show "registration_outcome (ncstcs_ussd rt req w) req w (toUpperCase rt (trim (userData req)))
             (created rt cur pw None (toUpperCase rt (trim (userData req))))
             ''Registration successful!''"
    using assms(6,7,9)
    by (simp add: ncstcs_case16_def Let_def findOne_quiet [OF assms(8)] register_result
        registration_outcome_def created_def finish_def called_def catch_all_def answer_def
        acceptable_def duplicate_def)
next
  assume l: "level cur = Some 17"
  have "pcrs_ussd rt req w = answer (catch_all req (pcrs_case17 rt req us cur w))"
    using assms(1-5) l by (simp add: pcrs_ussd_def pcrs_switch_def)
  then show "registration_outcome (pcrs_ussd rt req w) req w (toUpperCase rt (trim (userData req)))
             (created rt cur pw (phone cur) (toUpperCase rt (trim (userData req))))
             pcrs_registered"
    using assms(6,7,9)
    by (simp add: pcrs_case17_def Let_def findOne_quiet [OF assms(8)] register_result
        registration_outcome_def created_def finish_def called_def catch_all_def answer_def
        acceptable_def duplicate_def)
qed

lemma pcrs_start_shape:
  "\<exists>st. fst (pcrs_start req w) = Returned (respond req (message st) True)
      \<and> cache (snd (pcrs_start req w)) = (cache w)(sessionID req \<mapsto> arr [st])
      \<and> level st = Some 0
      \<and> users (snd (pcrs_start req w)) = users w"
proof -
  obtain r w1 where q: "(if normalizePhone (msisdn req) \<noteq> []
        then findOne (ByPhone (normalizePhone (msisdn req))) w else (Returned None, w)) = (r, w1)"
    by (cases "if normalizePhone (msisdn req) \<noteq> []
        then findOne (ByPhone (normalizePhone (msisdn req))) w else (Returned None, w)") blast
  then have f: "users w1 = users w" "cache w1 = cache w"
    by (auto simp: findOne_def called_def split: if_splits)
  have out: "logged_out = logged_out\<lparr>message := pcrs_home\<rparr>" "level logged_out = Some 0"
    "message logged_out = pcrs_home"
    by (simp_all add: logged_out_def state_def)
  show ?thesis
  proof (cases r)
    case Threw
    with q f out show ?thesis
      by (intro exI [of _ logged_out]) (simp add: pcrs_start_def Let_def reply_def)
  next
    case (Returned found)
    show ?thesis
    proof (cases found)
      case None
      with Returned q f out show ?thesis
        by (intro exI [of _ logged_out]) (simp add: pcrs_start_def Let_def reply_def)
    next
      case (Some existing)
      with Returned q f show ?thesis
        by (intro exI [of _ "logged_in (pcrs_menu (displayName (Some existing))) (Some (doc_id existing))"])
          (simp add: pcrs_start_def Let_def reply_def logged_in_def state_def)
    qed
  qed
qed

text \<open>
  Claim C2, as the program has it: a request that is not a new session and whose
  session is absent is answered by GatePlus with the session-expired message, the
  dialog ended and the world untouched; NCSTCS and PCRS start a session instead: a
  single entry at level 0 is stored, its menu is answered and the session continues.
\<close>

theorem absent_session:
  assumes "\<not> newSession req"
  shows "(g_cache gw (sessionID req) = None
            \<or> (\<exists>gs. g_cache gw (sessionID req) = Some gs \<and> items gs = []) \<longrightarrow>
          gateplus_ussd rt req gw
            = (Some (respond req ''Session expired. Please restart.'' False), gw))
       \<and> (cache w (sessionID req) = None \<longrightarrow>
          ncstcs_ussd rt req w =
            (Some (respond req ncstcs_home True),
             w\<lparr>cache := (cache w)(sessionID req \<mapsto> arr [state 0 ncstcs_home])\<rparr>)
          \<and> (\<exists>st. fst (pcrs_ussd rt req w) = Some (respond req (message st) True)
                \<and> cache (snd (pcrs_ussd rt req w)) = (cache w)(sessionID req \<mapsto> arr [st])
                \<and> level st = Some 0
                \<and> users (snd (pcrs_ussd rt req w)) = users w))"
proof (intro conjI impI)
  assume "g_cache gw (sessionID req) = None
            \<or> (\<exists>gs. g_cache gw (sessionID req) = Some gs \<and> items gs = [])"
  with assms show "gateplus_ussd rt req gw
            = (Some (respond req ''Session expired. Please restart.'' False), gw)"
    by (auto simp: gateplus_ussd_def g_answer_def)
next
  assume "cache w (sessionID req) = None"
  then show "ncstcs_ussd rt req w =
            (Some (respond req ncstcs_home True),
             w\<lparr>cache := (cache w)(sessionID req \<mapsto> arr [state 0 ncstcs_home])\<rparr>)"
    by (simp add: ncstcs_ussd_def reply_def answer_def)
next
  assume a: "cache w (sessionID req) = None"
  have p: "pcrs_ussd rt req w = answer (pcrs_start req w)"
    using a by (simp add: pcrs_ussd_def)
  obtain st where st: "fst (pcrs_start req w) = Returned (respond req (message st) True)"
    "cache (snd (pcrs_start req w)) = (cache w)(sessionID req \<mapsto> arr [st])"
    "level st = Some 0" "users (snd (pcrs_start req w)) = users w"
    using pcrs_start_shape [of req w] by blast
  have "answer (pcrs_start req w) = (Some (respond req (message st) True), snd (pcrs_start req w))"
    using st(1) by (cases "pcrs_start req w") (simp add: answer_def)
  with st(2-4) show "\<exists>st. fst (pcrs_ussd rt req w) = Some (respond req (message st) True)
                \<and> cache (snd (pcrs_ussd rt req w)) = (cache w)(sessionID req \<mapsto> arr [st])
                \<and> level st = Some 0
                \<and> users (snd (pcrs_ussd rt req w)) = users w"
    unfolding p by (intro exI [of _ st]) simp
qed

section \<open>The concrete sessions, run\<close>

lemma trim_secret2: "trim ''secret2'' = ''secret2''"
  by code_simp

lemma kwame_username_ok: "test_anchored username_rx ''kwame''"
  by code_simp

lemma kwame_no_card: "\<not> isValidGhanaCard (toUpperCase ascii_runtime (trim ''kwame''))"
  by code_simp

lemma card_ok: "isValidGhanaCard (toUpperCase ascii_runtime (trim ''GHA-123456789-01''))"
  by code_simp

lemma card_upper: "toUpperCase ascii_runtime (trim ''GHA-123456789-01'') = ''GHA-123456789-01''"
  by code_simp

lemma phone_normal: "normalizePhone ''0551234567'' = ''+233551234567''"
  by code_simp

text \<open>A card in lower case with blanks around it is accepted.\<close>

theorem ghanaCard_shape_witness:
  "isValidGhanaCard ''  gha-123456789-01 ''"
proof -
  have t: "trim ''  gha-123456789-01 '' = ''gha-123456789-01''"
    by code_simp
  have d: "list_all isDigit ''123456789''" "list_all isDigit ''01''"
    by code_simp+
  show ?thesis
    unfolding ghanaCard_shape t
    using d
    by (intro exI [of _ "CHR ''g''"] exI [of _ "CHR ''h''"] exI [of _ "CHR ''a''"]
        exI [of _ "''123456789''"] exI [of _ "''01''"]) simp
qed

text \<open>Back from the name step of a sign-up returns to the menu; Back on the menu alone, three times over, changes nothing.\<close>

theorem back_navigation_witness:
  "\<not> newSession (ask ''9'') \<and> userData (ask ''9'') = ''9''
   \<and> cache (courier_world [home_state, name_state] [] []) (sessionID (ask ''9''))
       = Some (arr [home_state, name_state])
   \<and> length (items (arr [home_state, name_state])) > 1
   \<and> ncstcs_ussd ascii_runtime (ask ''9'') (courier_world [home_state, name_state] [] [])
       = (Some (respond (ask ''9'') ncstcs_home True), courier_world [home_state] [] [])
   \<and> cache (courier_world [home_state] [] []) (sessionID (ask ''9'')) = Some (arr [home_state])
   \<and> length (items (arr [home_state])) = 1
   \<and> ((\<lambda>v. snd (pcrs_ussd ascii_runtime (ask ''9'') v)) ^^ 3) (courier_world [home_state] [] [])
       = courier_world [home_state] [] []
   \<and> fst (pcrs_ussd ascii_runtime (ask ''9'')
        (((\<lambda>v. snd (pcrs_ussd ascii_runtime (ask ''9'') v)) ^^ 3) (courier_world [home_state] [] [])))
       = Some (respond (ask ''9'') ncstcs_home True)"
proof -
  have q: "\<not> newSession (ask ''9'')" "userData (ask ''9'') = ''9''"
    by (simp_all add: ask_def)
  have c2: "cache (courier_world [home_state, name_state] [] []) (sessionID (ask ''9''))
       = Some (arr [home_state, name_state])"
    by (simp add: ask_def courier_world_def)
  have c1: "cache (courier_world [home_state] [] []) (sessionID (ask ''9'')) = Some (arr [home_state])"
    by (simp add: ask_def courier_world_def)
  have d2: "length (items (arr [home_state, name_state])) > 1"
    and d1: "length (items (arr [home_state])) = 1"
    by (simp_all add: arr_def)
  have "ncstcs_ussd ascii_runtime (ask ''9'') (courier_world [home_state, name_state] [] [])
       = (Some (respond (ask ''9'') (message (last (butlast (items (arr [home_state, name_state]))))) True),
          (courier_world [home_state, name_state] [] [])
            \<lparr>cache := (cache (courier_world [home_state, name_state] [] []))
               (sessionID (ask ''9'') \<mapsto>
                 (arr [home_state, name_state])\<lparr>items := butlast (items (arr [home_state, name_state]))\<rparr>)\<rparr>)"
    using back_navigation [OF q(1) c2 q(2), of ascii_runtime 0] d2 by blast
  then have a: "ncstcs_ussd ascii_runtime (ask ''9'') (courier_world [home_state, name_state] [] [])
       = (Some (respond (ask ''9'') ncstcs_home True), courier_world [home_state] [] [])"
    by (simp add: arr_def courier_world_def ask_def home_state_def state_def)
  have b: "((\<lambda>v. snd (pcrs_ussd ascii_runtime (ask ''9'') v)) ^^ 3) (courier_world [home_state] [] [])
       = courier_world [home_state] [] []"
    "fst (pcrs_ussd ascii_runtime (ask ''9'')
        (((\<lambda>v. snd (pcrs_ussd ascii_runtime (ask ''9'') v)) ^^ 3) (courier_world [home_state] [] [])))
       = Some (respond (ask ''9'') (message (last (items (arr [home_state])))) True)"
    using back_navigation [OF q(1) c1 q(2), of ascii_runtime 3] d1 by blast+
  have m: "message (last (items (arr [home_state]))) = ncstcs_home"
    by (simp add: arr_def home_state_def state_def)
  show ?thesis
    using q c2 c1 d2 d1 a b unfolding m by blast
qed

text \<open>Home from the lookup step of a logged-in PCRS session: one entry, the menu with the name of the courier.\<close>

theorem home_navigation_witness:
  "\<not> newSession (ask ''0'') \<and> userData (ask ''0'') = ''0''
   \<and> cache (courier_world kwame_session [stored_kwame] []) (sessionID (ask ''0''))
       = Some (arr kwame_session)
   \<and> length (items (arr kwame_session)) = 2
   \<and> ncstcs_ussd ascii_runtime (ask ''0'') (courier_world kwame_session [stored_kwame] [])
       = (Some (respond (ask ''0'') ncstcs_home True),
          courier_world [state 0 ncstcs_home] [stored_kwame] [])
   \<and> (\<exists>st. fst (pcrs_ussd ascii_runtime (ask ''0'') (courier_world kwame_session [stored_kwame] []))
              = Some (respond (ask ''0'') (message st) True)
          \<and> cache (snd (pcrs_ussd ascii_runtime (ask ''0'') (courier_world kwame_session [stored_kwame] [])))
              ''s1'' = Some (arr [st])
          \<and> level st = Some 0 \<and> loggedIn st = Some True
          \<and> message st = pcrs_menu ''Kwame Boateng'')"
proof -
  let ?w = "courier_world kwame_session [stored_kwame] []"
  have q: "\<not> newSession (ask ''0'')" "userData (ask ''0'') = ''0''"
    by (simp_all add: ask_def)
  have c: "cache ?w (sessionID (ask ''0'')) = Some (arr kwame_session)"
    by (simp add: ask_def courier_world_def)
  have d: "length (items (arr kwame_session)) = 2"
    by (simp add: arr_def kwame_session_def)
  have li: "(case first_state (arr kwame_session) of None \<Rightarrow> None | Some x \<Rightarrow> loggedIn x) = Some True"
    "session_userRef (arr kwame_session) = Some 1"
    by (simp_all add: first_state_def session_userRef_def arr_def kwame_session_def logged_in_def
        state_def)
  have dn: "\<not> fault_next (faults ?w)"
    "displayName (find (\<lambda>u. doc_id u = 1) (users ?w)) = ''Kwame Boateng''"
    by (simp_all add: courier_world_def fault_next_def stored_kwame_def displayName_def or_else_def)
  note h = home_navigation [OF q(1) c q(2), of ascii_runtime]
  from h have "ncstcs_ussd ascii_runtime (ask ''0'') ?w
      = (Some (respond (ask ''0'') ncstcs_home True),
         ?w\<lparr>cache := (cache ?w)(sessionID (ask ''0'') \<mapsto> arr [state 0 ncstcs_home])\<rparr>)"
    by blast
  then have a: "ncstcs_ussd ascii_runtime (ask ''0'') ?w
      = (Some (respond (ask ''0'') ncstcs_home True),
          courier_world [state 0 ncstcs_home] [stored_kwame] [])"
    by (simp add: courier_world_def ask_def)
  from h obtain st where st:
    "fst (pcrs_ussd ascii_runtime (ask ''0'') ?w) = Some (respond (ask ''0'') (message st) True)"
    "cache (snd (pcrs_ussd ascii_runtime (ask ''0'') ?w)) = (cache ?w)(sessionID (ask ''0'') \<mapsto> arr [st])"
    "level st = Some 0"
    "loggedIn st = Some True"
    "message st = pcrs_menu (displayName (find (\<lambda>u. doc_id u = 1) (users ?w)))"
    unfolding li using dn(1) by auto
  have b: "\<exists>st. fst (pcrs_ussd ascii_runtime (ask ''0'') ?w)
              = Some (respond (ask ''0'') (message st) True)
          \<and> cache (snd (pcrs_ussd ascii_runtime (ask ''0'') ?w)) ''s1'' = Some (arr [st])
          \<and> level st = Some 0 \<and> loggedIn st = Some True
          \<and> message st = pcrs_menu ''Kwame Boateng''"
    using st dn(2) by (intro exI [of _ st]) (simp add: ask_def)
  show ?thesis
    using q c d a b by blast
qed

text \<open>A confirmation that differs from the password \<open>secret1\<close>, in both applications.\<close>

theorem confirm_password_mismatch_witness:
  "\<not> newSession (ask ''secret2'')
   \<and> Some (trim (userData (ask ''secret2''))) \<noteq> password (confirm_state 13)
   \<and> level (confirm_state 13) = Some 14 \<and> level (confirm_state 14) = Some 15
   \<and> store_ok 13 (cache (courier_world [home_state, password_state 13, confirm_state 13] [] []))
   \<and> store_ok 14 (cache (courier_world [home_state, password_state 14, confirm_state 14] [] []))
   \<and> level (password_state 13) = Some 13 \<and> level (password_state 14) = Some 14
   \<and> ncstcs_ussd ascii_runtime (ask ''secret2'')
        (courier_world [home_state, password_state 13, confirm_state 13] [] [])
      = (Some (respond (ask ''secret2'') ''Passwords do not match. Create Password:'' True),
         courier_world
           [home_state, (password_state 13)\<lparr>message := ''Passwords do not match. Create Password:''\<rparr>]
           [] [])
   \<and> pcrs_ussd ascii_runtime (ask ''secret2'')
        (courier_world [home_state, password_state 14, confirm_state 14] [] [])
      = (Some (respond (ask ''secret2'') ''Passwords do not match. Create Password:'' True),
         courier_world
           [home_state, (password_state 14)\<lparr>message := ''Passwords do not match. Create Password:''\<rparr>]
           [] [])"
proof -
  let ?q = "ask ''secret2''"
  have q: "\<not> newSession ?q" "userData ?q \<noteq> ''0''" "userData ?q \<noteq> ''9''"
    by (simp_all add: ask_def)
  have p: "Some (trim (userData ?q)) \<noteq> password (confirm_state 13)"
    "Some (trim (userData ?q)) \<noteq> password (confirm_state 14)"
    by (simp_all add: ask_def trim_secret2 confirm_state_def)
  have l: "level (confirm_state 13) = Some 14" "level (confirm_state 14) = Some 15"
    by (simp_all add: confirm_state_def)
  have c: "cache (courier_world [home_state, password_state l, confirm_state l] [] []) (sessionID ?q)
      = Some (arr [home_state, password_state l, confirm_state l])" for l
    by (simp add: ask_def courier_world_def)
  have i: "items (arr [home_state, password_state l, confirm_state l])
      = [home_state] @ [password_state l, confirm_state l]" for l
    by (simp add: arr_def)
  have o: "store_ok l (cache (courier_world [home_state, password_state l, confirm_state l] [] []))"
    for l
    by (simp add: store_ok_def stack_ok_def courier_world_def arr_def home_state_def
        password_state_def confirm_state_def state_def)
  have a: "ncstcs_ussd ascii_runtime ?q
        (courier_world [home_state, password_state 13, confirm_state 13] [] [])
      = (Some (respond ?q ''Passwords do not match. Create Password:'' True),
         courier_world
           [home_state, (password_state 13)\<lparr>message := ''Passwords do not match. Create Password:''\<rparr>]
           [] [])"
    using confirm_password_mismatch [OF q(1) c q(2,3) i p(1), of ascii_runtime] l(1)
    by (simp add: courier_world_def arr_def ask_def)
  have b: "pcrs_ussd ascii_runtime ?q
        (courier_world [home_state, password_state 14, confirm_state 14] [] [])
      = (Some (respond ?q ''Passwords do not match. Create Password:'' True),
         courier_world
           [home_state, (password_state 14)\<lparr>message := ''Passwords do not match. Create Password:''\<rparr>]
           [] [])"
    using confirm_password_mismatch [OF q(1) c q(2,3) i p(2), of ascii_runtime] l(2)
    by (simp add: courier_world_def arr_def ask_def)
  have d: "level (password_state 13) = Some 13"
    using confirm_password_mismatch [OF q(1) c q(2,3) i p(1), of ascii_runtime] l(1) o [of 13]
    by blast
  have e: "level (password_state 14) = Some 14"
    using confirm_password_mismatch [OF q(1) c q(2,3) i p(2), of ascii_runtime] l(2) o [of 14]
    by blast
  show ?thesis
    using q p l o [of 13] o [of 14] a b d e by blast
qed

text \<open>NCSTCS, no session stored, not a new session: the menu is answered, the session continues and a session is written.\<close>

theorem absent_session_counterexample:
  "\<not> newSession (ask ''1'') \<and> cache no_sessions (sessionID (ask ''1'')) = None
   \<and> fst (ncstcs_ussd ascii_runtime (ask ''1'') no_sessions)
       = Some (respond (ask ''1'') ncstcs_home True)
   \<and> continueSession (respond (ask ''1'') ncstcs_home True)
   \<and> cache (snd (ncstcs_ussd ascii_runtime (ask ''1'') no_sessions)) ''s1''
       = Some (arr [state 0 ncstcs_home])"
  by (simp add: ncstcs_ussd_def ask_def no_sessions_def reply_def answer_def respond_def)

text \<open>The three applications on a store without sessions.\<close>

theorem absent_session_witness:
  "\<not> newSession (ask ''1'') \<and> g_cache no_gateplus_sessions (sessionID (ask ''1'')) = None
   \<and> cache no_sessions (sessionID (ask ''1'')) = None
   \<and> gateplus_ussd ascii_runtime (ask ''1'') no_gateplus_sessions
       = (Some (respond (ask ''1'') ''Session expired. Please restart.'' False), no_gateplus_sessions)
   \<and> fst (ncstcs_ussd ascii_runtime (ask ''1'') no_sessions)
       = Some (respond (ask ''1'') ncstcs_home True)
   \<and> (\<exists>st :: dstate. fst (pcrs_ussd ascii_runtime (ask ''1'') no_sessions)
              = Some (respond (ask ''1'') (message st) True) \<and> level st = Some 0)"
proof -
  have q: "\<not> newSession (ask ''1'')"
    by (simp add: ask_def)
  have g: "g_cache no_gateplus_sessions (sessionID (ask ''1'')) = None"
    by (simp add: no_gateplus_sessions_def)
  have c: "cache no_sessions (sessionID (ask ''1'')) = None"
    by (simp add: no_sessions_def)
  note h = absent_session [OF q, where gw = no_gateplus_sessions and w = no_sessions
      and rt = ascii_runtime]
  from h g have a: "gateplus_ussd ascii_runtime (ask ''1'') no_gateplus_sessions
       = (Some (respond (ask ''1'') ''Session expired. Please restart.'' False), no_gateplus_sessions)"
    by blast
  from h c have b: "fst (ncstcs_ussd ascii_runtime (ask ''1'') no_sessions)
       = Some (respond (ask ''1'') ncstcs_home True)"
    by simp
  from h [THEN conjunct2, rule_format, OF c, THEN conjunct2]
  obtain st :: dstate where "fst (pcrs_ussd ascii_runtime (ask ''1'') no_sessions)
      = Some (respond (ask ''1'') (message st) True)" "level st = Some 0"
    by (elim exE conjE) blast
  then have d: "\<exists>st :: dstate. fst (pcrs_ussd ascii_runtime (ask ''1'') no_sessions)
              = Some (respond (ask ''1'') (message st) True) \<and> level st = Some 0"
    by (intro exI [of _ st]) simp
  show ?thesis
    using q g c a b d by blast
qed

text \<open>The input \<open>kwame\<close> at level 11: a username that is taken in NCSTCS and PCRS, and no Ghana card in GatePlus.\<close>

theorem retry_in_place_witness:
  "\<not> newSession (ask ''kwame'')
   \<and> ncstcs_rejects ascii_runtime 11 (userData (ask ''kwame''))
        (courier_world [home_state, username_state] [stored_kwame] [])
   \<and> pcrs_rejects ascii_runtime 11 (userData (ask ''kwame''))
        (courier_world [home_state, username_state] [stored_kwame] [])
   \<and> gateplus_rejects ascii_runtime 11 (userData (ask ''kwame''))
   \<and> (\<exists>m. fst (ncstcs_ussd ascii_runtime (ask ''kwame'')
                (courier_world [home_state, username_state] [stored_kwame] []))
              = Some (respond (ask ''kwame'') m True)
          \<and> cache (snd (ncstcs_ussd ascii_runtime (ask ''kwame'')
                (courier_world [home_state, username_state] [stored_kwame] []))) ''s1''
              = Some (arr [home_state, username_state\<lparr>message := m\<rparr>]))
   \<and> (\<exists>m. fst (pcrs_ussd ascii_runtime (ask ''kwame'')
                (courier_world [home_state, username_state] [stored_kwame] []))
              = Some (respond (ask ''kwame'') m True)
          \<and> cache (snd (pcrs_ussd ascii_runtime (ask ''kwame'')
                (courier_world [home_state, username_state] [stored_kwame] []))) ''s1''
              = Some (arr [home_state, username_state\<lparr>message := m\<rparr>]))
   \<and> (\<exists>m. gateplus_ussd ascii_runtime (ask ''kwame'')
                (gateplus_world [home_state, username_state] [] [])
              = (Some (respond (ask ''kwame'') m True),
                 gateplus_world [home_state, username_state\<lparr>message := m\<rparr>] [] []))"
proof -
  let ?q = "ask ''kwame''"
  let ?w = "courier_world [home_state, username_state] [stored_kwame] []"
  let ?g = "gateplus_world [home_state, username_state] [] []"
  let ?us = "arr [home_state, username_state]"
  have q: "\<not> newSession ?q" "userData ?q \<noteq> ''0''" "userData ?q \<noteq> ''9''"
    by (simp_all add: ask_def)
  have c: "cache ?w (sessionID ?q) = Some ?us" "top ?us = Some username_state"
    "level username_state = Some 11"
    by (simp_all add: ask_def courier_world_def top_def arr_def username_state_def state_def)
  have g: "g_cache ?g (sessionID ?q) = Some ?us" "items ?us \<noteq> []"
    "level (last (items ?us)) = Some 11"
    by (simp_all add: ask_def gateplus_world_def arr_def username_state_def state_def)
  have t: "taken (ByUsername (trim ''kwame'')) ?w"
    by (simp add: taken_def courier_world_def fault_next_def stored_kwame_def trim_def
        isWhiteSpace_def)
  have r: "ncstcs_rejects ascii_runtime 11 (userData ?q) ?w"
    "pcrs_rejects ascii_runtime 11 (userData ?q) ?w"
    "gateplus_rejects ascii_runtime 11 (userData ?q)"
    using t kwame_no_card
    by (simp_all add: ncstcs_rejects_def pcrs_rejects_def gateplus_rejects_def ask_def Let_def)
  have s: "set_top ?us (username_state\<lparr>message := m\<rparr>)
      = arr [home_state, username_state\<lparr>message := m\<rparr>]" for m
    by (simp add: set_top_def arr_def)
  have s': "set_top ?us ((last (items ?us))\<lparr>message := m\<rparr>)
      = arr [home_state, username_state\<lparr>message := m\<rparr>]" for m
    by (simp add: set_top_def arr_def)
  note h = retry_in_place [OF q(1), where w = ?w and us = ?us and cur = username_state and l = 11
      and rt = ascii_runtime and gw = ?g and gs = ?us]
  from h q c r(1) obtain m1 where
    "fst (ncstcs_ussd ascii_runtime ?q ?w) = Some (respond ?q m1 True)"
    "cache (snd (ncstcs_ussd ascii_runtime ?q ?w))
      = (cache ?w)(sessionID ?q \<mapsto> set_top ?us (username_state\<lparr>message := m1\<rparr>))"
    by blast
  then have a: "\<exists>m. fst (ncstcs_ussd ascii_runtime ?q ?w) = Some (respond ?q m True)
          \<and> cache (snd (ncstcs_ussd ascii_runtime ?q ?w)) ''s1''
              = Some (arr [home_state, username_state\<lparr>message := m\<rparr>])"
    by (intro exI [of _ m1]) (simp add: s ask_def)
  from h q c r(2) obtain m2 where
    "fst (pcrs_ussd ascii_runtime ?q ?w) = Some (respond ?q m2 True)"
    "cache (snd (pcrs_ussd ascii_runtime ?q ?w))
      = (cache ?w)(sessionID ?q \<mapsto> set_top ?us (username_state\<lparr>message := m2\<rparr>))"
    by blast
  then have b: "\<exists>m. fst (pcrs_ussd ascii_runtime ?q ?w) = Some (respond ?q m True)
          \<and> cache (snd (pcrs_ussd ascii_runtime ?q ?w)) ''s1''
              = Some (arr [home_state, username_state\<lparr>message := m\<rparr>])"
    by (intro exI [of _ m2]) (simp add: s ask_def)
  from h g r(3) obtain m3 where
    "gateplus_ussd ascii_runtime ?q ?g =
       (Some (respond ?q m3 True),
        if (11::nat) = 10 then ?g
        else ?g\<lparr>g_cache := (g_cache ?g)(sessionID ?q \<mapsto>
               set_top ?us ((last (items ?us))\<lparr>message := m3\<rparr>))\<rparr>)"
    by blast
  then have d: "\<exists>m. gateplus_ussd ascii_runtime ?q ?g
              = (Some (respond ?q m True),
                 gateplus_world [home_state, username_state\<lparr>message := m\<rparr>] [] [])"
    by (intro exI [of _ m3]) (simp add: s' gateplus_world_def ask_def)
  show ?thesis
    using q(1) r a b d by blast
qed

text \<open>GatePlus with the top entry at level 3: the dialog ends and the session is not reset.\<close>

theorem unknown_level_counterexample:
  "\<not> newSession (ask ''1'')
   \<and> g_cache (gateplus_world [state 3 ''Menu''] [ama] []) (sessionID (ask ''1''))
       = Some (arr [state 3 ''Menu''])
   \<and> fst (gateplus_ussd ascii_runtime (ask ''1'') (gateplus_world [state 3 ''Menu''] [ama] []))
       = Some (respond (ask ''1'') ''An error occurred.'' False)
   \<and> \<not> continueSession (respond (ask ''1'') ''An error occurred.'' False)
   \<and> g_cache (snd (gateplus_ussd ascii_runtime (ask ''1'')
        (gateplus_world [state 3 ''Menu''] [ama] []))) ''s1''
       = Some (arr [state 3 ''Menu''])"
  by (simp add: gateplus_ussd_def gp_try_def gp_existing_def findUser_def logActivity_def
      g_called_def gp_catch_def g_answer_def ask_def gateplus_world_def ama_def arr_def state_def
      fault_next_def respond_def)

text \<open>Level 99 in the courier applications, level 3 in GatePlus.\<close>

theorem unknown_level_witness:
  "\<not> newSession (ask ''1'')
   \<and> level (state 99 ''?'') \<notin> Some ` {0, 5, 10, 11, 12, 13, 14, 15, 16, 17, 30}
   \<and> ncstcs_ussd ascii_runtime (ask ''1'') (courier_world [home_state, state 99 ''?''] [] [])
       = (Some (respond (ask ''1'') ncstcs_home True), courier_world [state 0 ncstcs_home] [] [])
   \<and> pcrs_ussd ascii_runtime (ask ''1'') (courier_world [home_state, state 99 ''?''] [] [])
       = (Some (respond (ask ''1'') pcrs_home True), courier_world [state 0 pcrs_home] [] [])
   \<and> level (last (items (arr [state 3 ''Menu'']))) \<notin> Some ` ({1, 2} \<union> {10..<20})
   \<and> fst (gateplus_ussd ascii_runtime (ask ''1'') (gateplus_world [state 3 ''Menu''] [ama] []))
       = Some (respond (ask ''1'') ''An error occurred.'' False)
   \<and> g_cache (snd (gateplus_ussd ascii_runtime (ask ''1'')
         (gateplus_world [state 3 ''Menu''] [ama] [])))
       = g_cache (gateplus_world [state 3 ''Menu''] [ama] [])"
proof -
  let ?q = "ask ''1''"
  let ?w = "courier_world [home_state, state 99 ''?''] [] []"
  let ?us = "arr [home_state, state 99 ''?'']"
  let ?g = "gateplus_world [state 3 ''Menu''] [ama] []"
  let ?gs = "arr [state 3 ''Menu'']"
  have q: "\<not> newSession ?q" "userData ?q \<noteq> ''0''" "userData ?q \<noteq> ''9''" "msisdn ?q \<noteq> []"
    by (simp_all add: ask_def)
  have c: "cache ?w (sessionID ?q) = Some ?us" "top ?us = Some (state 99 ''?'')"
    by (simp_all add: ask_def courier_world_def top_def arr_def)
  have l: "level (state 99 ''?'') \<notin> Some ` {0, 10, 11, 12, 13, 14, 15, 16, 30}"
    "level (state 99 ''?'') \<notin> Some ` {0, 5, 10, 11, 12, 13, 14, 15, 16, 17, 30}"
    by (simp_all add: state_def)
  have g: "g_cache ?g (sessionID ?q) = Some ?gs" "items ?gs \<noteq> []"
    "level (last (items ?gs)) \<notin> Some ` ({1, 2} \<union> {10..<20})"
    "find (\<lambda>u. gu_msisdn u = msisdn ?q) (g_users ?g) = Some ama"
    "True \<notin> set (g_faults ?g)"
    by (auto simp: ask_def gateplus_world_def arr_def state_def ama_def)
  note h = unknown_level [OF q(1), where w = ?w and us = ?us and cur = "state 99 ''?''"
      and rt = ascii_runtime and gw = ?g and gs = ?gs and u = ama]
  from h q c l(1) have "ncstcs_ussd ascii_runtime ?q ?w =
      (Some (respond ?q ncstcs_home True),
       ?w\<lparr>cache := (cache ?w)(sessionID ?q \<mapsto> arr [state 0 ncstcs_home])\<rparr>)"
    by blast
  then have a: "ncstcs_ussd ascii_runtime ?q ?w
      = (Some (respond ?q ncstcs_home True), courier_world [state 0 ncstcs_home] [] [])"
    by (simp add: courier_world_def ask_def)
  from h q c l(2) have "pcrs_ussd ascii_runtime ?q ?w =
      (Some (respond ?q pcrs_home True),
       ?w\<lparr>cache := (cache ?w)(sessionID ?q \<mapsto> arr [state 0 pcrs_home])\<rparr>)"
    by blast
  then have b: "pcrs_ussd ascii_runtime ?q ?w
      = (Some (respond ?q pcrs_home True), courier_world [state 0 pcrs_home] [] [])"
    by (simp add: courier_world_def ask_def)
  from h g q(4) have d: "fst (gateplus_ussd ascii_runtime ?q ?g)
      = Some (respond ?q ''An error occurred.'' False)"
    "g_cache (snd (gateplus_ussd ascii_runtime ?q ?g)) = g_cache ?g"
    by blast+
  show ?thesis
    using q(1) l(2) a b g(3) d by blast
qed

text \<open>The amounts 5 and 250 at the loan-amount step.\<close>

theorem loan_amount_step_witness:
  "\<not> newSession (ask ''5'') \<and> parseFloat ascii_runtime (userData (ask ''5'')) = Fin 5
   \<and> js_less (Fin 5) 10
   \<and> fst (gateplus_ussd ascii_runtime (ask ''5'') (gateplus_world [state 1 gp_menu, amount_state] [ama] []))
       = Some (respond (ask ''5'') ''Enter amount between GHS 10 and 1000:'' True)
   \<and> g_cache (snd (gateplus_ussd ascii_runtime (ask ''5'')
         (gateplus_world [state 1 gp_menu, amount_state] [ama] []))) ''s1''
       = Some (arr [state 1 gp_menu, amount_state\<lparr>message := ''Enter amount between GHS 10 and 1000:''\<rparr>])
   \<and> loans (snd (gateplus_ussd ascii_runtime (ask ''5'')
         (gateplus_world [state 1 gp_menu, amount_state] [ama] []))) = []
   \<and> parseFloat ascii_runtime (userData (ask ''250'')) = Fin 250
   \<and> \<not> isNaN (Fin 250) \<and> \<not> js_less (Fin 250) 10 \<and> \<not> js_greater (Fin 250) 1000
   \<and> fst (gateplus_ussd ascii_runtime (ask ''250'') (gateplus_world [state 1 gp_menu, amount_state] [ama] []))
       = Some (respond (ask ''250'')
           ''Loan request for GHS 250 received!\<newline>Processing... Funds will be sent shortly.'' False)
   \<and> g_cache (snd (gateplus_ussd ascii_runtime (ask ''250'')
         (gateplus_world [state 1 gp_menu, amount_state] [ama] []))) ''s1'' = None
   \<and> loans (snd (gateplus_ussd ascii_runtime (ask ''250'')
         (gateplus_world [state 1 gp_menu, amount_state] [ama] [])))
       = [\<lparr>loan_id = 1, loan_userId = 1, loan_msisdn = ''0551234567'', amount = Fin 250,
           loan_status = ''loan_pending'', requestedAt = 1000\<rparr>]"
proof -
  let ?g = "gateplus_world [state 1 gp_menu, amount_state] [ama] []"
  let ?gs = "arr [state 1 gp_menu, amount_state]"
  have q: "\<not> newSession (ask i)" "msisdn (ask i) \<noteq> []" for i
    by (simp_all add: ask_def)
  have g: "g_cache ?g (sessionID (ask i)) = Some ?gs" "items ?gs \<noteq> []"
    "level (last (items ?gs)) = Some 2"
    "find (\<lambda>u. gu_msisdn u = msisdn (ask i)) (g_users ?g) = Some ama"
    "True \<notin> set (g_faults ?g)" for i
    by (auto simp: ask_def gateplus_world_def arr_def state_def ama_def amount_state_def)
  have p: "parseFloat ascii_runtime (userData (ask ''5'')) = Fin 5"
    "parseFloat ascii_runtime (userData (ask ''250'')) = Fin 250"
    "numberToString ascii_runtime (Fin 250) = ''250''"
    by (simp_all add: ascii_runtime_def ask_def)
  have n: "js_less (Fin 5) 10" "\<not> isNaN (Fin 250)" "\<not> js_less (Fin 250) 10"
    "\<not> js_greater (Fin 250) 1000"
    by (simp_all add: isNaN_def)
  note h5 = loan_amount_step [OF q(1) [of "''5''"] g(1) [of "''5''"] g(2,3)
      g(4) [of "''5''"] q(2) [of "''5''"] g(5), where rt = ascii_runtime,
      THEN conjunct1, rule_format]
  note h250 = loan_amount_step [OF q(1) [of "''250''"] g(1) [of "''250''"] g(2,3)
      g(4) [of "''250''"] q(2) [of "''250''"] g(5), where rt = ascii_runtime,
      THEN conjunct2, rule_format]
  have a: "fst (gateplus_ussd ascii_runtime (ask ''5'') ?g)
       = Some (respond (ask ''5'') ''Enter amount between GHS 10 and 1000:'' True)"
    "g_cache (snd (gateplus_ussd ascii_runtime (ask ''5'') ?g)) ''s1''
       = Some (arr [state 1 gp_menu, amount_state\<lparr>message := ''Enter amount between GHS 10 and 1000:''\<rparr>])"
    "loans (snd (gateplus_ussd ascii_runtime (ask ''5'') ?g)) = []"
    using h5 n(1) unfolding p
    by (simp_all add: arr_def ask_def gateplus_world_def)
  have b: "fst (gateplus_ussd ascii_runtime (ask ''250'') ?g)
       = Some (respond (ask ''250'')
           ''Loan request for GHS 250 received!\<newline>Processing... Funds will be sent shortly.'' False)"
    "g_cache (snd (gateplus_ussd ascii_runtime (ask ''250'') ?g)) ''s1'' = None"
    "loans (snd (gateplus_ussd ascii_runtime (ask ''250'') ?g))
       = [\<lparr>loan_id = 1, loan_userId = 1, loan_msisdn = ''0551234567'', amount = Fin 250,
           loan_status = ''loan_pending'', requestedAt = 1000\<rparr>]"
    using h250 n(2,3,4) unfolding p
    by (simp_all add: arr_def ask_def gateplus_world_def ama_def)
  show ?thesis
    using q(1) p(1,2) n a b by blast
qed

text \<open>PCRS, Home on a logged-in session while the repository fails the lookup: the failure is caught, the menu greets \<open>Courier\<close>, the session continues and stays stored.\<close>

theorem repository_failure_counterexample:
  "\<not> newSession (ask ''0'')
   \<and> faults (courier_world kwame_session [stored_kwame] [True]) = [True]
   \<and> calls (snd (pcrs_ussd ascii_runtime (ask ''0'') (courier_world kwame_session [stored_kwame] [True])))
       = [FindById (Some 1)]
   \<and> fst (pcrs_ussd ascii_runtime (ask ''0'') (courier_world kwame_session [stored_kwame] [True]))
       = Some (respond (ask ''0'') (pcrs_menu ''Courier'') True)
   \<and> continueSession (respond (ask ''0'') (pcrs_menu ''Courier'') True)
   \<and> cache (snd (pcrs_ussd ascii_runtime (ask ''0'') (courier_world kwame_session [stored_kwame] [True])))
        ''s1''
       = Some (arr [logged_in (pcrs_menu ''Courier'') (Some 1)])"
  by (simp add: pcrs_ussd_def pcrs_go_home_def findById_def called_def reply_def answer_def
      first_state_def session_userRef_def ask_def courier_world_def kwame_session_def arr_def
      logged_in_def state_def fault_next_def respond_def)

text \<open>
  The repository fails the username query of the courier applications, and the saving
  of the loan, the third operation of the step, in GatePlus. It fails the create of a
  sign-up in both courier applications, and in PCRS the lookup of Home, the lookup of
  a starting session and the lookup of \<open>View My Details\<close>.
\<close>

theorem repository_failure_terminates_witness:
  "\<not> newSession (ask ''kwame'')
   \<and> fault_next (faults (courier_world [home_state, username_state] [] [True]))
   \<and> ncstcs_ussd ascii_runtime (ask ''kwame'') (courier_world [home_state, username_state] [] [True])
       = (Some (respond (ask ''kwame'') unavailable False),
          \<lparr>cache = Map.empty, users = [], faults = [], calls = [FindOne (ByUsername ''kwame'')]\<rparr>)
   \<and> pcrs_ussd ascii_runtime (ask ''kwame'') (courier_world [home_state, username_state] [] [True])
       = (Some (respond (ask ''kwame'') unavailable False),
          \<lparr>cache = Map.empty, users = [], faults = [], calls = [FindOne (ByUsername ''kwame'')]\<rparr>)
   \<and> g_faults (gateplus_world [state 1 gp_menu, amount_state] [ama] [False, False, True])
       = [False, False, True]
   \<and> length (g_calls (snd (gateplus_ussd ascii_runtime (ask ''250'')
        (gateplus_world [state 1 gp_menu, amount_state] [ama] [False, False, True])))) = 3
   \<and> fst (gateplus_ussd ascii_runtime (ask ''250'')
        (gateplus_world [state 1 gp_menu, amount_state] [ama] [False, False, True]))
       = Some (respond (ask ''250'') unavailable False)
   \<and> g_cache (snd (gateplus_ussd ascii_runtime (ask ''250'')
        (gateplus_world [state 1 gp_menu, amount_state] [ama] [False, False, True]))) ''s1'' = None
   \<and> level (card_state 13) = Some 16 \<and> level (card_state 14) = Some 17
   \<and> fault_next (tl (faults (courier_world [home_state, card_state 13] [] [False, True])))
   \<and> ncstcs_ussd ascii_runtime (ask ''GHA-123456789-01'')
        (courier_world [home_state, card_state 13] [] [False, True])
       = (Some (respond (ask ''GHA-123456789-01'') ''Registration failed. Try again later.'' False),
          \<lparr>cache = Map.empty, users = [], faults = [],
           calls = [FindOne (ByGhanaCardNumber ''GHA-123456789-01''),
                    Create (created ascii_runtime (card_state 13) ''secret1'' None
                      ''GHA-123456789-01'')]\<rparr>)
   \<and> pcrs_ussd ascii_runtime (ask ''GHA-123456789-01'')
        (courier_world [home_state, card_state 14] [] [False, True])
       = (Some (respond (ask ''GHA-123456789-01'') ''Registration failed. Try again later.'' False),
          \<lparr>cache = Map.empty, users = [], faults = [],
           calls = [FindOne (ByGhanaCardNumber ''GHA-123456789-01''),
                    Create (created ascii_runtime (card_state 14) ''secret1'' None
                      ''GHA-123456789-01'')]\<rparr>)
   \<and> userData (ask ''0'') = ''0''
   \<and> first_state (arr kwame_session) = Some (logged_in (pcrs_menu ''Kwame Boateng'') (Some 1))
   \<and> pcrs_ussd ascii_runtime (ask ''0'') (courier_world kwame_session [stored_kwame] [True])
       = (Some (respond (ask ''0'') (pcrs_menu ''Courier'') True),
          \<lparr>cache = [''s1'' \<mapsto> arr [logged_in (pcrs_menu ''Courier'') (Some 1)]],
           users = [stored_kwame], faults = [], calls = [FindById (Some 1)]\<rparr>)
   \<and> cache (no_sessions\<lparr>faults := [True]\<rparr>) (sessionID (ask ''1'')) = None
   \<and> normalizePhone (msisdn (ask ''1'')) = ''+233551234567''
   \<and> pcrs_ussd ascii_runtime (ask ''1'') (no_sessions\<lparr>faults := [True]\<rparr>)
       = (Some (respond (ask ''1'') pcrs_home True),
          \<lparr>cache = [''s1'' \<mapsto> arr [logged_out]], users = [], faults = [],
           calls = [FindOne (ByPhone ''+233551234567'')]\<rparr>)
   \<and> userData (ask ''1'') = ''1''
   \<and> pcrs_ussd ascii_runtime (ask ''1'')
        (courier_world [logged_in (pcrs_menu ''Kwame Boateng'') (Some 1)] [stored_kwame] [True])
       = (Some (respond (ask ''1'') ''Unable to fetch details at the moment.'' False),
          \<lparr>cache = Map.empty, users = [stored_kwame], faults = [], calls = [FindById (Some 1)]\<rparr>)"
proof -
  let ?q = "ask ''kwame''"
  let ?w = "courier_world [home_state, username_state] [] [True]"
  let ?us = "arr [home_state, username_state]"
  let ?g = "gateplus_world [state 1 gp_menu, amount_state] [ama] [False, False, True]"
  let ?gs = "arr [state 1 gp_menu, amount_state]"
  let ?c = "ask ''GHA-123456789-01''"
  let ?k = "logged_in (pcrs_menu ''Kwame Boateng'') (Some 1)"
  have q: "\<not> newSession (ask i)" "userData ?q \<noteq> ''0''" "userData ?q \<noteq> ''9''"
    "sessionID (ask i) = ''s1''" "userData (ask i) = i" "msisdn (ask i) = ''0551234567''" for i
    by (simp_all add: ask_def)
  have c: "cache (courier_world xs cs fs) ''s1'' = Some (arr xs)" "faults (courier_world xs cs fs) = fs"
    "calls (courier_world xs cs fs) = []" "users (courier_world xs cs fs) = cs" for xs cs fs
    by (simp_all add: courier_world_def)
  have f: "fault_next [True]" "\<not> fault_next [False, True]" "fault_next (tl [False, True])"
    by (simp_all add: fault_next_def)
  have t: "trim (userData ?q) = ''kwame''"
    by (simp add: ask_def trim_def isWhiteSpace_def)

  have n: "calls (snd (ncstcs_ussd ascii_runtime ?q ?w)) = [FindOne (ByUsername ''kwame'')]"
    using kwame_username_ok q(1-3) t
    by (simp add: ncstcs_ussd_def ncstcs_switch_def ncstcs_case11_def findOne_def called_def
        catch_all_def finish_def answer_def top_def arr_def username_state_def state_def
        courier_world_def fault_next_def Let_def ask_def)
  have p: "calls (snd (pcrs_ussd ascii_runtime ?q ?w)) = [FindOne (ByUsername ''kwame'')]"
    using kwame_username_ok q(1-3) t
    by (simp add: pcrs_ussd_def pcrs_switch_def pcrs_case11_def findOne_def called_def
        catch_all_def finish_def answer_def top_def arr_def username_state_def state_def
        courier_world_def fault_next_def Let_def ask_def)
  have "\<exists>v. ncstcs_ussd ascii_runtime ?q ?w
       = (Some (respond ?q unavailable False),
          (called (FindOne v) ?w)\<lparr>cache := (cache ?w)(sessionID ?q := None)\<rparr>)"
    by (rule repository_failure_terminates [THEN conjunct1, rule_format, where us = ?us])
      (simp add: q c f n)
  then obtain v where "ncstcs_ussd ascii_runtime ?q ?w
       = (Some (respond ?q unavailable False),
          (called (FindOne v) ?w)\<lparr>cache := (cache ?w)(sessionID ?q := None)\<rparr>)"
    by blast
  with n have a: "ncstcs_ussd ascii_runtime ?q ?w
       = (Some (respond ?q unavailable False),
          \<lparr>cache = Map.empty, users = [], faults = [], calls = [FindOne (ByUsername ''kwame'')]\<rparr>)"
    by (simp add: called_def courier_world_def q)
  have "\<exists>v. pcrs_ussd ascii_runtime ?q ?w
       = (Some (respond ?q unavailable False),
          (called (FindOne v) ?w)\<lparr>cache := (cache ?w)(sessionID ?q := None)\<rparr>)"
    by (rule repository_failure_terminates [THEN conjunct2, THEN conjunct1, rule_format,
          where us = ?us])
      (simp add: q c f p)
  then obtain v' where "pcrs_ussd ascii_runtime ?q ?w
       = (Some (respond ?q unavailable False),
          (called (FindOne v') ?w)\<lparr>cache := (cache ?w)(sessionID ?q := None)\<rparr>)"
    by blast
  with p have b: "pcrs_ussd ascii_runtime ?q ?w
       = (Some (respond ?q unavailable False),
          \<lparr>cache = Map.empty, users = [], faults = [], calls = [FindOne (ByUsername ''kwame'')]\<rparr>)"
    by (simp add: called_def courier_world_def q)

  have g: "g_cache ?g (sessionID (ask ''250'')) = Some ?gs" "items ?gs \<noteq> []"
    "g_faults ?g = [False, False, True]" "g_calls ?g = []"
    by (simp_all add: ask_def gateplus_world_def arr_def)
  have e: "length (g_calls (snd (gateplus_ussd ascii_runtime (ask ''250'') ?g))) = 3"
    using q(1) [of "''250''"] g(1)
    by (simp add: gateplus_ussd_def gp_try_def gp_existing_def gp_case2_def findUser_def
        logActivity_def saveLoan_def g_called_def gp_catch_def g_del_def g_answer_def arr_def
        state_def amount_state_def gateplus_world_def fault_next_def ask_def ama_def
        ascii_runtime_def isNaN_def Let_def)
  have m: "True \<in> set (take (length (g_calls (snd (gateplus_ussd ascii_runtime (ask ''250'') ?g)))
      - length (g_calls ?g)) (g_faults ?g))"
    unfolding e g(3,4) by simp
  have "fst (gateplus_ussd ascii_runtime (ask ''250'') ?g)
        = Some (respond (ask ''250'') unavailable False)
      \<and> g_cache (snd (gateplus_ussd ascii_runtime (ask ''250'') ?g))
        = (g_cache ?g)(sessionID (ask ''250'') := None)
      \<and> take (length (g_calls (snd (gateplus_ussd ascii_runtime (ask ''250'') ?g)))
            - length (g_calls ?g)) (g_faults ?g)
        = replicate (length (g_calls (snd (gateplus_ussd ascii_runtime (ask ''250'') ?g)))
            - length (g_calls ?g) - 1) False @ [True]"
    by (rule repository_failure_terminates [THEN conjunct2, THEN conjunct2, THEN conjunct1,
          rule_format, where gs = ?gs])
      (intro conjI q(1) g(1,2) m)
  then have d: "fst (gateplus_ussd ascii_runtime (ask ''250'') ?g)
        = Some (respond (ask ''250'') unavailable False)"
    "g_cache (snd (gateplus_ussd ascii_runtime (ask ''250'') ?g)) ''s1'' = None"
    by (simp_all add: q)

  have u: "toUpperCase ascii_runtime (trim (userData ?c)) = ''GHA-123456789-01''"
    unfolding q(5) by (rule card_upper)
  have v: "isValidGhanaCard (toUpperCase ascii_runtime (trim (userData ?c)))"
    unfolding q(5) by (rule card_ok)
  have s: "top (arr [home_state, card_state l]) = Some (card_state l)"
    "password (card_state l) = Some ''secret1''" "phone (card_state l) = None" for l
    by (simp_all add: top_def arr_def card_state_def confirm_state_def password_state_def
        state_def)
  have l: "level (card_state 13) = Some 16" "level (card_state 14) = Some 17"
    by (simp_all add: card_state_def)
  have h: "\<not> newSession ?c \<and> userData ?c \<noteq> ''0'' \<and> userData ?c \<noteq> ''9''
      \<and> cache (courier_world [home_state, card_state l] [] [False, True]) (sessionID ?c)
          = Some (arr [home_state, card_state l])
      \<and> top (arr [home_state, card_state l]) = Some (card_state l)
      \<and> password (card_state l) = Some ''secret1''
      \<and> isValidGhanaCard (toUpperCase ascii_runtime (trim (userData ?c)))
      \<and> \<not> fault_next (faults (courier_world [home_state, card_state l] [] [False, True]))
      \<and> find (satisfies (ByGhanaCardNumber (toUpperCase ascii_runtime (trim (userData ?c)))))
          (users (courier_world [home_state, card_state l] [] [False, True])) = None" for l
    using v by (simp add: q c f s)
  note reg = repository_failure_terminates [THEN conjunct2, THEN conjunct2, THEN conjunct2,
      THEN conjunct1, rule_format, OF h]
  have "ncstcs_ussd ascii_runtime ?c (courier_world [home_state, card_state 13] [] [False, True])
       = (Some (respond ?c ''Registration failed. Try again later.'' False),
          (called (Create (created ascii_runtime (card_state 13) ''secret1'' None
                (toUpperCase ascii_runtime (trim (userData ?c)))))
             (called (FindOne (ByGhanaCardNumber (toUpperCase ascii_runtime (trim (userData ?c)))))
                (courier_world [home_state, card_state 13] [] [False, True])))
            \<lparr>cache := (cache (courier_world [home_state, card_state 13] [] [False, True]))
                (sessionID ?c := None)\<rparr>)"
    by (rule reg [THEN conjunct1, rule_format]) (simp add: l c f)
  then have rn: "ncstcs_ussd ascii_runtime ?c
        (courier_world [home_state, card_state 13] [] [False, True])
       = (Some (respond ?c ''Registration failed. Try again later.'' False),
          \<lparr>cache = Map.empty, users = [], faults = [],
           calls = [FindOne (ByGhanaCardNumber ''GHA-123456789-01''),
                    Create (created ascii_runtime (card_state 13) ''secret1'' None
                      ''GHA-123456789-01'')]\<rparr>)"
    unfolding u by (simp add: called_def courier_world_def q)
  have "pcrs_ussd ascii_runtime ?c (courier_world [home_state, card_state 14] [] [False, True])
       = (Some (respond ?c ''Registration failed. Try again later.'' False),
          (called (Create (created ascii_runtime (card_state 14) ''secret1'' (phone (card_state 14))
                (toUpperCase ascii_runtime (trim (userData ?c)))))
             (called (FindOne (ByGhanaCardNumber (toUpperCase ascii_runtime (trim (userData ?c)))))
                (courier_world [home_state, card_state 14] [] [False, True])))
            \<lparr>cache := (cache (courier_world [home_state, card_state 14] [] [False, True]))
                (sessionID ?c := None)\<rparr>)"
    by (rule reg [THEN conjunct2, rule_format]) (simp add: l c f)
  then have rp: "pcrs_ussd ascii_runtime ?c
        (courier_world [home_state, card_state 14] [] [False, True])
       = (Some (respond ?c ''Registration failed. Try again later.'' False),
          \<lparr>cache = Map.empty, users = [], faults = [],
           calls = [FindOne (ByGhanaCardNumber ''GHA-123456789-01''),
                    Create (created ascii_runtime (card_state 14) ''secret1'' None
                      ''GHA-123456789-01'')]\<rparr>)"
    unfolding u s by (simp add: called_def courier_world_def q)

  have k: "first_state (arr kwame_session) = Some ?k" "loggedIn (logged_in i r) = Some True"
    "userRef (logged_in i r) = r" "top (arr [x]) = Some x" "level (logged_in i r) = Some 0"
    "session_userRef (arr [logged_in i r]) = r" for i r x
    by (simp_all add: first_state_def session_userRef_def arr_def kwame_session_def logged_in_def
        state_def top_def)
  have "pcrs_ussd ascii_runtime (ask ''0'') (courier_world kwame_session [stored_kwame] [True])
      = (Some (respond (ask ''0'') (pcrs_menu ''Courier'') True),
         (called (FindById (userRef ?k)) (courier_world kwame_session [stored_kwame] [True]))
           \<lparr>cache := (cache (courier_world kwame_session [stored_kwame] [True]))
              (sessionID (ask ''0'') \<mapsto> arr [logged_in (pcrs_menu ''Courier'') (userRef ?k)])\<rparr>)"
    by (rule repository_failure_terminates [THEN conjunct2, THEN conjunct2, THEN conjunct2,
          THEN conjunct2, THEN conjunct1, rule_format, where us = "arr kwame_session"])
      (simp add: q c f k)
  then have hm: "pcrs_ussd ascii_runtime (ask ''0'')
        (courier_world kwame_session [stored_kwame] [True])
      = (Some (respond (ask ''0'') (pcrs_menu ''Courier'') True),
          \<lparr>cache = [''s1'' \<mapsto> arr [logged_in (pcrs_menu ''Courier'') (Some 1)]],
           users = [stored_kwame], faults = [], calls = [FindById (Some 1)]\<rparr>)"
    unfolding k by (simp add: called_def courier_world_def q)

  have z: "cache (no_sessions\<lparr>faults := [True]\<rparr>) (sessionID (ask ''1'')) = None"
    "normalizePhone (msisdn (ask ''1'')) = ''+233551234567''"
    "fault_next (faults (no_sessions\<lparr>faults := [True]\<rparr>))"
    by (simp_all add: no_sessions_def q phone_normal f)
  have zn: "normalizePhone (msisdn (ask ''1'')) \<noteq> []"
    unfolding z(2) by simp
  have "pcrs_ussd ascii_runtime (ask ''1'') (no_sessions\<lparr>faults := [True]\<rparr>)
      = (Some (respond (ask ''1'') pcrs_home True),
         (called (FindOne (ByPhone (normalizePhone (msisdn (ask ''1'')))))
            (no_sessions\<lparr>faults := [True]\<rparr>))
           \<lparr>cache := (cache (no_sessions\<lparr>faults := [True]\<rparr>))
              (sessionID (ask ''1'') \<mapsto> arr [logged_out])\<rparr>)"
    by (rule repository_failure_terminates [THEN conjunct2, THEN conjunct2, THEN conjunct2,
          THEN conjunct2, THEN conjunct2, THEN conjunct1, rule_format])
      (intro conjI disjI2 z(1,3) zn)
  then have st: "pcrs_ussd ascii_runtime (ask ''1'') (no_sessions\<lparr>faults := [True]\<rparr>)
      = (Some (respond (ask ''1'') pcrs_home True),
          \<lparr>cache = [''s1'' \<mapsto> arr [logged_out]], users = [], faults = [],
           calls = [FindOne (ByPhone ''+233551234567'')]\<rparr>)"
    unfolding z(2) by (simp add: called_def no_sessions_def q)

  have "pcrs_ussd ascii_runtime (ask ''1'') (courier_world [?k] [stored_kwame] [True])
      = (Some (respond (ask ''1'') ''Unable to fetch details at the moment.'' False),
         (called (FindById (session_userRef (arr [?k]))) (courier_world [?k] [stored_kwame] [True]))
           \<lparr>cache := (cache (courier_world [?k] [stored_kwame] [True]))
              (sessionID (ask ''1'') := None)\<rparr>)"
    by (rule repository_failure_terminates [THEN conjunct2, THEN conjunct2, THEN conjunct2,
          THEN conjunct2, THEN conjunct2, THEN conjunct2, rule_format, where cur = ?k])
      (simp add: q c f k)
  then have vd: "pcrs_ussd ascii_runtime (ask ''1'') (courier_world [?k] [stored_kwame] [True])
      = (Some (respond (ask ''1'') ''Unable to fetch details at the moment.'' False),
          \<lparr>cache = Map.empty, users = [stored_kwame], faults = [], calls = [FindById (Some 1)]\<rparr>)"
    unfolding k by (simp add: called_def courier_world_def q)

  have x: "fault_next (faults ?w)"
    "fault_next (tl (faults (courier_world [home_state, card_state 13] [] [False, True])))"
    by (simp_all add: c f)
  show ?thesis
    using q(1) x(1) a b g(3) e d l x(2) rn rp q(5) [of "''0''"] k(1) hm z(1,2) st
      q(5) [of "''1''"] vd
    by blast
qed

text \<open>NCSTCS at the last step of a sign-up whose username \<open>kwame\<close> a stored user has taken meanwhile: the repository is asked for the card only, and the create is issued with the taken username.\<close>

theorem final_step_counterexample:
  "username (card_state 13) = Some ''kwame''
   \<and> find (satisfies (ByUsername ''kwame''))
         (users (courier_world [home_state, card_state 13] [stored_kwame] [])) = Some stored_kwame
   \<and> calls (snd (ncstcs_ussd ascii_runtime (ask ''GHA-123456789-01'')
         (courier_world [home_state, card_state 13] [stored_kwame] [])))
       = [FindOne (ByGhanaCardNumber ''GHA-123456789-01''),
          Create (created ascii_runtime (card_state 13) ''secret1'' None ''GHA-123456789-01'')]
   \<and> fst (ncstcs_ussd ascii_runtime (ask ''GHA-123456789-01'')
         (courier_world [home_state, card_state 13] [stored_kwame] []))
       = Some (respond (ask ''GHA-123456789-01'') ''Registration failed. Try again later.'' False)"
  using card_ok card_upper
  by (simp add: ncstcs_ussd_def ncstcs_switch_def ncstcs_case16_def register_def create_def
      acceptable_def duplicate_def clash_def findOne_def called_def catch_all_def finish_def
      answer_def top_def arr_def card_state_def confirm_state_def password_state_def state_def
      courier_world_def fault_next_def Let_def ask_def stored_kwame_def created_def truthy_def
      home_state_def)

text \<open>The last step of a sign-up: in NCSTCS with no user stored, in PCRS with the username taken.\<close>

theorem final_step_checks_card_only_witness:
  "\<not> newSession (ask ''GHA-123456789-01'')
   \<and> isValidGhanaCard (toUpperCase ascii_runtime (trim (userData (ask ''GHA-123456789-01''))))
   \<and> level (card_state 13) = Some 16 \<and> level (card_state 14) = Some 17
   \<and> password (card_state 13) = Some ''secret1''
   \<and> registration_outcome
        (ncstcs_ussd ascii_runtime (ask ''GHA-123456789-01'')
           (courier_world [home_state, card_state 13] [] []))
        (ask ''GHA-123456789-01'') (courier_world [home_state, card_state 13] [] [])
        ''GHA-123456789-01''
        (created ascii_runtime (card_state 13) ''secret1'' None ''GHA-123456789-01'')
        ''Registration successful!''
   \<and> users (snd (ncstcs_ussd ascii_runtime (ask ''GHA-123456789-01'')
           (courier_world [home_state, card_state 13] [] [])))
       = [(created ascii_runtime (card_state 13) ''secret1'' None ''GHA-123456789-01'')\<lparr>doc_id := 1\<rparr>]
   \<and> registration_outcome
        (pcrs_ussd ascii_runtime (ask ''GHA-123456789-01'')
           (courier_world [home_state, card_state 14] [stored_kwame] []))
        (ask ''GHA-123456789-01'') (courier_world [home_state, card_state 14] [stored_kwame] [])
        ''GHA-123456789-01''
        (created ascii_runtime (card_state 14) ''secret1'' None ''GHA-123456789-01'')
        pcrs_registered
   \<and> users (snd (pcrs_ussd ascii_runtime (ask ''GHA-123456789-01'')
           (courier_world [home_state, card_state 14] [stored_kwame] []))) = [stored_kwame]"
proof -
  let ?q = "ask ''GHA-123456789-01''"
  let ?n = "courier_world [home_state, card_state 13] [] []"
  let ?p = "courier_world [home_state, card_state 14] [stored_kwame] []"
  have q: "\<not> newSession ?q" "userData ?q \<noteq> ''0''" "userData ?q \<noteq> ''9''"
    by (simp_all add: ask_def)
  have u: "userData ?q = ''GHA-123456789-01''"
    by (simp add: ask_def)
  have v: "isValidGhanaCard (toUpperCase ascii_runtime (trim (userData ?q)))"
    unfolding u by (rule card_ok)
  have c: "cache (courier_world [home_state, card_state l] us []) (sessionID ?q)
      = Some (arr [home_state, card_state l])"
    "top (arr [home_state, card_state l]) = Some (card_state l)"
    "password (card_state l) = Some ''secret1''"
    "\<not> fault_next (faults (courier_world [home_state, card_state l] us []))" for l us
    by (simp_all add: ask_def courier_world_def top_def arr_def card_state_def confirm_state_def
        fault_next_def)
  have l: "level (card_state 13) = Some 16" "level (card_state 14) = Some 17"
    "phone (card_state 14) = None"
    by (simp_all add: card_state_def confirm_state_def password_state_def state_def)
  have f: "find (satisfies (ByGhanaCardNumber (toUpperCase ascii_runtime (trim (userData ?q)))))
      (users ?n) = None"
    "find (satisfies (ByGhanaCardNumber (toUpperCase ascii_runtime (trim (userData ?q)))))
      (users ?p) = None"
    unfolding u card_upper by (simp_all add: courier_world_def stored_kwame_def)
  note hn = final_step_checks_card_only [OF q c(1) c(2) c(3) v c(4) f(1), THEN conjunct1,
      rule_format, OF l(1), unfolded u card_upper]
  note hp = final_step_checks_card_only [OF q c(1) c(2) c(3) v c(4) f(2), THEN conjunct2,
      rule_format, OF l(2), unfolded u card_upper l(3)]
  have an: "acceptable (created ascii_runtime (card_state 13) ''secret1'' None ''GHA-123456789-01'')
      (users ?n)"
    "\<not> fault_next (tl (faults ?n))" "users ?n = []" "fresh_id (users ?n) = 1"
    by (simp_all add: acceptable_def created_def card_state_def confirm_state_def
        password_state_def state_def truthy_def ascii_runtime_def courier_world_def fault_next_def
        fresh_id_def)
  have ap: "\<not> acceptable (created ascii_runtime (card_state 14) ''secret1'' None ''GHA-123456789-01'')
      (users ?p)" "users ?p = [stored_kwame]"
    by (simp_all add: acceptable_def duplicate_def clash_def created_def card_state_def
        confirm_state_def password_state_def state_def stored_kwame_def courier_world_def)
  have un: "users (snd (ncstcs_ussd ascii_runtime ?q ?n))
       = [(created ascii_runtime (card_state 13) ''secret1'' None ''GHA-123456789-01'')\<lparr>doc_id := 1\<rparr>]"
    using hn an unfolding registration_outcome_def by simp
  have up: "users (snd (pcrs_ussd ascii_runtime ?q ?p)) = [stored_kwame]"
    using hp ap unfolding registration_outcome_def by simp
  show ?thesis
    using q(1) v l(1,2) c(3) [of 13] hn un hp up by blast
qed

end
